theory Spec2Isabelle
  imports Main
begin

section \<open>Data model (types/index.ts)\<close>

text \<open>
  Times are milliseconds since the epoch (\<open>Date.getTime()\<close>); the ISO strings the store
  keeps are ordered like these numbers. An operation reads the clock once: the model gives
  it one \<open>now\<close>. Lamport amounts and configuration numbers are integers. The autoincrement
  row ids of the tables are left out: no function below reads them. Addresses are strings
  and are taken to be well formed: \<open>new PublicKey\<close> does not throw.
\<close>

datatype AccountStatus = ACTIVE | INACTIVE | CLOSED | RECLAIMED | WHITELISTED | ERROR

datatype AccountType = TOKEN_ACCOUNT | ASSOCIATED_TOKEN | PROGRAM_DATA | SYSTEM | UNKNOWN

record TrackedAccount =
  pubkey :: string
  createdAt :: int
  sponsoredTxSignature :: "string option"
  accountType :: AccountType
  rentLamports :: int
  status :: AccountStatus
  lastCheckedAt :: int
  closedAt :: "int option"
  programOwner :: "string option"
  dataSize :: "int option"
  accountNotes :: "string option"

record ReclaimTransaction =
  accountPubkey :: string
  txSignature :: string
  lamportsReclaimed :: int
  reclaimedAt :: int
  success :: bool
  errorMessage :: "string option"
  treasuryPubkey :: string

record ListEntry =
  entry_pubkey :: string
  reason :: "string option"
  added_at :: int

text \<open>The four tables of core/database.ts, rows in insertion order.\<close>

record Database =
  tracked_accounts :: "TrackedAccount list"
  reclaim_transactions :: "ReclaimTransaction list"
  whitelist :: "ListEntry list"
  blacklist :: "ListEntry list"

record BotConfig =
  operatorKeypairPath :: string
  koraSignerPubkey :: "string option"
  treasuryPubkeyCfg :: "string option"
  minDormancyDays :: int
  minReclaimLamports :: int
  dryRun :: bool

text \<open>What \<open>conn.getAccountInfo\<close> answers for an existing account.\<close>

record RawAccount =
  raw_lamports :: int
  raw_owner :: string
  raw_executable :: bool
  raw_rentEpoch :: int
  raw_dataLength :: int

record SolanaAccountInfo =
  info_pubkey :: string
  lamports :: int
  owner :: string
  executable :: bool
  rentEpoch :: int
  info_dataSize :: int
  exists :: bool

text \<open>
  A call that can throw returns a sum: \<open>Inl\<close> carries the message of the thrown error,
  \<open>Inr\<close> the value. A ledger read is given to the model as the answer the RPC node
  makes to it: \<open>Inl\<close> a transport failure, \<open>Inr None\<close> no such account, \<open>Inr (Some raw)\<close>
  the account.
\<close>

type_synonym 'a thrown = "string + 'a"

type_synonym ledger_read = "RawAccount option thrown"

section \<open>Printing\<close>

text \<open>A number inside a template string: its decimal digits, with a sign when negative.\<close>

definition digit :: "nat \<Rightarrow> char" where
  "digit d = char_of (48 + d)"

function decimal :: "nat \<Rightarrow> string \<Rightarrow> string" where
  "decimal n acc = (if n < 10 then digit n # acc else decimal (n div 10) (digit (n mod 10) # acc))"
  by pat_completeness auto
termination
  by (relation "measure fst") auto

definition showNumber :: "int \<Rightarrow> string" where
  "showNumber i = (if i < 0 then CHR ''-'' # decimal (nat (- i)) [] else decimal (nat i) [])"

text \<open>
  A caught error inside a template string, \<open>`${error}`\<close>: the name of the error, a colon
  and the message. The name is taken to be that of a plain \<open>Error\<close>.
\<close>

definition thrownText :: "string \<Rightarrow> string" where
  "thrownText e = ''Error: '' @ e"

text \<open>\<open>Array.prototype.join\<close>.\<close>

fun join :: "string \<Rightarrow> string list \<Rightarrow> string" where
  "join sep [] = []"
| "join sep [x] = x"
| "join sep (x # y # ys) = x @ sep @ join sep (y # ys)"

text \<open>\<open>v || null\<close> on an optional string and on an optional number.\<close>

definition or_null_string :: "string option \<Rightarrow> string option" where
  "or_null_string v = (case v of None \<Rightarrow> None | Some s \<Rightarrow> if s = [] then None else Some s)"

definition or_null_int :: "int option \<Rightarrow> int option" where
  "or_null_int v = (case v of None \<Rightarrow> None | Some n \<Rightarrow> if n = 0 then None else Some n)"

text \<open>SQL \<open>COALESCE(?, column)\<close>.\<close>

definition coalesce :: "'a option \<Rightarrow> 'a option \<Rightarrow> 'a option" where
  "coalesce v old = (case v of None \<Rightarrow> old | Some x \<Rightarrow> Some x)"

section \<open>State Store (core/database.ts)\<close>

definition emptyDatabase :: Database where
  "emptyDatabase = \<lparr>tracked_accounts = [], reclaim_transactions = [], whitelist = [], blacklist = []\<rparr>"

definition getAccount :: "Database \<Rightarrow> string \<Rightarrow> TrackedAccount option" where
  "getAccount db pk = find (\<lambda>a. pubkey a = pk) (tracked_accounts db)"

definition updateAccountStatus ::
  "Database \<Rightarrow> string \<Rightarrow> AccountStatus \<Rightarrow> int option \<Rightarrow> int \<Rightarrow> Database" where
  "updateAccountStatus db pk st closedAtArg now =
     db\<lparr>tracked_accounts :=
        map (\<lambda>a. if pubkey a = pk
                 then a\<lparr>status := st, closedAt := coalesce closedAtArg (closedAt a), lastCheckedAt := now\<rparr>
                 else a)
            (tracked_accounts db)\<rparr>"

definition updateAccountRent :: "Database \<Rightarrow> string \<Rightarrow> int \<Rightarrow> int \<Rightarrow> Database" where
  "updateAccountRent db pk rent now =
     db\<lparr>tracked_accounts :=
        map (\<lambda>a. if pubkey a = pk then a\<lparr>rentLamports := rent, lastCheckedAt := now\<rparr> else a)
            (tracked_accounts db)\<rparr>"

text \<open>
  \<open>upsertAccount\<close>: an update of the row with this pubkey when there is one, an insert
  otherwise; it returns the stored row (\<open>getAccount(account.pubkey)!\<close>).
\<close>

definition upsertAccount :: "Database \<Rightarrow> TrackedAccount \<Rightarrow> TrackedAccount option \<times> Database" where
  "upsertAccount db account =
     (let db' =
        (if list_ex (\<lambda>a. pubkey a = pubkey account) (tracked_accounts db)
         then db\<lparr>tracked_accounts :=
                map (\<lambda>a. if pubkey a = pubkey account
                         then a\<lparr>rentLamports := rentLamports account,
                                status := status account,
                                lastCheckedAt := lastCheckedAt account,
                                closedAt := coalesce (closedAt account) (closedAt a),
                                programOwner := coalesce (or_null_string (programOwner account)) (programOwner a),
                                dataSize := coalesce (or_null_int (dataSize account)) (dataSize a),
                                accountNotes := coalesce (or_null_string (accountNotes account)) (accountNotes a)\<rparr>
                         else a)
                    (tracked_accounts db)\<rparr>
         else db\<lparr>tracked_accounts :=
                tracked_accounts db @
                [account\<lparr>sponsoredTxSignature := or_null_string (sponsoredTxSignature account),
                         programOwner := or_null_string (programOwner account),
                         dataSize := or_null_int (dataSize account),
                         accountNotes := or_null_string (accountNotes account)\<rparr>]\<rparr>)
      in (getAccount db' (pubkey account), db'))"

text \<open>
  \<open>recordReclaimTransaction\<close> appends one row. The row it reads back and returns is not
  used by any caller, so the model returns the store only.
\<close>

definition recordReclaimTransaction :: "Database \<Rightarrow> ReclaimTransaction \<Rightarrow> Database" where
  "recordReclaimTransaction db tx =
     db\<lparr>reclaim_transactions :=
        reclaim_transactions db @ [tx\<lparr>errorMessage := or_null_string (errorMessage tx)\<rparr>]\<rparr>"

definition isWhitelisted :: "Database \<Rightarrow> string \<Rightarrow> bool" where
  "isWhitelisted db pk = list_ex (\<lambda>e. entry_pubkey e = pk) (whitelist db)"

definition isBlacklisted :: "Database \<Rightarrow> string \<Rightarrow> bool" where
  "isBlacklisted db pk = list_ex (\<lambda>e. entry_pubkey e = pk) (blacklist db)"

text \<open>\<open>INSERT OR REPLACE\<close> on a table whose pubkey column is unique.\<close>

definition insert_or_replace :: "ListEntry list \<Rightarrow> ListEntry \<Rightarrow> ListEntry list" where
  "insert_or_replace tbl e = filter (\<lambda>x. entry_pubkey x \<noteq> entry_pubkey e) tbl @ [e]"

definition addToWhitelist :: "Database \<Rightarrow> string \<Rightarrow> string option \<Rightarrow> int \<Rightarrow> Database" where
  "addToWhitelist db pk why now =
     updateAccountStatus
       (db\<lparr>whitelist :=
           insert_or_replace (whitelist db)
             \<lparr>entry_pubkey = pk, reason = or_null_string why, added_at = now\<rparr>\<rparr>)
       pk WHITELISTED None now"

definition removeFromWhitelist :: "Database \<Rightarrow> string \<Rightarrow> Database" where
  "removeFromWhitelist db pk = db\<lparr>whitelist := filter (\<lambda>e. entry_pubkey e \<noteq> pk) (whitelist db)\<rparr>"

definition addToBlacklist :: "Database \<Rightarrow> string \<Rightarrow> string option \<Rightarrow> int \<Rightarrow> Database" where
  "addToBlacklist db pk why now =
     db\<lparr>blacklist :=
        insert_or_replace (blacklist db)
          \<lparr>entry_pubkey = pk, reason = or_null_string why, added_at = now\<rparr>\<rparr>"

text \<open>
  \<open>getEligibleAccounts\<close>: the cutoff is \<open>now\<close> moved back by \<open>minDormancyDays\<close> calendar
  days, taken here as days of 86400000 ms. A row whose \<open>closed_at\<close> is NULL fails the
  comparison \<open>closed_at <= ?\<close>.
\<close>

definition msPerDay :: int where
  "msPerDay = 1000 * 60 * 60 * 24"

definition getEligibleAccounts :: "Database \<Rightarrow> int \<Rightarrow> int \<Rightarrow> int \<Rightarrow> TrackedAccount list" where
  "getEligibleAccounts db minDays minLamports now =
     filter (\<lambda>ta. status ta = CLOSED
                 \<and> (case closedAt ta of None \<Rightarrow> False | Some c \<Rightarrow> c \<le> now - minDays * msPerDay)
                 \<and> rentLamports ta \<ge> minLamports
                 \<and> \<not> isWhitelisted db (pubkey ta)
                 \<and> \<not> isBlacklisted db (pubkey ta))
            (tracked_accounts db)"

section \<open>Ledger Gateway (core/solana.ts)\<close>

definition TOKEN_PROGRAM_ID :: string where
  "TOKEN_PROGRAM_ID = ''TokenkegQfeZyiNwAJbNbGKPFXCWuBvf9Ss623VQ5DA''"

definition TOKEN_2022_PROGRAM_ID :: string where
  "TOKEN_2022_PROGRAM_ID = ''TokenzQdBNbLqP5VEhdkAS6EPFLC1PHnBqCXEpPxuEb''"

definition ASSOCIATED_TOKEN_PROGRAM_ID :: string where
  "ASSOCIATED_TOKEN_PROGRAM_ID = ''ATokenGPvbdGVxr1b2hvZbsiqW5xWH25efTNsLJA8knL''"

definition SYSTEM_PROGRAM_ID :: string where
  "SYSTEM_PROGRAM_ID = ''11111111111111111111111111111111''"

text \<open>The defaults \<open>info?.field ?? d\<close> that \<open>getAccountInfo\<close> fills in for a missing account.\<close>

definition toAccountInfo :: "string \<Rightarrow> RawAccount option \<Rightarrow> SolanaAccountInfo" where
  "toAccountInfo pk info =
     (case info of
        None \<Rightarrow>
          \<lparr>info_pubkey = pk, lamports = 0, owner = SYSTEM_PROGRAM_ID, executable = False,
           rentEpoch = 0, info_dataSize = 0, exists = False\<rparr>
      | Some raw \<Rightarrow>
          \<lparr>info_pubkey = pk, lamports = raw_lamports raw, owner = raw_owner raw,
           executable = raw_executable raw, rentEpoch = raw_rentEpoch raw,
           info_dataSize = raw_dataLength raw, exists = True\<rparr>)"

definition getAccountInfo :: "ledger_read \<Rightarrow> string \<Rightarrow> SolanaAccountInfo thrown" where
  "getAccountInfo conn pk = (case conn of Inl e \<Rightarrow> Inl e | Inr info \<Rightarrow> Inr (toAccountInfo pk info))"

definition detectAccountType :: "string \<Rightarrow> AccountType" where
  "detectAccountType ownerStr =
     (if ownerStr = TOKEN_PROGRAM_ID \<or> ownerStr = TOKEN_2022_PROGRAM_ID then TOKEN_ACCOUNT
      else if ownerStr = ASSOCIATED_TOKEN_PROGRAM_ID then ASSOCIATED_TOKEN
      else if ownerStr = SYSTEM_PROGRAM_ID then SYSTEM
      else PROGRAM_DATA)"

text \<open>
  The only instruction the gateway ever puts into a transaction is a system transfer.
  \<open>sendAndConfirmTransaction\<close> is the ledger's answer to a submitted instruction signed
  by the authority: a signature, or a thrown error.
\<close>

datatype Instruction = SystemTransfer (fromPubkey: string) (toPubkey: string) (transferLamports: int)

type_synonym submitter = "Instruction \<Rightarrow> string \<Rightarrow> string thrown"

record CloseResult =
  cr_signature :: string
  cr_success :: bool
  cr_lamportsReclaimed :: int
  cr_error :: "string option"

text \<open>
  \<open>closeAccountAndReclaimRent\<close>. The read of the account is outside the function's
  \<open>try\<close>, so its failure is thrown to the caller; a failure of the submission is caught
  and returned. The second component lists the instructions that were submitted.
\<close>

definition closeAccountAndReclaimRent ::
  "ledger_read \<Rightarrow> submitter \<Rightarrow> string \<Rightarrow> string \<Rightarrow> string \<Rightarrow> bool
     \<Rightarrow> CloseResult thrown \<times> Instruction list" where
  "closeAccountAndReclaimRent conn sendAndConfirmTransaction account destination authority dry =
     (case getAccountInfo conn account of
        Inl e \<Rightarrow> (Inl e, [])
      | Inr accountInfo \<Rightarrow>
          if \<not> exists accountInfo then
            (Inr \<lparr>cr_signature = [], cr_success = False, cr_lamportsReclaimed = 0,
                  cr_error = Some ''Account does not exist or already closed''\<rparr>, [])
          else
            let lamportsToReclaim = lamports accountInfo in
            if dry then
              (Inr \<lparr>cr_signature = ''dry-run-signature'', cr_success = True,
                    cr_lamportsReclaimed = lamportsToReclaim, cr_error = None\<rparr>, [])
            else if owner accountInfo = SYSTEM_PROGRAM_ID then
              (let ix = SystemTransfer account destination lamportsToReclaim in
               case sendAndConfirmTransaction ix authority of
                 Inr signature \<Rightarrow>
                   (Inr \<lparr>cr_signature = signature, cr_success = True,
                         cr_lamportsReclaimed = lamportsToReclaim, cr_error = None\<rparr>, [ix])
               | Inl errorMsg \<Rightarrow>
                   (Inr \<lparr>cr_signature = [], cr_success = False, cr_lamportsReclaimed = 0,
                         cr_error = Some errorMsg\<rparr>, [ix]))
            else
              (Inr \<lparr>cr_signature = [], cr_success = False, cr_lamportsReclaimed = 0,
                    cr_error = Some (''Cannot close program-owned account (owner: '' @ owner accountInfo
                                     @ ''). Manual intervention required.'')\<rparr>, []))"

section \<open>Eligibility Policy and Reclaim Executor (core/reclaim.ts)\<close>

record EligibilityCheck =
  eligible :: bool
  account :: "TrackedAccount option"
  reasons :: "string list"
  warnings :: "string list"

text \<open>
  \<open>account\<close> is \<open>None\<close> for the empty object the source returns with an untracked
  address. The last two checks of \<open>checkEligibility\<close> (dormancy, threshold) are:
\<close>

definition checkDormancyAndThreshold ::
  "BotConfig \<Rightarrow> int \<Rightarrow> TrackedAccount \<Rightarrow> string list \<Rightarrow> EligibilityCheck" where
  "checkDormancyAndThreshold config now acc ws =
     (let daysSinceClosed = (case closedAt acc of None \<Rightarrow> 0 | Some c \<Rightarrow> (now - c) div msPerDay) in
      if closedAt acc \<noteq> None \<and> daysSinceClosed < minDormancyDays config then
        \<lparr>eligible = False, account = Some acc,
         reasons = [''Account was closed '' @ showNumber daysSinceClosed @ '' days ago. ''
                    @ ''Minimum dormancy period is '' @ showNumber (minDormancyDays config) @ '' days.''],
         warnings = ws\<rparr>
      else if rentLamports acc < minReclaimLamports config then
        \<lparr>eligible = False, account = Some acc,
         reasons = [''Account has '' @ showNumber (rentLamports acc) @ '' lamports. ''
                    @ ''Minimum threshold is '' @ showNumber (minReclaimLamports config) @ '' lamports.''],
         warnings = ws\<rparr>
      else
        \<lparr>eligible = True, account = Some acc,
         reasons = [''Account is eligible for rent reclaim''], warnings = ws\<rparr>)"

definition ineligible :: "TrackedAccount option \<Rightarrow> string \<Rightarrow> string list \<Rightarrow> EligibilityCheck" where
  "ineligible acc why ws = \<lparr>eligible = False, account = acc, reasons = [why], warnings = ws\<rparr>"

text \<open>
  \<open>checkEligibility\<close>. The ledger read is made only after the four store checks, outside
  any \<open>try\<close>. When the account is gone and the stored status is not closed, the store is
  updated and the status of the local copy is set; the local copy keeps its \<open>closedAt\<close>.
\<close>

definition checkEligibility ::
  "BotConfig \<Rightarrow> int \<Rightarrow> ledger_read \<Rightarrow> Database \<Rightarrow> string \<Rightarrow> EligibilityCheck thrown \<times> Database" where
  "checkEligibility config now conn db pk =
     (case getAccount db pk of
        None \<Rightarrow> (Inr (ineligible None ''Account is not tracked in the database'' []), db)
      | Some acc \<Rightarrow>
          if status acc = RECLAIMED then
            (Inr (ineligible (Some acc) ''Account has already been reclaimed'' []), db)
          else if isWhitelisted db pk then
            (Inr (ineligible (Some acc) ''Account is whitelisted (protected from reclaim)'' []), db)
          else if isBlacklisted db pk then
            (Inr (ineligible (Some acc) ''Account is blacklisted'' []), db)
          else
            (case getAccountInfo conn pk of
               Inl e \<Rightarrow> (Inl e, db)
             | Inr onChainInfo \<Rightarrow>
                 if exists onChainInfo then
                   (if lamports onChainInfo > 0 then
                      (let ws = [''Account still has '' @ showNumber (lamports onChainInfo)
                                 @ '' lamports on-chain''] in
                       if lamports onChainInfo \<ge> minReclaimLamports config then
                         (Inr (ineligible (Some acc) ''Account still has balance and is not closed'' ws), db)
                       else (Inr (checkDormancyAndThreshold config now acc ws), db))
                    else (Inr (checkDormancyAndThreshold config now acc []), db))
                 else
                   (let fix = (status acc \<noteq> CLOSED);
                        db' = (if fix then updateAccountStatus db pk CLOSED (Some now) now else db);
                        acc' = (if fix then acc\<lparr>status := CLOSED\<rparr> else acc);
                        ws = (if fix then [''Account status updated to CLOSED''] else [])
                    in if rentLamports acc' = 0 then
                         (Inr (ineligible (Some acc') ''Account has no remaining rent to reclaim'' ws), db')
                       else (Inr (checkDormancyAndThreshold config now acc' ws), db'))))"

record ReclaimResult =
  rr_success :: bool
  rr_accountPubkey :: string
  rr_txSignature :: "string option"
  rr_lamportsReclaimed :: "int option"
  rr_error :: "string option"
  rr_dryRun :: bool

definition failed :: "string \<Rightarrow> string option \<Rightarrow> bool \<Rightarrow> ReclaimResult" where
  "failed pk err dry =
     \<lparr>rr_success = False, rr_accountPubkey = pk, rr_txSignature = None,
      rr_lamportsReclaimed = None, rr_error = err, rr_dryRun = dry\<rparr>"

text \<open>
  The signing credential: \<open>keypair\<close> is the public key of the keypair stored at
  \<open>operatorKeypairPath\<close>, \<open>None\<close> when the file is missing.
\<close>

definition loadOperatorKeypair :: "BotConfig \<Rightarrow> string option \<Rightarrow> string thrown" where
  "loadOperatorKeypair config keypair =
     (case keypair of
        None \<Rightarrow> Inl (''Keypair file not found: '' @ operatorKeypairPath config)
      | Some k \<Rightarrow> Inr k)"

definition getTreasuryPubkey :: "BotConfig \<Rightarrow> string option \<Rightarrow> string thrown" where
  "getTreasuryPubkey config keypair =
     (case or_null_string (treasuryPubkeyCfg config) of
        Some t \<Rightarrow> Inr t
      | None \<Rightarrow> loadOperatorKeypair config keypair)"

text \<open>
  \<open>reclaimSingleAccount\<close>. The three ledger reads (in \<open>checkEligibility\<close>, before acting,
  and in \<open>closeAccountAndReclaimRent\<close>) are three answers of the ledger, which may differ.
  \<open>checkEligibility\<close> and \<open>getTreasuryPubkey\<close> are called outside the \<open>try\<close>: what they
  throw leaves the function; everything later is caught and returned as a failure.
  The result is what the function returns or throws, the store, and the instructions
  submitted.
\<close>

definition reclaimSingleAccount ::
  "BotConfig \<Rightarrow> string option \<Rightarrow> int \<Rightarrow> ledger_read \<Rightarrow> ledger_read \<Rightarrow> ledger_read \<Rightarrow> submitter
     \<Rightarrow> Database \<Rightarrow> string \<Rightarrow> bool option
     \<Rightarrow> ReclaimResult thrown \<times> Database \<times> Instruction list" where
  "reclaimSingleAccount config keypair now conn1 conn2 conn3 send db pk forceDryRun =
     (let dry = (case forceDryRun of Some d \<Rightarrow> d | None \<Rightarrow> dryRun config) in
      case checkEligibility config now conn1 db pk of
        (Inl e, db1) \<Rightarrow> (Inl e, db1, [])
      | (Inr eligibility, db1) \<Rightarrow>
          if \<not> eligible eligibility then
            (Inr (failed pk (Some (join ''; '' (reasons eligibility))) dry), db1, [])
          else
            (case getTreasuryPubkey config keypair of
               Inl e \<Rightarrow> (Inl e, db1, [])
             | Inr treasury \<Rightarrow>
                 (case getAccountInfo conn2 pk of
                    Inl e \<Rightarrow> (Inr (failed pk (Some e) dry), db1, [])
                  | Inr onChainInfo \<Rightarrow>
                      let lamportsToReclaim =
                            (if exists onChainInfo then Some (lamports onChainInfo)
                             else map_option rentLamports (account eligibility)) in
                      if lamportsToReclaim = Some 0 then
                        (Inr (failed pk (Some ''No lamports to reclaim'') dry), db1, [])
                      else
                        (case loadOperatorKeypair config keypair of
                           Inl e \<Rightarrow> (Inr (failed pk (Some e) dry), db1, [])
                         | Inr operatorKeypair \<Rightarrow>
                             (case closeAccountAndReclaimRent conn3 send pk treasury operatorKeypair dry of
                                (Inl e, sent) \<Rightarrow> (Inr (failed pk (Some e) dry), db1, sent)
                              | (Inr reclaimResult, sent) \<Rightarrow>
                                  if cr_success reclaimResult then
                                    (let db2 = recordReclaimTransaction db1
                                           \<lparr>accountPubkey = pk,
                                            txSignature = cr_signature reclaimResult,
                                            lamportsReclaimed = cr_lamportsReclaimed reclaimResult,
                                            reclaimedAt = now, success = True, errorMessage = None,
                                            treasuryPubkey = treasury\<rparr>;
                                         db3 = (if \<not> dry
                                                then updateAccountRent
                                                       (updateAccountStatus db2 pk RECLAIMED None now) pk 0 now
                                                else db2)
                                     in (Inr \<lparr>rr_success = True, rr_accountPubkey = pk,
                                              rr_txSignature = Some (cr_signature reclaimResult),
                                              rr_lamportsReclaimed = Some (cr_lamportsReclaimed reclaimResult),
                                              rr_error = None, rr_dryRun = dry\<rparr>, db3, sent))
                                  else
                                    (let db2 = recordReclaimTransaction db1
                                           \<lparr>accountPubkey = pk,
                                            txSignature = (if cr_signature reclaimResult = [] then ''failed''
                                                           else cr_signature reclaimResult),
                                            lamportsReclaimed = 0,
                                            reclaimedAt = now, success = False,
                                            errorMessage = cr_error reclaimResult,
                                            treasuryPubkey = treasury\<rparr>
                                     in (Inr (failed pk (cr_error reclaimResult) dry), db2, sent)))))))"

text \<open>
  Two notions read off \<open>reclaimSingleAccount\<close>, for the statements about it. The amount
  it sets out to reclaim is the balance of the read before acting when that read finds the
  account, and the stored balance of the row otherwise. The call reaches the submission
  layer, \<open>closeAccountAndReclaimRent\<close>, when the eligibility check returns "eligible", the
  destination resolves, the read before acting is answered, the amount is not zero and the
  signing credential loads.
\<close>

definition amountToReclaim :: "SolanaAccountInfo \<Rightarrow> EligibilityCheck \<Rightarrow> int option" where
  "amountToReclaim onChainInfo eligibility =
     (if exists onChainInfo then Some (lamports onChainInfo)
      else map_option rentLamports (account eligibility))"

definition reachesSubmission ::
  "BotConfig \<Rightarrow> string option \<Rightarrow> int \<Rightarrow> ledger_read \<Rightarrow> ledger_read \<Rightarrow> Database \<Rightarrow> string \<Rightarrow> bool" where
  "reachesSubmission config keypair now conn1 conn2 db pk =
     (case fst (checkEligibility config now conn1 db pk) of
        Inl e \<Rightarrow> False
      | Inr eligibility \<Rightarrow>
          eligible eligibility
          \<and> \<not> isl (getTreasuryPubkey config keypair)
          \<and> (case getAccountInfo conn2 pk of
                Inl e \<Rightarrow> False
              | Inr onChainInfo \<Rightarrow> amountToReclaim onChainInfo eligibility \<noteq> Some 0)
          \<and> \<not> isl (loadOperatorKeypair config keypair))"

section \<open>Reconciliation Engine (core/monitor.ts)\<close>

record AccountFilter =
  f_status :: "AccountStatus list"
  f_accountType :: "AccountType list"
  f_minRentLamports :: "int option"
  f_maxRentLamports :: "int option"
  f_closedBefore :: "int option"
  f_closedAfter :: "int option"

text \<open>
  \<open>getAccounts\<close>: the conjunction of the conditions the filter sets, newest
  \<open>created_at\<close> first. An empty list sets no condition; a NULL \<open>closed_at\<close> fails both
  date comparisons. \<open>limit\<close> and \<open>offset\<close> are not modelled: no caller in core/ sets them.
\<close>

definition matchesFilter :: "AccountFilter \<Rightarrow> TrackedAccount \<Rightarrow> bool" where
  "matchesFilter f a =
     ((f_status f = [] \<or> status a \<in> set (f_status f))
      \<and> (f_accountType f = [] \<or> accountType a \<in> set (f_accountType f))
      \<and> (case f_minRentLamports f of None \<Rightarrow> True | Some m \<Rightarrow> rentLamports a \<ge> m)
      \<and> (case f_maxRentLamports f of None \<Rightarrow> True | Some m \<Rightarrow> rentLamports a \<le> m)
      \<and> (case f_closedBefore f of None \<Rightarrow> True
          | Some d \<Rightarrow> (case closedAt a of None \<Rightarrow> False | Some c \<Rightarrow> c \<le> d))
      \<and> (case f_closedAfter f of None \<Rightarrow> True
          | Some d \<Rightarrow> (case closedAt a of None \<Rightarrow> False | Some c \<Rightarrow> c \<ge> d)))"

definition getAccounts :: "Database \<Rightarrow> AccountFilter \<Rightarrow> TrackedAccount list" where
  "getAccounts db f = sort_key (\<lambda>a. - createdAt a) (filter (matchesFilter f) (tracked_accounts db))"

definition noFilter :: AccountFilter where
  "noFilter = \<lparr>f_status = [], f_accountType = [], f_minRentLamports = None,
               f_maxRentLamports = None, f_closedBefore = None, f_closedAfter = None\<rparr>"

text \<open>
  \<open>getMultipleAccountsInfo\<close> reads in batches of 100. The node's answer to one batch is
  a thrown error or one entry per requested key; the model takes the entries as a lookup by
  key. The result is the \<open>Map\<close> from key to account info.
\<close>

type_synonym batch_read = "string list \<Rightarrow> (string \<Rightarrow> RawAccount option) thrown"

function batches :: "nat \<Rightarrow> 'a list \<Rightarrow> 'a list list" where
  "batches n xs = (if n = 0 \<or> xs = [] then [] else take n xs # batches n (drop n xs))"
  by pat_completeness auto
termination
  by (relation "measure (\<lambda>(n, xs). length xs)") auto

fun readBatches ::
  "batch_read \<Rightarrow> string list list \<Rightarrow> (string \<rightharpoonup> SolanaAccountInfo)
     \<Rightarrow> (string \<rightharpoonup> SolanaAccountInfo) thrown" where
  "readBatches conn [] results = Inr results"
| "readBatches conn (b # bs) results =
     (case conn b of
        Inl e \<Rightarrow> Inl e
      | Inr infos \<Rightarrow>
          readBatches conn bs (foldl (\<lambda>m pk. m(pk \<mapsto> toAccountInfo pk (infos pk))) results b))"

definition getMultipleAccountsInfo ::
  "batch_read \<Rightarrow> string list \<Rightarrow> (string \<rightharpoonup> SolanaAccountInfo) thrown" where
  "getMultipleAccountsInfo conn pubkeys = readBatches conn (batches 100 pubkeys) Map.empty"

record StatusChange =
  sc_pubkey :: string
  previousStatus :: AccountStatus
  newStatus :: AccountStatus
  previousRent :: int
  newRent :: int
  sc_reason :: string

text \<open>
  \<open>detectStatusChange\<close>. The third test of the source, \<open>lamports < rentLamports * 0.1\<close>,
  is a comparison of IEEE doubles; it is a parameter \<open>belowTenth lamports rentLamports\<close>
  of the model, and nothing is assumed about it.
\<close>

definition detectStatusChange ::
  "(int \<Rightarrow> int \<Rightarrow> bool) \<Rightarrow> TrackedAccount \<Rightarrow> SolanaAccountInfo \<Rightarrow> StatusChange option" where
  "detectStatusChange belowTenth tracked onChain =
     (if status tracked = RECLAIMED \<or> status tracked = WHITELISTED then None
      else if \<not> exists onChain \<and> status tracked \<noteq> CLOSED then
        Some \<lparr>sc_pubkey = pubkey tracked, previousStatus = status tracked, newStatus = CLOSED,
              previousRent = rentLamports tracked, newRent = 0,
              sc_reason = ''Account no longer exists on-chain''\<rparr>
      else if exists onChain \<and> status tracked = CLOSED then
        Some \<lparr>sc_pubkey = pubkey tracked, previousStatus = status tracked, newStatus = ACTIVE,
              previousRent = rentLamports tracked, newRent = lamports onChain,
              sc_reason = ''Account was reopened or recreated''\<rparr>
      else if exists onChain \<and> status tracked = ACTIVE
              \<and> belowTenth (lamports onChain) (rentLamports tracked) then
        Some \<lparr>sc_pubkey = pubkey tracked, previousStatus = status tracked, newStatus = INACTIVE,
              previousRent = rentLamports tracked, newRent = lamports onChain,
              sc_reason = ''Account balance significantly reduced''\<rparr>
      else None)"

text \<open>The store updates both monitor entry points make for a detected change.\<close>

definition applyStatusChange :: "Database \<Rightarrow> string \<Rightarrow> StatusChange \<Rightarrow> int \<Rightarrow> Database" where
  "applyStatusChange db pk sc now =
     (let db1 = updateAccountStatus db pk (newStatus sc)
                  (if newStatus sc = CLOSED then Some now else None) now
      in if newRent sc \<noteq> previousRent sc then updateAccountRent db1 pk (newRent sc) now else db1)"

record MonitorResult =
  totalChecked :: nat
  statusChanges :: "StatusChange list"
  monitorErrors :: "string list"

definition emptyMonitorResult :: MonitorResult where
  "emptyMonitorResult = \<lparr>totalChecked = 0, statusChanges = [], monitorErrors = []\<rparr>"

text \<open>
  One iteration of the loop of \<open>checkAllAccounts\<close>, over an account of the list read at the
  start of the run. The wall-clock \<open>duration\<close> of the result is left out.
\<close>

definition checkOne ::
  "(int \<Rightarrow> int \<Rightarrow> bool) \<Rightarrow> int \<Rightarrow> (string \<rightharpoonup> SolanaAccountInfo) \<Rightarrow> TrackedAccount
     \<Rightarrow> MonitorResult \<times> Database \<Rightarrow> MonitorResult \<times> Database" where
  "checkOne belowTenth now accountInfos acc st =
     (case st of (res, db) \<Rightarrow>
        let res1 = res\<lparr>totalChecked := totalChecked res + 1\<rparr> in
        case accountInfos (pubkey acc) of
          None \<Rightarrow>
            (res1\<lparr>monitorErrors := monitorErrors res1 @ [''No info returned for '' @ pubkey acc]\<rparr>, db)
        | Some onChainInfo \<Rightarrow>
            (case detectStatusChange belowTenth acc onChainInfo of
               Some statusChange \<Rightarrow>
                 (res1\<lparr>statusChanges := statusChanges res1 @ [statusChange]\<rparr>,
                  applyStatusChange db (pubkey acc) statusChange now)
             | None \<Rightarrow>
                 (res1, if lamports onChainInfo \<noteq> rentLamports acc
                        then updateAccountRent db (pubkey acc) (lamports onChainInfo) now
                        else db)))"

definition checkAllAccounts ::
  "(int \<Rightarrow> int \<Rightarrow> bool) \<Rightarrow> int \<Rightarrow> batch_read \<Rightarrow> Database \<Rightarrow> MonitorResult \<times> Database" where
  "checkAllAccounts belowTenth now conn db =
     (let accountsToCheck = getAccounts db (noFilter\<lparr>f_status := [ACTIVE, INACTIVE]\<rparr>) in
      if accountsToCheck = [] then (emptyMonitorResult, db)
      else
        (case getMultipleAccountsInfo conn (map pubkey accountsToCheck) of
           Inl e \<Rightarrow> (emptyMonitorResult\<lparr>monitorErrors := [''Monitor check failed: '' @ thrownText e]\<rparr>, db)
         | Inr accountInfos \<Rightarrow>
             foldl (\<lambda>st acc. checkOne belowTenth now accountInfos acc st)
                   (emptyMonitorResult, db) accountsToCheck))"

text \<open>The keys a run reads, in the order of the run, and the requests it makes for them.\<close>

definition monitoredKeys :: "Database \<Rightarrow> string list" where
  "monitoredKeys db = map pubkey (getAccounts db (noFilter\<lparr>f_status := [ACTIVE, INACTIVE]\<rparr>))"

definition monitorRequests :: "Database \<Rightarrow> string list list" where
  "monitorRequests db = batches 100 (monitoredKeys db)"

definition checkSingleAccount ::
  "(int \<Rightarrow> int \<Rightarrow> bool) \<Rightarrow> int \<Rightarrow> ledger_read \<Rightarrow> Database \<Rightarrow> string
     \<Rightarrow> StatusChange option \<times> Database" where
  "checkSingleAccount belowTenth now conn db pk =
     (case getAccount db pk of
        None \<Rightarrow> (None, db)
      | Some acc \<Rightarrow>
          (case getAccountInfo conn pk of
             Inl e \<Rightarrow> (None, db)
           | Inr onChainInfo \<Rightarrow>
               (case detectStatusChange belowTenth acc onChainInfo of
                  None \<Rightarrow> (None, db)
                | Some statusChange \<Rightarrow> (Some statusChange, applyStatusChange db pk statusChange now))))"

definition getAccountsReadyForReclaim :: "BotConfig \<Rightarrow> int \<Rightarrow> Database \<Rightarrow> TrackedAccount list" where
  "getAccountsReadyForReclaim config now db =
     getAccounts db (noFilter\<lparr>f_status := [CLOSED],
                              f_minRentLamports := Some (minReclaimLamports config),
                              f_closedBefore := Some (now - minDormancyDays config * msPerDay)\<rparr>)"

section \<open>Discovery Engine (core/discovery.ts)\<close>

record SigInfo =
  sig_signature :: string
  sig_slot :: int
  sig_blockTime :: "int option"

text \<open>
  A parsed transaction, as far as \<open>findCreatedAccounts\<close> reads it. An instruction is
  either parsed (program name, \<open>parsed.type\<close>, \<open>parsed.info.newAccount\<close>,
  \<open>parsed.info.account\<close>) or partially decoded. A token balance is read by its
  \<open>accountIndex\<close> only.
\<close>

datatype ParsedInstruction =
    ParsedIx (program: string) (ixType: "string option")
             (infoNewAccount: "string option") (infoAccount: "string option")
  | PartiallyDecoded

record TxMeta =
  meta_err :: bool
  innerInstructions :: "ParsedInstruction list list option"
  postTokenBalances :: "nat list option"
  preTokenBalances :: "nat list option"

record ParsedTx =
  accountKeys :: "string list"
  instructions :: "ParsedInstruction list"
  meta :: "TxMeta option"

text \<open>\<open>v && v !== sponsorPubkey\<close> on an optional string.\<close>

definition candidate :: "string \<Rightarrow> string option \<Rightarrow> string list" where
  "candidate sponsorPubkey v =
     (case v of None \<Rightarrow> [] | Some a \<Rightarrow> if a \<noteq> [] \<and> a \<noteq> sponsorPubkey then [a] else [])"

fun innerCreated :: "string \<Rightarrow> ParsedInstruction \<Rightarrow> string list" where
  "innerCreated sponsorPubkey PartiallyDecoded = []"
| "innerCreated sponsorPubkey (ParsedIx prog ty newAccount acc) =
     (if prog = ''system'' \<and> ty = Some ''createAccount'' then candidate sponsorPubkey newAccount else [])
     @ (if prog = ''spl-token''
           \<and> (ty = Some ''initializeAccount'' \<or> ty = Some ''initializeAccount2''
               \<or> ty = Some ''initializeAccount3'')
        then candidate sponsorPubkey acc else [])
     @ (if prog = ''spl-associated-token-account'' \<and> ty = Some ''create''
        then candidate sponsorPubkey acc else [])"

fun topLevelCreated :: "string \<Rightarrow> ParsedInstruction \<Rightarrow> string list" where
  "topLevelCreated sponsorPubkey PartiallyDecoded = []"
| "topLevelCreated sponsorPubkey (ParsedIx prog ty newAccount acc) =
     (if prog = ''system'' \<and> ty = Some ''createAccount'' then candidate sponsorPubkey newAccount else [])"

text \<open>The fallback over the post-state token balances; \<open>created\<close> grows as the loop runs.\<close>

fun fromTokenBalances :: "string \<Rightarrow> string list \<Rightarrow> nat list option \<Rightarrow> nat list \<Rightarrow> string list \<Rightarrow> string list" where
  "fromTokenBalances sponsorPubkey keys pre [] created = created"
| "fromTokenBalances sponsorPubkey keys pre (i # post) created =
     fromTokenBalances sponsorPubkey keys pre post
       (if i < length keys
           \<and> keys ! i \<noteq> sponsorPubkey \<and> keys ! i \<notin> set created
           \<and> (case pre of None \<Rightarrow> True | Some bs \<Rightarrow> i \<notin> set bs)
        then created @ [keys ! i] else created)"

text \<open>\<open>[...new Set(xs)]\<close>: the first occurrence of each element, in order.\<close>

fun dedup :: "'a list \<Rightarrow> 'a list \<Rightarrow> 'a list" where
  "dedup seen [] = []"
| "dedup seen (x # xs) = (if x \<in> set seen then dedup seen xs else x # dedup (x # seen) xs)"

text \<open>
  \<open>findCreatedAccounts\<close>. Reading the fee payer of a transaction without account keys
  throws (a property of \<open>undefined\<close> is read).
\<close>

definition findCreatedAccounts :: "ParsedTx \<Rightarrow> string \<Rightarrow> string list thrown" where
  "findCreatedAccounts tx sponsorPubkey =
     (case accountKeys tx of
        [] \<Rightarrow> Inl ''TypeError: Cannot read properties of undefined (reading 'pubkey')''
      | feePayer # _ \<Rightarrow>
          if feePayer \<noteq> sponsorPubkey then Inr []
          else
            let inner = (case meta tx of
                           None \<Rightarrow> []
                         | Some m \<Rightarrow> (case innerInstructions m of
                                        None \<Rightarrow> []
                                      | Some iss \<Rightarrow> concat (map (innerCreated sponsorPubkey) (concat iss))));
                top = concat (map (topLevelCreated sponsorPubkey) (instructions tx));
                created = (case meta tx of
                             None \<Rightarrow> inner @ top
                           | Some m \<Rightarrow> (case postTokenBalances m of
                                          None \<Rightarrow> inner @ top
                                        | Some post \<Rightarrow>
                                            fromTokenBalances sponsorPubkey (accountKeys tx)
                                              (preTokenBalances m) post (inner @ top)))
            in Inr (dedup [] created))"

record DiscoveryResult =
  totalFound :: nat
  newAccounts :: nat
  existingAccounts :: nat
  accounts :: "TrackedAccount list"
  errors :: "string list"

definition emptyDiscoveryResult :: DiscoveryResult where
  "emptyDiscoveryResult = \<lparr>totalFound = 0, newAccounts = 0, existingAccounts = 0, accounts = [], errors = []\<rparr>"

text \<open>The record \<open>discoverSponsoredAccounts\<close> and \<open>addAccountManually\<close> build from a fresh read.\<close>

definition newTrackedAccount ::
  "string \<Rightarrow> int \<Rightarrow> string option \<Rightarrow> SolanaAccountInfo \<Rightarrow> int \<Rightarrow> string option \<Rightarrow> TrackedAccount" where
  "newTrackedAccount pk created sponsorTx accountInfo now note =
     \<lparr>pubkey = pk, createdAt = created, sponsoredTxSignature = sponsorTx,
      accountType = (if exists accountInfo then detectAccountType (owner accountInfo) else UNKNOWN),
      rentLamports = lamports accountInfo,
      status = (if exists accountInfo then ACTIVE else CLOSED),
      lastCheckedAt = now,
      closedAt = (if exists accountInfo then None else Some now),
      programOwner = (if exists accountInfo then Some (owner accountInfo) else None),
      dataSize = Some (info_dataSize accountInfo),
      accountNotes = note\<rparr>"

text \<open>
  The state of a discovery run: the result so far, the store, and the set
  \<open>discoveredPubkeys\<close>. \<open>reads\<close> gives the ledger's answer to the read of an address.
  A row that \<open>upsertAccount\<close> returns is pushed on \<open>accounts\<close>.
\<close>

type_synonym discovery_state = "DiscoveryResult \<times> Database \<times> string set"

definition processAccount ::
  "(string \<Rightarrow> ledger_read) \<Rightarrow> int \<Rightarrow> SigInfo \<Rightarrow> string \<Rightarrow> DiscoveryResult \<times> Database
     \<Rightarrow> DiscoveryResult \<times> Database" where
  "processAccount reads now sigInfo candidatePubkey st =
     (case st of (res, db) \<Rightarrow>
        case getAccount db candidatePubkey of
          Some existing \<Rightarrow>
            (res\<lparr>existingAccounts := existingAccounts res + 1, accounts := accounts res @ [existing]\<rparr>, db)
        | None \<Rightarrow>
            (case getAccountInfo (reads candidatePubkey) candidatePubkey of
               Inl e \<Rightarrow>
                 (res\<lparr>errors := errors res @ [''Error processing account '' @ candidatePubkey @ '': '' @ thrownText e]\<rparr>, db)
             | Inr accountInfo \<Rightarrow>
                 let created = (case sig_blockTime sigInfo of
                                  None \<Rightarrow> now
                                | Some t \<Rightarrow> if t = 0 then now else t * 1000);
                     trackedAccount = newTrackedAccount candidatePubkey created
                                        (Some (sig_signature sigInfo)) accountInfo now None
                 in case upsertAccount db trackedAccount of
                      (saved, db') \<Rightarrow>
                        (res\<lparr>newAccounts := newAccounts res + 1,
                             accounts := accounts res @ (case saved of None \<Rightarrow> [] | Some a \<Rightarrow> [a])\<rparr>, db')))"

fun processCreated ::
  "(string \<Rightarrow> ledger_read) \<Rightarrow> int \<Rightarrow> SigInfo \<Rightarrow> string list \<Rightarrow> discovery_state \<Rightarrow> discovery_state" where
  "processCreated reads now sigInfo [] st = st"
| "processCreated reads now sigInfo (candidatePubkey # rest) (res, db, discoveredPubkeys) =
     (if candidatePubkey \<in> discoveredPubkeys
      then processCreated reads now sigInfo rest (res, db, discoveredPubkeys)
      else (case processAccount reads now sigInfo candidatePubkey (res, db) of
              (res', db') \<Rightarrow>
                processCreated reads now sigInfo rest (res', db', insert candidatePubkey discoveredPubkeys)))"

text \<open>
  One iteration of the loop over the signatures. \<open>txs\<close> is the ledger's answer to
  \<open>getParsedTransaction\<close>: a thrown error, no transaction, or the transaction.
\<close>

definition processSignature ::
  "string \<Rightarrow> (string \<Rightarrow> ParsedTx option thrown) \<Rightarrow> (string \<Rightarrow> ledger_read) \<Rightarrow> int \<Rightarrow> SigInfo
     \<Rightarrow> discovery_state \<Rightarrow> discovery_state" where
  "processSignature sponsorPubkey txs reads now sigInfo st =
     (case st of (res, db, discoveredPubkeys) \<Rightarrow>
        let fetchFailed =
              (res\<lparr>errors := errors res
                      @ [''Transaction fetch failed: '' @ take 20 (sig_signature sigInfo) @ ''...'']\<rparr>,
               db, discoveredPubkeys)
        in case txs (sig_signature sigInfo) of
             Inl e \<Rightarrow> fetchFailed
           | Inr None \<Rightarrow> st
           | Inr (Some tx) \<Rightarrow>
               if (case meta tx of None \<Rightarrow> False | Some m \<Rightarrow> meta_err m) then st
               else (case findCreatedAccounts tx sponsorPubkey of
                       Inl e \<Rightarrow> fetchFailed
                     | Inr createdAccounts \<Rightarrow> processCreated reads now sigInfo createdAccounts st))"

definition notConfigured :: "string list" where
  "notConfigured =
     [''Kora signer public key not configured.'',
      ''Option 1: Set KORA_SIGNER_PUBKEY in .env (your signer address from signers.toml)'',
      ''Option 2: Set KORA_RPC_URL in .env and run: npm run cli -- kora-info'',
      ''Option 3: Pass it directly: npm run cli -- discover --signer <PUBKEY>'']"

text \<open>
  \<open>discoverSponsoredAccounts\<close>. \<open>history\<close> is the answer to
  \<open>getSponsoredAccountSignatures(sponsor, limit)\<close>: the signatures, newest first, or a
  thrown error, which the outer \<open>catch\<close> records. The delays between calls are not
  modelled.
\<close>

definition discoverSponsoredAccounts ::
  "BotConfig \<Rightarrow> string option \<Rightarrow> int \<Rightarrow> SigInfo list thrown \<Rightarrow> (string \<Rightarrow> ParsedTx option thrown)
     \<Rightarrow> (string \<Rightarrow> ledger_read) \<Rightarrow> Database \<Rightarrow> DiscoveryResult \<times> Database" where
  "discoverSponsoredAccounts config koraSigner now history txs reads db =
     (case (case or_null_string koraSigner of
              Some k \<Rightarrow> Some k
            | None \<Rightarrow> or_null_string (koraSignerPubkey config)) of
        None \<Rightarrow> (emptyDiscoveryResult\<lparr>errors := notConfigured\<rparr>, db)
      | Some sponsorPubkey \<Rightarrow>
          (case history of
             Inl e \<Rightarrow> (emptyDiscoveryResult\<lparr>errors := [''Discovery failed: '' @ thrownText e]\<rparr>, db)
           | Inr signatures \<Rightarrow>
               (case foldl (\<lambda>st sigInfo. processSignature sponsorPubkey txs reads now sigInfo st)
                          (emptyDiscoveryResult, db, {}) signatures of
                  (res, db', discoveredPubkeys) \<Rightarrow>
                    (res\<lparr>totalFound := newAccounts res + existingAccounts res\<rparr>, db'))))"

definition addAccountManually ::
  "int \<Rightarrow> ledger_read \<Rightarrow> Database \<Rightarrow> string \<Rightarrow> string option \<Rightarrow> TrackedAccount option \<times> Database" where
  "addAccountManually now conn db pk sponsoredTx =
     (case getAccount db pk of
        Some existing \<Rightarrow> (Some existing, db)
      | None \<Rightarrow>
          (case getAccountInfo conn pk of
             Inl e \<Rightarrow> (None, db)
           | Inr accountInfo \<Rightarrow>
               upsertAccount db
                 (newTrackedAccount pk now
                    (case or_null_string sponsoredTx of None \<Rightarrow> Some ''manual-add'' | Some s \<Rightarrow> Some s)
                    accountInfo now (Some ''Manually added''))))"

section \<open>Operations on the State Store\<close>

text \<open>
  The entry points that write the store, each with the answers the outside world gives
  during the call. \<open>reclaimAllEligible\<close>, \<open>reclaimMultiple\<close> and \<open>addAccountsBulk\<close> are loops
  of \<open>reclaimSingleAccount\<close> and \<open>addAccountManually\<close>: sequences of the operations below.
  The writing primitives of the store (\<open>upsertAccount\<close>, \<open>updateAccountStatus\<close>,
  \<open>updateAccountRent\<close>, \<open>recordReclaimTransaction\<close>) are called in the repository only from
  inside these entry points; the command line, the service and the dashboard write nothing
  else.
\<close>

datatype operation =
    Discover "string option" int "SigInfo list thrown" "string \<Rightarrow> ParsedTx option thrown"
             "string \<Rightarrow> ledger_read"
  | AddManually string "string option" int ledger_read
  | CheckAll int batch_read
  | CheckSingle string int ledger_read
  | Eligibility string int ledger_read
  | Reclaim string "bool option" "string option" int ledger_read ledger_read ledger_read submitter
  | WhitelistAdd string "string option" int
  | WhitelistRemove string
  | BlacklistAdd string "string option" int

fun exec :: "BotConfig \<Rightarrow> (int \<Rightarrow> int \<Rightarrow> bool) \<Rightarrow> operation \<Rightarrow> Database \<Rightarrow> Database" where
  "exec config lt (Discover signer now history txs reads) db =
     snd (discoverSponsoredAccounts config signer now history txs reads db)"
| "exec config lt (AddManually pk sponsoredTx now conn) db =
     snd (addAccountManually now conn db pk sponsoredTx)"
| "exec config lt (CheckAll now conn) db = snd (checkAllAccounts lt now conn db)"
| "exec config lt (CheckSingle pk now conn) db = snd (checkSingleAccount lt now conn db pk)"
| "exec config lt (Eligibility pk now conn) db = snd (checkEligibility config now conn db pk)"
| "exec config lt (Reclaim pk forceDryRun keypair now conn1 conn2 conn3 send) db =
     fst (snd (reclaimSingleAccount config keypair now conn1 conn2 conn3 send db pk forceDryRun))"
| "exec config lt (WhitelistAdd pk why now) db = addToWhitelist db pk why now"
| "exec config lt (WhitelistRemove pk) db = removeFromWhitelist db pk"
| "exec config lt (BlacklistAdd pk why now) db = addToBlacklist db pk why now"

definition run :: "BotConfig \<Rightarrow> (int \<Rightarrow> int \<Rightarrow> bool) \<Rightarrow> operation list \<Rightarrow> Database \<Rightarrow> Database" where
  "run config lt ops db = foldl (\<lambda>d op. exec config lt op d) db ops"

text \<open>The stored status of an address, and the two invariants of the accounts table.\<close>

definition statusOf :: "Database \<Rightarrow> string \<Rightarrow> AccountStatus option" where
  "statusOf db pk = map_option status (getAccount db pk)"

definition uniqueAddresses :: "Database \<Rightarrow> bool" where
  "uniqueAddresses db = distinct (map pubkey (tracked_accounts db))"

definition reclaimedOk :: "Database \<Rightarrow> bool" where
  "reclaimedOk db =
     list_all (\<lambda>a. status a = RECLAIMED \<longrightarrow>
                     rentLamports a = 0
                     \<and> list_ex (\<lambda>t. accountPubkey t = pubkey a \<and> success t) (reclaim_transactions db))
              (tracked_accounts db)"

text \<open>No row of the address is marked reclaimed.\<close>

definition notReclaimed :: "Database \<Rightarrow> string \<Rightarrow> bool" where
  "notReclaimed db pk = list_all (\<lambda>a. pubkey a = pk \<longrightarrow> status a \<noteq> RECLAIMED) (tracked_accounts db)"

text \<open>
  What Discovery and a manual add do to the store: the logs and lists stay, and the
  accounts table gets new rows at its end, with fresh addresses, each active or closed.
\<close>

definition grows :: "Database \<Rightarrow> Database \<Rightarrow> bool" where
  "grows db db' \<longleftrightarrow>
     reclaim_transactions db' = reclaim_transactions db \<and> whitelist db' = whitelist db
     \<and> blacklist db' = blacklist db
     \<and> (\<exists>new. tracked_accounts db' = tracked_accounts db @ new
              \<and> distinct (map pubkey new)
              \<and> (\<forall>a \<in> set new. pubkey a \<notin> set (map pubkey (tracked_accounts db))
                               \<and> (status a = ACTIVE \<or> status a = CLOSED)))"

text \<open>
  For the idempotence of Discovery: the candidate addresses one signature contributes (none
  when the fetch fails, the transaction is missing or failed, or its parsing throws), and
  the addresses a run can do nothing more about: tracked, or with a failing read.
\<close>

definition candidatesOf :: "string \<Rightarrow> (string \<Rightarrow> ParsedTx option thrown) \<Rightarrow> SigInfo \<Rightarrow> string list" where
  "candidatesOf sponsorPubkey txs sigInfo =
     (case txs (sig_signature sigInfo) of
        Inl e \<Rightarrow> []
      | Inr None \<Rightarrow> []
      | Inr (Some tx) \<Rightarrow>
          if (case meta tx of None \<Rightarrow> False | Some m \<Rightarrow> meta_err m) then []
          else (case findCreatedAccounts tx sponsorPubkey of Inl e \<Rightarrow> [] | Inr cs \<Rightarrow> cs))"

definition settled :: "(string \<Rightarrow> ledger_read) \<Rightarrow> Database \<Rightarrow> string \<Rightarrow> bool" where
  "settled reads db pk \<longleftrightarrow> getAccount db pk \<noteq> None \<or> isl (reads pk)"

text \<open>
  The sponsor a run resolves, \<open>koraSignerPubkey || config.koraSignerPubkey\<close>, and all the
  candidate addresses a run extracts from a history, in the order of the run, with
  repetitions: none when no sponsor is configured or the signatures cannot be read.
\<close>

definition sponsorOf :: "BotConfig \<Rightarrow> string option \<Rightarrow> string option" where
  "sponsorOf config koraSigner =
     (case or_null_string koraSigner of
        Some k \<Rightarrow> Some k
      | None \<Rightarrow> or_null_string (koraSignerPubkey config))"

definition historyCandidates ::
  "BotConfig \<Rightarrow> string option \<Rightarrow> SigInfo list thrown \<Rightarrow> (string \<Rightarrow> ParsedTx option thrown)
     \<Rightarrow> string list" where
  "historyCandidates config koraSigner history txs =
     (case sponsorOf config koraSigner of
        None \<Rightarrow> []
      | Some sponsorPubkey \<Rightarrow>
          (case history of
             Inl e \<Rightarrow> []
           | Inr signatures \<Rightarrow> concat (map (candidatesOf sponsorPubkey txs) signatures)))"

section \<open>Scenarios\<close>

text \<open>
  Concrete inputs for the examples below: the configuration that \<open>loadConfig\<close> builds
  from an empty environment (seven days, 100000 lamports, dry-run on), the same with a
  treasury configured, a ledger that accepts a transfer signed by the account it debits and
  rejects any other, and tracked addresses in several states.
\<close>

definition defaultConfig :: BotConfig where
  "defaultConfig =
     \<lparr>operatorKeypairPath = ''./keypair.json'', koraSignerPubkey = None, treasuryPubkeyCfg = None,
      minDormancyDays = 7, minReclaimLamports = 100000, dryRun = True\<rparr>"

definition treasuryConfig :: BotConfig where
  "treasuryConfig = defaultConfig\<lparr>treasuryPubkeyCfg := Some ''Treasury''\<rparr>"

definition accepts :: submitter where
  "accepts ix authority =
     (if fromPubkey ix = authority then Inr ''tx1'' else Inl ''Signature verification failed'')"

text \<open>The balance test of \<open>detectStatusChange\<close> in exact arithmetic, for the examples.\<close>

definition exactTenth :: "int \<Rightarrow> int \<Rightarrow> bool" where
  "exactTenth l r = (10 * l < r)"

definition tokenOwned :: RawAccount where
  "tokenOwned =
     \<lparr>raw_lamports = 50000, raw_owner = TOKEN_PROGRAM_ID, raw_executable = False,
      raw_rentEpoch = 0, raw_dataLength = 165\<rparr>"

definition systemOwned :: RawAccount where
  "systemOwned =
     \<lparr>raw_lamports = 50000, raw_owner = SYSTEM_PROGRAM_ID, raw_executable = False,
      raw_rentEpoch = 0, raw_dataLength = 0\<rparr>"

definition emptied :: RawAccount where
  "emptied =
     \<lparr>raw_lamports = 0, raw_owner = SYSTEM_PROGRAM_ID, raw_executable = False,
      raw_rentEpoch = 0, raw_dataLength = 0\<rparr>"

definition tenDays :: int where
  "tenDays = 864000000"

definition activeAccount :: TrackedAccount where
  "activeAccount =
     \<lparr>pubkey = ''Acct1'', createdAt = 0, sponsoredTxSignature = Some ''tx0'',
      accountType = TOKEN_ACCOUNT, rentLamports = 2039280, status = ACTIVE, lastCheckedAt = 0,
      closedAt = None, programOwner = Some TOKEN_PROGRAM_ID, dataSize = Some 165,
      accountNotes = None\<rparr>"

definition closedAccount :: TrackedAccount where
  "closedAccount = activeAccount\<lparr>status := CLOSED, closedAt := Some 0\<rparr>"

definition reclaimedAccount :: TrackedAccount where
  "reclaimedAccount = activeAccount\<lparr>status := RECLAIMED, rentLamports := 0, closedAt := Some 0\<rparr>"

text \<open>
  The operator's own wallet as a tracked address: a system account, added with a balance
  of 1000000 lamports, that now holds 50000.
\<close>

definition operatorWallet :: TrackedAccount where
  "operatorWallet =
     \<lparr>pubkey = ''Operator'', createdAt = 0, sponsoredTxSignature = Some ''manual-add'',
      accountType = SYSTEM, rentLamports = 1000000, status = ACTIVE, lastCheckedAt = 0,
      closedAt = None, programOwner = Some SYSTEM_PROGRAM_ID, dataSize = Some 0,
      accountNotes = Some ''Manually added''\<rparr>"

definition closedWallet :: TrackedAccount where
  "closedWallet = operatorWallet\<lparr>status := CLOSED, closedAt := Some 0\<rparr>"

text \<open>
  A ledger with no account at all; a store of 101 active accounts; and a node that answers
  a request for 100 keys with "no such account" for each of them and refuses any other
  request.
\<close>

definition nothingOnChain :: batch_read where
  "nothingOnChain b = Inr (\<lambda>pk. None)"

definition crowd :: "TrackedAccount list" where
  "crowd = map (\<lambda>i. activeAccount\<lparr>pubkey := replicate (Suc i) CHR ''x''\<rparr>) [0..<100]"

definition crowdedStore :: Database where
  "crowdedStore = emptyDatabase\<lparr>tracked_accounts := activeAccount # crowd\<rparr>"

definition rateLimited :: batch_read where
  "rateLimited b = (if length b = 100 then nothingOnChain b else Inl ''429 Too Many Requests'')"

definition sponsoredTx :: ParsedTx where
  "sponsoredTx =
     \<lparr>accountKeys = [''Sponsor'', ''Acct1''],
      instructions = [ParsedIx ''system'' (Some ''createAccount'') (Some ''Acct1'') None],
      meta = Some \<lparr>meta_err = False, innerInstructions = None, postTokenBalances = None,
                   preTokenBalances = None\<rparr>\<rparr>"

definition oneSignature :: "SigInfo list" where
  "oneSignature = [\<lparr>sig_signature = ''tx0'', sig_slot = 1, sig_blockTime = Some 1700000000\<rparr>]"

definition fetched :: "string \<Rightarrow> ParsedTx option thrown" where
  "fetched sg = (if sg = ''tx0'' then Inr (Some sponsoredTx) else Inr None)"

definition tokenOnChain :: "string \<Rightarrow> ledger_read" where
  "tokenOnChain pk = Inr (Some tokenOwned)"

definition unreachable :: "string \<Rightarrow> ledger_read" where
  "unreachable pk = Inl ''fetch failed''"

definition storeOf :: "TrackedAccount \<Rightarrow> Database" where
  "storeOf a = emptyDatabase\<lparr>tracked_accounts := [a]\<rparr>"

definition reclaimedWalletStore :: Database where
  "reclaimedWalletStore =
     (storeOf (operatorWallet\<lparr>status := RECLAIMED, rentLamports := 0, lastCheckedAt := tenDays\<rparr>))
       \<lparr>reclaim_transactions :=
          [\<lparr>accountPubkey = ''Operator'', txSignature = ''tx1'', lamportsReclaimed = 50000,
            reclaimedAt = tenDays, success = True, errorMessage = None,
            treasuryPubkey = ''Treasury''\<rparr>]\<rparr>"

definition reclaimedStore :: Database where
  "reclaimedStore =
     (storeOf reclaimedAccount)
       \<lparr>reclaim_transactions :=
          [\<lparr>accountPubkey = ''Acct1'', txSignature = ''tx1'', lamportsReclaimed = 50000,
            reclaimedAt = tenDays, success = True, errorMessage = None,
            treasuryPubkey = ''Operator''\<rparr>]\<rparr>"

lemmas store_defs =
  getAccount_def updateAccountStatus_def updateAccountRent_def recordReclaimTransaction_def
  isWhitelisted_def isBlacklisted_def emptyDatabase_def coalesce_def or_null_string_def

lemmas reclaim_defs =
  reclaimSingleAccount_def checkEligibility_def checkDormancyAndThreshold_def ineligible_def
  failed_def getTreasuryPubkey_def loadOperatorKeypair_def closeAccountAndReclaimRent_def
  getAccountInfo_def toAccountInfo_def msPerDay_def

lemmas scenario_defs =
  defaultConfig_def treasuryConfig_def accepts_def tokenOwned_def systemOwned_def emptied_def
  tenDays_def activeAccount_def closedAccount_def reclaimedAccount_def operatorWallet_def
  closedWallet_def storeOf_def reclaimedStore_def reclaimedWalletStore_def TOKEN_PROGRAM_ID_def SYSTEM_PROGRAM_ID_def

section \<open>The Reclaim Executor\<close>

subsection \<open>The submission layer\<close>

lemma close_gone:
  "closeAccountAndReclaimRent (Inr None) send pk destination authority dry
     = (Inr \<lparr>cr_signature = [], cr_success = False, cr_lamportsReclaimed = 0,
             cr_error = Some ''Account does not exist or already closed''\<rparr>, [])"
  by (simp add: closeAccountAndReclaimRent_def getAccountInfo_def toAccountInfo_def)

lemma close_dry_run:
  "closeAccountAndReclaimRent conn send pk destination authority True = (r, sent) \<Longrightarrow>
     sent = [] \<and> (\<forall>res. r = Inr res \<and> cr_success res \<longrightarrow> cr_signature res = ''dry-run-signature'')
     \<and> (\<forall>res. r = Inr res \<and> \<not> cr_success res \<longrightarrow> cr_signature res = [])"
  by (auto simp: closeAccountAndReclaimRent_def Let_def split: sum.splits if_splits)

lemma close_live_dispatch:
  "closeAccountAndReclaimRent (Inr (Some raw)) send pk destination authority False =
     (if raw_owner raw = SYSTEM_PROGRAM_ID
      then (case send (SystemTransfer pk destination (raw_lamports raw)) authority of
              Inr sg \<Rightarrow> (Inr \<lparr>cr_signature = sg, cr_success = True,
                               cr_lamportsReclaimed = raw_lamports raw, cr_error = None\<rparr>,
                         [SystemTransfer pk destination (raw_lamports raw)])
            | Inl e \<Rightarrow> (Inr \<lparr>cr_signature = [], cr_success = False, cr_lamportsReclaimed = 0,
                              cr_error = Some e\<rparr>,
                        [SystemTransfer pk destination (raw_lamports raw)]))
      else (Inr \<lparr>cr_signature = [], cr_success = False, cr_lamportsReclaimed = 0,
                 cr_error = Some (''Cannot close program-owned account (owner: '' @ raw_owner raw
                                  @ ''). Manual intervention required.'')\<rparr>, []))"
  by (simp add: closeAccountAndReclaimRent_def getAccountInfo_def toAccountInfo_def Let_def
           split: sum.splits)

lemma close_dry_found:
  "closeAccountAndReclaimRent (Inr (Some raw)) send pk destination authority True
     = (Inr \<lparr>cr_signature = ''dry-run-signature'', cr_success = True,
             cr_lamportsReclaimed = raw_lamports raw, cr_error = None\<rparr>, [])"
  by (simp add: closeAccountAndReclaimRent_def getAccountInfo_def toAccountInfo_def Let_def)

lemma close_read_fails:
  "closeAccountAndReclaimRent (Inl e) send pk destination authority dry = (Inl e, [])"
  by (simp add: closeAccountAndReclaimRent_def getAccountInfo_def)

subsection \<open>Eligibility\<close>

lemma checkEligibility_throws:
  "checkEligibility config now conn db pk = (Inl e, db1) \<Longrightarrow> conn = Inl e \<and> db1 = db"
  by (auto simp: checkEligibility_def getAccountInfo_def Let_def
           split: option.splits if_splits sum.splits)

lemma checkEligibility_store:
  "checkEligibility config now conn db pk = (r, db1) \<Longrightarrow>
     db1 = db \<or> (conn = Inr None \<and> db1 = updateAccountStatus db pk CLOSED (Some now) now)"
  by (auto simp: checkEligibility_def getAccountInfo_def toAccountInfo_def Let_def
           split: option.splits if_splits sum.splits)

lemma updateAccountStatus_frame:
  "map rentLamports (tracked_accounts (updateAccountStatus db pk st c now)) = map rentLamports (tracked_accounts db)"
  "map pubkey (tracked_accounts (updateAccountStatus db pk st c now)) = map pubkey (tracked_accounts db)"
  "reclaim_transactions (updateAccountStatus db pk st c now) = reclaim_transactions db"
  "whitelist (updateAccountStatus db pk st c now) = whitelist db"
  "blacklist (updateAccountStatus db pk st c now) = blacklist db"
  by (simp_all add: updateAccountStatus_def comp_def)

lemma checkEligibility_log:
  "reclaim_transactions (snd (checkEligibility config now conn db pk)) = reclaim_transactions db"
  using checkEligibility_store [of config now conn db pk "fst (checkEligibility config now conn db pk)"
          "snd (checkEligibility config now conn db pk)"]
  by (auto simp: updateAccountStatus_frame)


subsection \<open>Reaching the submission layer\<close>

lemma reclaim_not_reaching:
  assumes "\<not> reachesSubmission config keypair now conn1 conn2 db pk"
    and "reclaimSingleAccount config keypair now conn1 conn2 conn3 send db pk forceDryRun = (r, db', sent)"
  shows "sent = [] \<and> db' = snd (checkEligibility config now conn1 db pk)
         \<and> (\<forall>res. r = Inr res \<longrightarrow> \<not> rr_success res)"
proof -
  obtain er db1 where ce: "checkEligibility config now conn1 db pk = (er, db1)"
    by (cases "checkEligibility config now conn1 db pk")
  with assms show ?thesis
    by (auto simp: reclaimSingleAccount_def reachesSubmission_def amountToReclaim_def failed_def Let_def
             split: sum.splits if_splits)
qed

lemma reclaim_reaching:
  assumes "reachesSubmission config keypair now conn1 conn2 db pk"
  shows "\<exists>treasury operator.
           getTreasuryPubkey config keypair = Inr treasury
           \<and> loadOperatorKeypair config keypair = Inr operator
           \<and> reclaimSingleAccount config keypair now conn1 conn2 conn3 send db pk forceDryRun
             = (let dry = (case forceDryRun of Some d \<Rightarrow> d | None \<Rightarrow> dryRun config);
                    db1 = snd (checkEligibility config now conn1 db pk)
                in case closeAccountAndReclaimRent conn3 send pk treasury operator dry of
                     (Inl e, sent) \<Rightarrow> (Inr (failed pk (Some e) dry), db1, sent)
                   | (Inr reclaimResult, sent) \<Rightarrow>
                       if cr_success reclaimResult then
                         (Inr \<lparr>rr_success = True, rr_accountPubkey = pk,
                               rr_txSignature = Some (cr_signature reclaimResult),
                               rr_lamportsReclaimed = Some (cr_lamportsReclaimed reclaimResult),
                               rr_error = None, rr_dryRun = dry\<rparr>,
                          (let db2 = recordReclaimTransaction db1
                                       \<lparr>accountPubkey = pk, txSignature = cr_signature reclaimResult,
                                        lamportsReclaimed = cr_lamportsReclaimed reclaimResult,
                                        reclaimedAt = now, success = True, errorMessage = None,
                                        treasuryPubkey = treasury\<rparr>
                           in if \<not> dry
                              then updateAccountRent (updateAccountStatus db2 pk RECLAIMED None now) pk 0 now
                              else db2),
                          sent)
                       else
                         (Inr (failed pk (cr_error reclaimResult) dry),
                          recordReclaimTransaction db1
                            \<lparr>accountPubkey = pk,
                             txSignature = (if cr_signature reclaimResult = [] then ''failed''
                                            else cr_signature reclaimResult),
                             lamportsReclaimed = 0, reclaimedAt = now, success = False,
                             errorMessage = cr_error reclaimResult, treasuryPubkey = treasury\<rparr>,
                          sent))"
proof -
  obtain er db1 where ce: "checkEligibility config now conn1 db pk = (er, db1)"
    by (cases "checkEligibility config now conn1 db pk")
  with assms show ?thesis
    by (auto simp: reclaimSingleAccount_def reachesSubmission_def amountToReclaim_def Let_def
             split: sum.splits if_splits prod.splits)
qed

lemma reclaim_throws:
  assumes "reclaimSingleAccount config keypair now conn1 conn2 conn3 send db pk forceDryRun = (Inl e, db', sent)"
  shows "(conn1 = Inl e \<or> getTreasuryPubkey config keypair = Inl e)
         \<and> sent = [] \<and> reclaim_transactions db' = reclaim_transactions db"
proof -
  obtain er db1 where ce: "checkEligibility config now conn1 db pk = (er, db1)"
    by (cases "checkEligibility config now conn1 db pk")
  have log: "reclaim_transactions db1 = reclaim_transactions db"
    using checkEligibility_log [of config now conn1 db pk] ce by simp
  show ?thesis
  proof (cases er)
    case (Inl e')
    with ce have "conn1 = Inl e'" by (simp add: checkEligibility_throws)
    with assms ce Inl log show ?thesis by (auto simp: reclaimSingleAccount_def)
  next
    case (Inr elig)
    with assms ce log show ?thesis
      by (auto simp: reclaimSingleAccount_def Let_def split: sum.splits if_splits prod.splits)
  qed
qed

subsection \<open>An account that is gone\<close>

text \<open>
  Claim C3 fails as stated. A closed account is not necessarily gone: the operator's wallet,
  stored as closed ten days ago and selected by the eligible-set query, is on the ledger
  with 50000 lamports, and a live reclaim of it returns success. And an attempt on an
  account that is gone does not always return: with no treasury configured and no keypair
  file, the resolution of the destination throws.
\<close>

theorem C3_closed_account_on_chain_is_reclaimed:
  "getEligibleAccounts (storeOf closedWallet) 7 100000 tenDays = [closedWallet]
   \<and> status closedWallet = CLOSED
   \<and> fst (reclaimSingleAccount treasuryConfig (Some ''Operator'') tenDays
          (Inr (Some systemOwned)) (Inr (Some systemOwned)) (Inr (Some systemOwned))
          accepts (storeOf closedWallet) ''Operator'' (Some False))
      = Inr \<lparr>rr_success = True, rr_accountPubkey = ''Operator'', rr_txSignature = Some ''tx1'',
             rr_lamportsReclaimed = Some 50000, rr_error = None, rr_dryRun = False\<rparr>
   \<and> reclaimSingleAccount defaultConfig None tenDays (Inr None) (Inr None) (Inr None)
        accepts (storeOf closedAccount) ''Acct1'' (Some False)
      = (Inl ''Keypair file not found: ./keypair.json'', storeOf closedAccount, [])"
  by (simp add: reclaim_defs store_defs scenario_defs getEligibleAccounts_def Let_def)

text \<open>
  Claim C3 as amended. When the ledger answers the submission layer's read with "no such
  account", a reclaim attempt (live, and dry-run as well) never succeeds and submits
  nothing. It throws only what the eligibility read or the resolution of the destination
  throws, and then the reclaim log is unchanged; otherwise it returns a failure. When it
  reaches the submission layer, that failure is "Account does not exist or already closed"
  and it is logged as one failed row; when it does not, the log is unchanged. The
  submission layer itself answers such a read with that failure before it builds any
  instruction. Every account the eligible-set query returns has status closed.
\<close>

theorem C3_gone_account_is_refused:
  assumes "reclaimSingleAccount config keypair now conn1 conn2 (Inr None) send db pk forceDryRun = (r, db', sent)"
  shows "(case r of
            Inl e \<Rightarrow> (conn1 = Inl e \<or> getTreasuryPubkey config keypair = Inl e)
                     \<and> reclaim_transactions db' = reclaim_transactions db
          | Inr res \<Rightarrow> \<not> rr_success res)
         \<and> sent = []
         \<and> (reachesSubmission config keypair now conn1 conn2 db pk \<longrightarrow>
              r = Inr (failed pk (Some ''Account does not exist or already closed'')
                         (case forceDryRun of Some d \<Rightarrow> d | None \<Rightarrow> dryRun config))
              \<and> (\<exists>treasury. getTreasuryPubkey config keypair = Inr treasury
                    \<and> reclaim_transactions db' = reclaim_transactions db
                        @ [\<lparr>accountPubkey = pk, txSignature = ''failed'', lamportsReclaimed = 0,
                            reclaimedAt = now, success = False,
                            errorMessage = Some ''Account does not exist or already closed'',
                            treasuryPubkey = treasury\<rparr>]))
         \<and> (\<not> reachesSubmission config keypair now conn1 conn2 db pk \<longrightarrow>
              reclaim_transactions db' = reclaim_transactions db)
         \<and> closeAccountAndReclaimRent (Inr None) send pk destination authority dry
             = (Inr \<lparr>cr_signature = [], cr_success = False, cr_lamportsReclaimed = 0,
                     cr_error = Some ''Account does not exist or already closed''\<rparr>, [])
         \<and> (\<forall>a \<in> set (getEligibleAccounts db minDays minLamports now). status a = CLOSED)"
proof -
  have main: "(case r of
            Inl e \<Rightarrow> (conn1 = Inl e \<or> getTreasuryPubkey config keypair = Inl e)
                     \<and> reclaim_transactions db' = reclaim_transactions db
          | Inr res \<Rightarrow> \<not> rr_success res)
         \<and> sent = []
         \<and> (reachesSubmission config keypair now conn1 conn2 db pk \<longrightarrow>
              r = Inr (failed pk (Some ''Account does not exist or already closed'')
                         (case forceDryRun of Some d \<Rightarrow> d | None \<Rightarrow> dryRun config))
              \<and> (\<exists>treasury. getTreasuryPubkey config keypair = Inr treasury
                    \<and> reclaim_transactions db' = reclaim_transactions db
                        @ [\<lparr>accountPubkey = pk, txSignature = ''failed'', lamportsReclaimed = 0,
                            reclaimedAt = now, success = False,
                            errorMessage = Some ''Account does not exist or already closed'',
                            treasuryPubkey = treasury\<rparr>]))
         \<and> (\<not> reachesSubmission config keypair now conn1 conn2 db pk \<longrightarrow>
              reclaim_transactions db' = reclaim_transactions db)"
  proof (cases "reachesSubmission config keypair now conn1 conn2 db pk")
    case False
    from reclaim_not_reaching [OF False assms]
    have n: "sent = []" "db' = snd (checkEligibility config now conn1 db pk)"
      "\<forall>res. r = Inr res \<longrightarrow> \<not> rr_success res" by simp_all
    from n(2) have log: "reclaim_transactions db' = reclaim_transactions db"
      by (simp add: checkEligibility_log)
    show ?thesis
    proof (cases r)
      case (Inl e)
      with assms reclaim_throws [of config keypair now conn1 conn2 "Inr None" send db pk forceDryRun e db' sent]
      show ?thesis using False n log by simp
    next
      case (Inr res)
      with False n log show ?thesis by simp
    qed
  next
    case True
    from reclaim_reaching [OF True, where ?conn3.0 = "Inr None" and send = send and forceDryRun = forceDryRun] assms
    show ?thesis using True
      by (auto simp: close_gone Let_def failed_def recordReclaimTransaction_def or_null_string_def
                checkEligibility_log)
  qed
  have "\<forall>a \<in> set (getEligibleAccounts db minDays minLamports now). status a = CLOSED"
    by (simp add: getEligibleAccounts_def)
  with main close_gone show ?thesis by simp
qed

text \<open>
  An instance: a closed account, ten days after closure, gone from the ledger at all three
  reads, is eligible, reaches the submission layer and is refused there; the attempt is
  recorded as failed.
\<close>

theorem C3_witness:
  "reclaimSingleAccount defaultConfig (Some ''Operator'') tenDays (Inr None) (Inr None) (Inr None)
      accepts (storeOf closedAccount) ''Acct1'' (Some False)
     = (Inr (failed ''Acct1'' (Some ''Account does not exist or already closed'') False),
        recordReclaimTransaction (storeOf closedAccount)
          \<lparr>accountPubkey = ''Acct1'', txSignature = ''failed'', lamportsReclaimed = 0,
           reclaimedAt = tenDays, success = False,
           errorMessage = Some ''Account does not exist or already closed'',
           treasuryPubkey = ''Operator''\<rparr>, [])
   \<and> reachesSubmission defaultConfig (Some ''Operator'') tenDays (Inr None) (Inr None)
        (storeOf closedAccount) ''Acct1''
   \<and> getEligibleAccounts (storeOf closedAccount) 7 100000 tenDays = [closedAccount]
   \<and> status closedAccount = CLOSED"
proof -
  have run: "reclaimSingleAccount defaultConfig (Some ''Operator'') tenDays (Inr None) (Inr None) (Inr None)
      accepts (storeOf closedAccount) ''Acct1'' (Some False)
     = (Inr (failed ''Acct1'' (Some ''Account does not exist or already closed'') False),
        recordReclaimTransaction (storeOf closedAccount)
          \<lparr>accountPubkey = ''Acct1'', txSignature = ''failed'', lamportsReclaimed = 0,
           reclaimedAt = tenDays, success = False,
           errorMessage = Some ''Account does not exist or already closed'',
           treasuryPubkey = ''Operator''\<rparr>, [])"
    by (simp add: reclaim_defs store_defs scenario_defs Let_def)
  have reach: "reachesSubmission defaultConfig (Some ''Operator'') tenDays (Inr None) (Inr None)
        (storeOf closedAccount) ''Acct1''"
    by (simp add: reachesSubmission_def amountToReclaim_def reclaim_defs store_defs scenario_defs Let_def)
  have el: "getEligibleAccounts (storeOf closedAccount) 7 100000 tenDays = [closedAccount]"
    by (simp add: getEligibleAccounts_def store_defs scenario_defs msPerDay_def)
  from C3_gone_account_is_refused [OF run, of "''Operator''" "''Operator''" False 7 100000] run reach el
  show ?thesis by simp
qed


subsection \<open>Owning programs, live and dry-run\<close>

text \<open>
  Claim C1, evaluated at a token account. An eligible tracked token account that the
  ledger reports as owned by the token program, with 50000 lamports left, is not closed in
  live mode: the executor answers "Manual intervention required", submits nothing and
  records a failed row. The claim and the repository's README promise a close instruction
  for token accounts.
\<close>

theorem C1_token_account_is_refused:
  "reclaimSingleAccount defaultConfig (Some ''Operator'') tenDays
      (Inr (Some tokenOwned)) (Inr (Some tokenOwned)) (Inr (Some tokenOwned))
      accepts (storeOf activeAccount) ''Acct1'' (Some False)
     = (Inr (failed ''Acct1''
              (Some ''Cannot close program-owned account (owner: TokenkegQfeZyiNwAJbNbGKPFXCWuBvf9Ss623VQ5DA). Manual intervention required.'')
              False),
        recordReclaimTransaction (storeOf activeAccount)
          \<lparr>accountPubkey = ''Acct1'', txSignature = ''failed'', lamportsReclaimed = 0,
           reclaimedAt = tenDays, success = False,
           errorMessage = Some ''Cannot close program-owned account (owner: TokenkegQfeZyiNwAJbNbGKPFXCWuBvf9Ss623VQ5DA). Manual intervention required.'',
           treasuryPubkey = ''Operator''\<rparr>,
        [])"
  by (simp add: reclaim_defs store_defs scenario_defs Let_def)

text \<open>
  Claim C2, evaluated at the same token account. With the same store and the same ledger
  answers, the dry-run reports success with 50000 lamports to reclaim, and the live call
  refuses the owning program: the dry-run returns before the owner is looked at.
\<close>

theorem C2_dry_run_succeeds_where_live_refuses:
  "fst (reclaimSingleAccount defaultConfig (Some ''Operator'') tenDays
          (Inr (Some tokenOwned)) (Inr (Some tokenOwned)) (Inr (Some tokenOwned))
          accepts (storeOf activeAccount) ''Acct1'' (Some True))
     = Inr \<lparr>rr_success = True, rr_accountPubkey = ''Acct1'',
            rr_txSignature = Some ''dry-run-signature'', rr_lamportsReclaimed = Some 50000,
            rr_error = None, rr_dryRun = True\<rparr>
   \<and> fst (reclaimSingleAccount defaultConfig (Some ''Operator'') tenDays
          (Inr (Some tokenOwned)) (Inr (Some tokenOwned)) (Inr (Some tokenOwned))
          accepts (storeOf activeAccount) ''Acct1'' (Some False))
     = Inr (failed ''Acct1''
              (Some ''Cannot close program-owned account (owner: TokenkegQfeZyiNwAJbNbGKPFXCWuBvf9Ss623VQ5DA). Manual intervention required.'')
              False)"
  by (simp add: reclaim_defs store_defs scenario_defs Let_def)

subsection \<open>Nothing to reclaim\<close>

text \<open>
  Claim C7 fails as stated. A closed account, ten days after closure, that the ledger
  reports as existing with zero lamports passes the eligibility check; the executor then
  returns "No lamports to reclaim" and the reclaim log is still empty: no row is appended.
\<close>

theorem C7_zero_balance_appends_no_row:
  "checkEligibility defaultConfig tenDays (Inr (Some emptied)) (storeOf closedAccount) ''Acct1''
     = (Inr \<lparr>eligible = True, account = Some closedAccount,
             reasons = [''Account is eligible for rent reclaim''], warnings = []\<rparr>,
        storeOf closedAccount)
   \<and> raw_lamports emptied = 0
   \<and> reclaimSingleAccount defaultConfig (Some ''Operator'') tenDays
        (Inr (Some emptied)) (Inr (Some emptied)) (Inr (Some emptied))
        accepts (storeOf closedAccount) ''Acct1'' (Some False)
      = (Inr (failed ''Acct1'' (Some ''No lamports to reclaim'') False), storeOf closedAccount, [])
   \<and> reclaim_transactions (storeOf closedAccount) = []"
  by (simp add: reclaim_defs store_defs scenario_defs Let_def)

text \<open>
  Claim C7 as amended. The amount the executor sets out to reclaim is fixed at the read
  immediately before acting: the balance that read shows when it finds the account, the
  stored balance of the row when it finds the account gone. When the account passes the
  eligibility check, the destination resolves, that read is answered and this amount is
  zero, the executor returns the failure "No lamports to reclaim" without reaching the
  submission layer, submits nothing, and leaves the store as the eligibility check left
  it: the reclaim log is unchanged.
\<close>

theorem C7_zero_balance_fails_fast:
  assumes "checkEligibility config now conn1 db pk = (Inr e, db1)"
    and "eligible e"
    and "getTreasuryPubkey config keypair = Inr treasury"
    and "getAccountInfo conn2 pk = Inr onChainInfo"
    and "amountToReclaim onChainInfo e = Some 0"
  shows "reclaimSingleAccount config keypair now conn1 conn2 conn3 send db pk forceDryRun
           = (Inr (failed pk (Some ''No lamports to reclaim'')
                     (case forceDryRun of Some d \<Rightarrow> d | None \<Rightarrow> dryRun config)),
              db1, [])
         \<and> reclaim_transactions db1 = reclaim_transactions db
         \<and> \<not> reachesSubmission config keypair now conn1 conn2 db pk"
proof -
  from checkEligibility_log [of config now conn1 db pk] assms(1)
  have "reclaim_transactions db1 = reclaim_transactions db" by simp
  moreover have "reclaimSingleAccount config keypair now conn1 conn2 conn3 send db pk forceDryRun
           = (Inr (failed pk (Some ''No lamports to reclaim'')
                     (case forceDryRun of Some d \<Rightarrow> d | None \<Rightarrow> dryRun config)),
              db1, [])"
    using assms by (simp add: reclaimSingleAccount_def amountToReclaim_def Let_def)
  moreover have "\<not> reachesSubmission config keypair now conn1 conn2 db pk"
    using assms by (simp add: reachesSubmission_def)
  ultimately show ?thesis by simp
qed

text \<open>
  An instance: the account of the counterexample, with the dry-run flag taken from the
  configuration.
\<close>

theorem C7_witness:
  "checkEligibility defaultConfig tenDays (Inr (Some emptied)) (storeOf closedAccount) ''Acct1''
     = (Inr \<lparr>eligible = True, account = Some closedAccount,
             reasons = [''Account is eligible for rent reclaim''], warnings = []\<rparr>,
        storeOf closedAccount)
   \<and> getTreasuryPubkey defaultConfig (Some ''Operator'') = Inr ''Operator''
   \<and> getAccountInfo (Inr (Some emptied)) ''Acct1'' = Inr (toAccountInfo ''Acct1'' (Some emptied))
   \<and> amountToReclaim (toAccountInfo ''Acct1'' (Some emptied))
        \<lparr>eligible = True, account = Some closedAccount,
         reasons = [''Account is eligible for rent reclaim''], warnings = []\<rparr> = Some 0
   \<and> reclaimSingleAccount defaultConfig (Some ''Operator'') tenDays
        (Inr (Some emptied)) (Inr (Some emptied)) (Inr (Some systemOwned))
        accepts (storeOf closedAccount) ''Acct1'' None
      = (Inr (failed ''Acct1'' (Some ''No lamports to reclaim'') True), storeOf closedAccount, [])"
proof -
  have ce: "checkEligibility defaultConfig tenDays (Inr (Some emptied)) (storeOf closedAccount) ''Acct1''
     = (Inr \<lparr>eligible = True, account = Some closedAccount,
             reasons = [''Account is eligible for rent reclaim''], warnings = []\<rparr>,
        storeOf closedAccount)"
    by (simp add: reclaim_defs store_defs scenario_defs Let_def)
  have el: "eligible \<lparr>eligible = True, account = Some closedAccount,
             reasons = [''Account is eligible for rent reclaim''], warnings = []\<rparr>"
    by simp
  have tr: "getTreasuryPubkey defaultConfig (Some ''Operator'') = Inr ''Operator''"
    by (simp add: reclaim_defs store_defs scenario_defs)
  have rd: "getAccountInfo (Inr (Some emptied)) ''Acct1'' = Inr (toAccountInfo ''Acct1'' (Some emptied))"
    by (simp add: getAccountInfo_def)
  have z: "amountToReclaim (toAccountInfo ''Acct1'' (Some emptied))
        \<lparr>eligible = True, account = Some closedAccount,
         reasons = [''Account is eligible for rent reclaim''], warnings = []\<rparr> = Some 0"
    by (simp add: amountToReclaim_def toAccountInfo_def emptied_def)
  from C7_zero_balance_fails_fast [OF ce el tr rd z, of "Inr (Some systemOwned)" accepts None] ce tr rd z
  show ?thesis by (simp add: defaultConfig_def)
qed


subsection \<open>What a dry-run writes\<close>

text \<open>
  Claim C6 fails as stated. A dry-run on an active account that is gone from the ledger
  changes its stored status from active to closed, and the one row it appends carries the
  reference "failed", not the synthetic one. A dry-run on an eligible account whose
  balance reads zero before acting appends no row at all.
\<close>

theorem C6_dry_run_closes_account:
  "statusOf (storeOf activeAccount) ''Acct1'' = Some ACTIVE
   \<and> statusOf (fst (snd (reclaimSingleAccount defaultConfig (Some ''Operator'') tenDays
                          (Inr None) (Inr None) (Inr None) accepts (storeOf activeAccount)
                          ''Acct1'' (Some True)))) ''Acct1'' = Some CLOSED
   \<and> map txSignature (reclaim_transactions (fst (snd (reclaimSingleAccount defaultConfig
          (Some ''Operator'') tenDays (Inr None) (Inr None) (Inr None) accepts
          (storeOf activeAccount) ''Acct1'' (Some True))))) = [''failed'']
   \<and> reclaim_transactions (fst (snd (reclaimSingleAccount defaultConfig
          (Some ''Operator'') tenDays (Inr (Some systemOwned)) (Inr (Some emptied)) (Inr (Some emptied))
          accepts (storeOf activeAccount) ''Acct1'' (Some True)))) = []"
  by (simp add: reclaim_defs store_defs scenario_defs statusOf_def Let_def)

lemma recordReclaimTransaction_frame:
  "tracked_accounts (recordReclaimTransaction db t) = tracked_accounts db"
  "whitelist (recordReclaimTransaction db t) = whitelist db"
  "blacklist (recordReclaimTransaction db t) = blacklist db"
  by (simp_all add: recordReclaimTransaction_def)

lemma forced_dry_run_effects:
  assumes "reclaimSingleAccount config keypair now conn1 conn2 conn3 send db pk (Some True) = (r, db', sent)"
  shows "sent = []
         \<and> map rentLamports (tracked_accounts db') = map rentLamports (tracked_accounts db)
         \<and> (tracked_accounts db' = tracked_accounts db
            \<or> conn1 = Inr None
              \<and> tracked_accounts db' = tracked_accounts (updateAccountStatus db pk CLOSED (Some now) now))
         \<and> (\<forall>e. r = Inl e \<longrightarrow> reclaim_transactions db' = reclaim_transactions db)
         \<and> (\<forall>res. r = Inr res \<and> rr_success res \<longrightarrow>
               rr_txSignature res = Some ''dry-run-signature''
               \<and> reachesSubmission config keypair now conn1 conn2 db pk
               \<and> (\<exists>raw treasury. conn3 = Inr (Some raw)
                      \<and> getTreasuryPubkey config keypair = Inr treasury
                      \<and> reclaim_transactions db' = reclaim_transactions db
                          @ [\<lparr>accountPubkey = pk, txSignature = ''dry-run-signature'',
                              lamportsReclaimed = raw_lamports raw, reclaimedAt = now,
                              success = True, errorMessage = None, treasuryPubkey = treasury\<rparr>]))
         \<and> (\<forall>res. r = Inr res \<and> \<not> rr_success res \<longrightarrow>
               (if reachesSubmission config keypair now conn1 conn2 db pk \<and> conn3 = Inr None
                then rr_error res = Some ''Account does not exist or already closed''
                     \<and> (\<exists>treasury. getTreasuryPubkey config keypair = Inr treasury
                           \<and> reclaim_transactions db' = reclaim_transactions db
                               @ [\<lparr>accountPubkey = pk, txSignature = ''failed'',
                                   lamportsReclaimed = 0, reclaimedAt = now, success = False,
                                   errorMessage = Some ''Account does not exist or already closed'',
                                   treasuryPubkey = treasury\<rparr>])
                else reclaim_transactions db' = reclaim_transactions db))"
proof -
  obtain er db1 where ce: "checkEligibility config now conn1 db pk = (er, db1)"
    by (cases "checkEligibility config now conn1 db pk")
  from checkEligibility_store [OF ce]
  have st: "db1 = db \<or> (conn1 = Inr None \<and> db1 = updateAccountStatus db pk CLOSED (Some now) now)" .
  then have rt: "reclaim_transactions db1 = reclaim_transactions db"
    and rl: "map rentLamports (tracked_accounts db1) = map rentLamports (tracked_accounts db)"
    by (auto simp: updateAccountStatus_frame)
  have tr: "tracked_accounts db' = tracked_accounts db1 \<Longrightarrow>
              map rentLamports (tracked_accounts db') = map rentLamports (tracked_accounts db)
              \<and> (tracked_accounts db' = tracked_accounts db
                  \<or> conn1 = Inr None
                    \<and> tracked_accounts db' = tracked_accounts (updateAccountStatus db pk CLOSED (Some now) now))"
    using st rl by auto
  show ?thesis
  proof (cases "reachesSubmission config keypair now conn1 conn2 db pk")
    case False
    from reclaim_not_reaching [OF False assms] ce
    have n: "sent = []" "db' = db1" "\<forall>res. r = Inr res \<longrightarrow> \<not> rr_success res" by simp_all
    with tr rt False show ?thesis by simp
  next
    case True
    from reclaim_reaching [OF True, where ?conn3.0 = conn3 and send = send and forceDryRun = "Some True"]
    obtain treasury operator where t: "getTreasuryPubkey config keypair = Inr treasury"
      and run: "reclaimSingleAccount config keypair now conn1 conn2 conn3 send db pk (Some True)
             = (let dry = (case Some True of Some d \<Rightarrow> d | None \<Rightarrow> dryRun config);
                    db1 = snd (checkEligibility config now conn1 db pk)
                in case closeAccountAndReclaimRent conn3 send pk treasury operator dry of
                     (Inl e, sent) \<Rightarrow> (Inr (failed pk (Some e) dry), db1, sent)
                   | (Inr reclaimResult, sent) \<Rightarrow>
                       if cr_success reclaimResult then
                         (Inr \<lparr>rr_success = True, rr_accountPubkey = pk,
                               rr_txSignature = Some (cr_signature reclaimResult),
                               rr_lamportsReclaimed = Some (cr_lamportsReclaimed reclaimResult),
                               rr_error = None, rr_dryRun = dry\<rparr>,
                          (let db2 = recordReclaimTransaction db1
                                       \<lparr>accountPubkey = pk, txSignature = cr_signature reclaimResult,
                                        lamportsReclaimed = cr_lamportsReclaimed reclaimResult,
                                        reclaimedAt = now, success = True, errorMessage = None,
                                        treasuryPubkey = treasury\<rparr>
                           in if \<not> dry
                              then updateAccountRent (updateAccountStatus db2 pk RECLAIMED None now) pk 0 now
                              else db2),
                          sent)
                       else
                         (Inr (failed pk (cr_error reclaimResult) dry),
                          recordReclaimTransaction db1
                            \<lparr>accountPubkey = pk,
                             txSignature = (if cr_signature reclaimResult = [] then ''failed''
                                            else cr_signature reclaimResult),
                             lamportsReclaimed = 0, reclaimedAt = now, success = False,
                             errorMessage = cr_error reclaimResult, treasuryPubkey = treasury\<rparr>,
                          sent))"
      by blast
    note run = run [unfolded assms]
    show ?thesis
    proof (cases conn3)
      case (Inl e)
      with run ce have "r = Inr (failed pk (Some e) True)" "db' = db1" "sent = []"
        by (simp_all add: close_read_fails Let_def)
      with tr rt True Inl show ?thesis by (simp add: failed_def)
    next
      case (Inr found)
      show ?thesis
      proof (cases found)
        case None
        with run Inr have "r = Inr (failed pk (Some ''Account does not exist or already closed'') True)"
          "db' = recordReclaimTransaction db1
                   \<lparr>accountPubkey = pk, txSignature = ''failed'',
                    lamportsReclaimed = 0, reclaimedAt = now, success = False,
                    errorMessage = Some ''Account does not exist or already closed'',
                    treasuryPubkey = treasury\<rparr>" "sent = []"
          using ce by (simp_all add: close_gone Let_def)
        with tr rt True Inr None t show ?thesis
          by (simp add: failed_def recordReclaimTransaction_def or_null_string_def)
      next
        case (Some raw)
        with run Inr have "r = Inr \<lparr>rr_success = True, rr_accountPubkey = pk,
                      rr_txSignature = Some ''dry-run-signature'',
                      rr_lamportsReclaimed = Some (raw_lamports raw),
                      rr_error = None, rr_dryRun = True\<rparr>"
          "db' = recordReclaimTransaction db1
                   \<lparr>accountPubkey = pk, txSignature = ''dry-run-signature'',
                    lamportsReclaimed = raw_lamports raw,
                    reclaimedAt = now, success = True, errorMessage = None,
                    treasuryPubkey = treasury\<rparr>" "sent = []"
          using ce by (simp_all add: close_dry_found Let_def)
        with tr rt True Inr Some t show ?thesis
          by (simp add: recordReclaimTransaction_def or_null_string_def)
      qed
    qed
  qed
qed

lemma reclaim_mode:
  "reclaimSingleAccount config keypair now conn1 conn2 conn3 send db pk forceDryRun
     = reclaimSingleAccount config keypair now conn1 conn2 conn3 send db pk
         (Some (case forceDryRun of Some d \<Rightarrow> d | None \<Rightarrow> dryRun config))"
  by (simp add: reclaimSingleAccount_def)

text \<open>
  Claim C6 as amended. A dry-run submits nothing and never changes a stored balance. The
  only change it can make to the accounts table is the eligibility check's correction of
  the address to closed, and only when the ledger reports the account gone. It appends a
  row to the reclaim log only when it reaches the submission layer. When it returns
  success it has reached that layer, the layer's read has found the account, and exactly
  one row has been appended: for this address, successful, with the synthetic reference
  "dry-run-signature" and the balance that read showed. When it returns a failure, it has
  appended one failed row, with the reference "failed" and the error
  "Account does not exist or already closed", if it reached the submission layer and the
  layer's read found the account gone; in every other failure (the account is not
  eligible, there is nothing to reclaim, a read or the signing credential fails) and when
  the call throws, the log is unchanged.
\<close>

theorem C6_dry_run_effects:
  assumes "case forceDryRun of Some d \<Rightarrow> d | None \<Rightarrow> dryRun config"
    and "reclaimSingleAccount config keypair now conn1 conn2 conn3 send db pk forceDryRun = (r, db', sent)"
  shows "sent = []
         \<and> map rentLamports (tracked_accounts db') = map rentLamports (tracked_accounts db)
         \<and> (tracked_accounts db' = tracked_accounts db
            \<or> conn1 = Inr None
              \<and> tracked_accounts db' = tracked_accounts (updateAccountStatus db pk CLOSED (Some now) now))
         \<and> (\<forall>e. r = Inl e \<longrightarrow> reclaim_transactions db' = reclaim_transactions db)
         \<and> (\<forall>res. r = Inr res \<and> rr_success res \<longrightarrow>
               rr_txSignature res = Some ''dry-run-signature''
               \<and> reachesSubmission config keypair now conn1 conn2 db pk
               \<and> (\<exists>raw treasury. conn3 = Inr (Some raw)
                      \<and> getTreasuryPubkey config keypair = Inr treasury
                      \<and> reclaim_transactions db' = reclaim_transactions db
                          @ [\<lparr>accountPubkey = pk, txSignature = ''dry-run-signature'',
                              lamportsReclaimed = raw_lamports raw, reclaimedAt = now,
                              success = True, errorMessage = None, treasuryPubkey = treasury\<rparr>]))
         \<and> (\<forall>res. r = Inr res \<and> \<not> rr_success res \<longrightarrow>
               (if reachesSubmission config keypair now conn1 conn2 db pk \<and> conn3 = Inr None
                then rr_error res = Some ''Account does not exist or already closed''
                     \<and> (\<exists>treasury. getTreasuryPubkey config keypair = Inr treasury
                           \<and> reclaim_transactions db' = reclaim_transactions db
                               @ [\<lparr>accountPubkey = pk, txSignature = ''failed'',
                                   lamportsReclaimed = 0, reclaimedAt = now, success = False,
                                   errorMessage = Some ''Account does not exist or already closed'',
                                   treasuryPubkey = treasury\<rparr>])
                else reclaim_transactions db' = reclaim_transactions db))"
proof -
  from assms have "reclaimSingleAccount config keypair now conn1 conn2 conn3 send db pk (Some True)
                     = (r, db', sent)"
    using reclaim_mode [of config keypair now conn1 conn2 conn3 send db pk forceDryRun] by simp
  then show ?thesis by (rule forced_dry_run_effects)
qed

text \<open>
  Two instances, with the dry-run flag taken from the configuration. A reclaim of an
  eligible account that exists with 50000 lamports succeeds and appends the simulated row;
  status and balance stay as they were. A reclaim of a closed account that is gone from
  the ledger reaches the submission layer and appends one failed row.
\<close>

theorem C6_witness:
  "reclaimSingleAccount defaultConfig (Some ''Operator'') tenDays
      (Inr (Some systemOwned)) (Inr (Some systemOwned)) (Inr (Some systemOwned))
      accepts (storeOf activeAccount) ''Acct1'' None
     = (Inr \<lparr>rr_success = True, rr_accountPubkey = ''Acct1'',
             rr_txSignature = Some ''dry-run-signature'', rr_lamportsReclaimed = Some 50000,
             rr_error = None, rr_dryRun = True\<rparr>,
        recordReclaimTransaction (storeOf activeAccount)
          \<lparr>accountPubkey = ''Acct1'', txSignature = ''dry-run-signature'',
           lamportsReclaimed = 50000, reclaimedAt = tenDays, success = True,
           errorMessage = None, treasuryPubkey = ''Operator''\<rparr>,
        [])
   \<and> map rentLamports (tracked_accounts (recordReclaimTransaction (storeOf activeAccount)
          \<lparr>accountPubkey = ''Acct1'', txSignature = ''dry-run-signature'',
           lamportsReclaimed = 50000, reclaimedAt = tenDays, success = True,
           errorMessage = None, treasuryPubkey = ''Operator''\<rparr>)) = [2039280]
   \<and> tracked_accounts (recordReclaimTransaction (storeOf activeAccount)
          \<lparr>accountPubkey = ''Acct1'', txSignature = ''dry-run-signature'',
           lamportsReclaimed = 50000, reclaimedAt = tenDays, success = True,
           errorMessage = None, treasuryPubkey = ''Operator''\<rparr>) = [activeAccount]
   \<and> reachesSubmission defaultConfig (Some ''Operator'') tenDays (Inr None) (Inr None)
        (storeOf closedAccount) ''Acct1''
   \<and> reclaimSingleAccount defaultConfig (Some ''Operator'') tenDays (Inr None) (Inr None) (Inr None)
        accepts (storeOf closedAccount) ''Acct1'' None
      = (Inr (failed ''Acct1'' (Some ''Account does not exist or already closed'') True),
         (storeOf closedAccount)
           \<lparr>reclaim_transactions :=
              [\<lparr>accountPubkey = ''Acct1'', txSignature = ''failed'', lamportsReclaimed = 0,
                reclaimedAt = tenDays, success = False,
                errorMessage = Some ''Account does not exist or already closed'',
                treasuryPubkey = ''Operator''\<rparr>]\<rparr>,
         [])"
proof -
  have run: "reclaimSingleAccount defaultConfig (Some ''Operator'') tenDays
      (Inr (Some systemOwned)) (Inr (Some systemOwned)) (Inr (Some systemOwned))
      accepts (storeOf activeAccount) ''Acct1'' None
     = (Inr \<lparr>rr_success = True, rr_accountPubkey = ''Acct1'',
             rr_txSignature = Some ''dry-run-signature'', rr_lamportsReclaimed = Some 50000,
             rr_error = None, rr_dryRun = True\<rparr>,
        recordReclaimTransaction (storeOf activeAccount)
          \<lparr>accountPubkey = ''Acct1'', txSignature = ''dry-run-signature'',
           lamportsReclaimed = 50000, reclaimedAt = tenDays, success = True,
           errorMessage = None, treasuryPubkey = ''Operator''\<rparr>,
        [])"
    by (simp add: reclaim_defs store_defs scenario_defs Let_def)
  have reach: "reachesSubmission defaultConfig (Some ''Operator'') tenDays (Inr None) (Inr None)
        (storeOf closedAccount) ''Acct1''"
    by (simp add: reachesSubmission_def amountToReclaim_def reclaim_defs store_defs scenario_defs Let_def)
  have gone: "reclaimSingleAccount defaultConfig (Some ''Operator'') tenDays (Inr None) (Inr None) (Inr None)
        accepts (storeOf closedAccount) ''Acct1'' None
      = (Inr (failed ''Acct1'' (Some ''Account does not exist or already closed'') True),
         (storeOf closedAccount)
           \<lparr>reclaim_transactions :=
              [\<lparr>accountPubkey = ''Acct1'', txSignature = ''failed'', lamportsReclaimed = 0,
                reclaimedAt = tenDays, success = False,
                errorMessage = Some ''Account does not exist or already closed'',
                treasuryPubkey = ''Operator''\<rparr>]\<rparr>,
         [])"
    by (simp add: reclaim_defs store_defs scenario_defs Let_def)
  have dry: "case None of Some d \<Rightarrow> d | None \<Rightarrow> dryRun defaultConfig"
    by (simp add: defaultConfig_def)
  have before: "map rentLamports (tracked_accounts (storeOf activeAccount)) = [2039280]"
    by (simp add: storeOf_def emptyDatabase_def activeAccount_def)
  from C6_dry_run_effects [OF dry run] before
  have balances: "map rentLamports (tracked_accounts (recordReclaimTransaction (storeOf activeAccount)
          \<lparr>accountPubkey = ''Acct1'', txSignature = ''dry-run-signature'',
           lamportsReclaimed = 50000, reclaimedAt = tenDays, success = True,
           errorMessage = None, treasuryPubkey = ''Operator''\<rparr>)) = [2039280]"
    by simp
  have rows: "tracked_accounts (recordReclaimTransaction (storeOf activeAccount)
          \<lparr>accountPubkey = ''Acct1'', txSignature = ''dry-run-signature'',
           lamportsReclaimed = 50000, reclaimedAt = tenDays, success = True,
           errorMessage = None, treasuryPubkey = ''Operator''\<rparr>) = [activeAccount]"
    by (simp add: recordReclaimTransaction_def storeOf_def emptyDatabase_def)
  from run balances rows reach gone show ?thesis by blast
qed

section \<open>The accounts table under the store's updates\<close>

lemma find_update_by_key:
  assumes "\<And>a. pubkey (upd a) = pubkey a"
  shows "find (\<lambda>a. pubkey a = pk') (map (\<lambda>a. if pubkey a = pk then upd a else a) xs) =
           (if pk' = pk then map_option upd (find (\<lambda>a. pubkey a = pk) xs)
            else find (\<lambda>a. pubkey a = pk') xs)"
  using assms by (induction xs) auto

lemma getAccount_updateAccountStatus:
  "getAccount (updateAccountStatus db pk st c now) pk' =
     (if pk' = pk
      then map_option (\<lambda>a. a\<lparr>status := st, closedAt := coalesce c (closedAt a), lastCheckedAt := now\<rparr>)
             (getAccount db pk)
      else getAccount db pk')"
  unfolding getAccount_def updateAccountStatus_def
  by (simp add: find_update_by_key)

lemma getAccount_updateAccountRent:
  "getAccount (updateAccountRent db pk rent now) pk' =
     (if pk' = pk
      then map_option (\<lambda>a. a\<lparr>rentLamports := rent, lastCheckedAt := now\<rparr>) (getAccount db pk)
      else getAccount db pk')"
  unfolding getAccount_def updateAccountRent_def
  by (simp add: find_update_by_key)

lemma getAccount_pubkey: "getAccount db pk = Some a \<Longrightarrow> pubkey a = pk \<and> a \<in> set (tracked_accounts db)"
  by (auto simp: getAccount_def find_Some_iff)

lemma getAccount_None: "getAccount db pk = None \<longleftrightarrow> pk \<notin> set (map pubkey (tracked_accounts db))"
  by (auto simp: getAccount_def find_None_iff)

lemma statusOf_updateAccountStatus:
  "statusOf (updateAccountStatus db pk st c now) pk' =
     (if pk' = pk then (if statusOf db pk = None then None else Some st) else statusOf db pk')"
  by (cases "getAccount db pk") (simp_all add: statusOf_def getAccount_updateAccountStatus)

lemma statusOf_updateAccountRent:
  "statusOf (updateAccountRent db pk rent now) pk' = statusOf db pk'"
  by (cases "getAccount db pk") (simp_all add: statusOf_def getAccount_updateAccountRent)

lemma statusOf_recordReclaimTransaction:
  "statusOf (recordReclaimTransaction db t) pk = statusOf db pk"
  by (simp add: statusOf_def getAccount_def recordReclaimTransaction_def)

lemma upsertAccount_insert:
  assumes "getAccount db (pubkey acc) = None"
  shows "tracked_accounts (snd (upsertAccount db acc)) =
           tracked_accounts db @
             [acc\<lparr>sponsoredTxSignature := or_null_string (sponsoredTxSignature acc),
                  programOwner := or_null_string (programOwner acc),
                  dataSize := or_null_int (dataSize acc),
                  accountNotes := or_null_string (accountNotes acc)\<rparr>]"
    and "reclaim_transactions (snd (upsertAccount db acc)) = reclaim_transactions db"
    and "whitelist (snd (upsertAccount db acc)) = whitelist db"
    and "blacklist (snd (upsertAccount db acc)) = blacklist db"
proof -
  from assms have "\<not> list_ex (\<lambda>a. pubkey a = pubkey acc) (tracked_accounts db)"
    by (simp add: getAccount_def find_None_iff list_ex_iff)
  then show "tracked_accounts (snd (upsertAccount db acc)) =
           tracked_accounts db @
             [acc\<lparr>sponsoredTxSignature := or_null_string (sponsoredTxSignature acc),
                  programOwner := or_null_string (programOwner acc),
                  dataSize := or_null_int (dataSize acc),
                  accountNotes := or_null_string (accountNotes acc)\<rparr>]"
    and "reclaim_transactions (snd (upsertAccount db acc)) = reclaim_transactions db"
    and "whitelist (snd (upsertAccount db acc)) = whitelist db"
    and "blacklist (snd (upsertAccount db acc)) = blacklist db"
    by (simp_all add: upsertAccount_def Let_def)
qed

lemma grows_refl: "grows db db"
  by (simp add: grows_def)

lemma grows_trans:
  assumes "grows db db'" and "grows db' db''"
  shows "grows db db''"
proof -
  from assms(1) obtain n1 where 1: "tracked_accounts db' = tracked_accounts db @ n1"
    and d1: "distinct (map pubkey n1)"
    and f1: "\<forall>a \<in> set n1. pubkey a \<notin> set (map pubkey (tracked_accounts db)) \<and> (status a = ACTIVE \<or> status a = CLOSED)"
    unfolding grows_def by blast
  from assms(2) obtain n2 where 2: "tracked_accounts db'' = tracked_accounts db' @ n2"
    and d2: "distinct (map pubkey n2)"
    and f2: "\<forall>a \<in> set n2. pubkey a \<notin> set (map pubkey (tracked_accounts db')) \<and> (status a = ACTIVE \<or> status a = CLOSED)"
    unfolding grows_def by blast
  have t: "tracked_accounts db'' = tracked_accounts db @ (n1 @ n2)" using 1 2 by simp
  have "set (map pubkey n1) \<inter> set (map pubkey n2) = {}"
  proof (rule ccontr)
    assume "set (map pubkey n1) \<inter> set (map pubkey n2) \<noteq> {}"
    then obtain k where "k \<in> set (map pubkey n1)" and "k \<in> set (map pubkey n2)" by blast
    then obtain a where "a \<in> set n2" and "pubkey a = k" by auto
    with f2 have "k \<notin> set (map pubkey (tracked_accounts db'))" by blast
    with 1 \<open>k \<in> set (map pubkey n1)\<close> show False by simp
  qed
  with d1 d2 have d: "distinct (map pubkey (n1 @ n2))" by simp
  have f: "\<forall>a \<in> set (n1 @ n2). pubkey a \<notin> set (map pubkey (tracked_accounts db))
                     \<and> (status a = ACTIVE \<or> status a = CLOSED)"
  proof
    fix a assume "a \<in> set (n1 @ n2)"
    then consider "a \<in> set n1" | "a \<in> set n2" by auto
    then show "pubkey a \<notin> set (map pubkey (tracked_accounts db)) \<and> (status a = ACTIVE \<or> status a = CLOSED)"
    proof cases
      case 1
      with f1 show ?thesis by blast
    next
      case 2
      with f2 have "pubkey a \<notin> set (map pubkey (tracked_accounts db'))"
        and "status a = ACTIVE \<or> status a = CLOSED" by blast+
      with \<open>tracked_accounts db' = tracked_accounts db @ n1\<close> show ?thesis by simp
    qed
  qed
  have r: "reclaim_transactions db'' = reclaim_transactions db" "whitelist db'' = whitelist db"
    "blacklist db'' = blacklist db"
    using assms by (simp_all add: grows_def)
  show ?thesis unfolding grows_def using r t d f by blast
qed

lemma newTrackedAccount_simps:
  "pubkey (newTrackedAccount pk created stx info now nt) = pk"
  and "status (newTrackedAccount pk created stx info now nt) = ACTIVE
     \<or> status (newTrackedAccount pk created stx info now nt) = CLOSED"
  by (simp_all add: newTrackedAccount_def)

lemma upsert_new_grows:
  assumes "getAccount db pk = None"
  shows "grows db (snd (upsertAccount db (newTrackedAccount pk created stx info now nt)))"
proof -
  let ?acc = "newTrackedAccount pk created stx info now nt"
  have pk: "pubkey ?acc = pk" by (simp add: newTrackedAccount_def)
  have st: "status ?acc = ACTIVE \<or> status ?acc = CLOSED" by (simp add: newTrackedAccount_def)
  from assms pk have "getAccount db (pubkey ?acc) = None" by simp
  note ins = upsertAccount_insert [OF this]
  from assms have "pk \<notin> set (map pubkey (tracked_accounts db))" by (simp add: getAccount_None)
  with ins pk st show ?thesis
    unfolding grows_def
    by (intro conjI exI [of _ "[?acc\<lparr>sponsoredTxSignature := or_null_string (sponsoredTxSignature ?acc),
                  programOwner := or_null_string (programOwner ?acc),
                  dataSize := or_null_int (dataSize ?acc),
                  accountNotes := or_null_string (accountNotes ?acc)\<rparr>]"]) simp_all
qed

lemma processAccount_grows: "grows db (snd (processAccount reads now sigInfo pk (res, db)))"
proof (cases "getAccount db pk")
  case None
  then show ?thesis
    using upsert_new_grows [OF None]
    by (simp add: processAccount_def Let_def grows_refl case_prod_beta split: sum.splits)
next
  case (Some a)
  then show ?thesis by (simp add: processAccount_def grows_refl)
qed

lemma processCreated_grows:
  "grows db (fst (snd (processCreated reads now sigInfo cs (res, db, seen))))"
proof (induction cs arbitrary: res db seen)
  case Nil
  then show ?case by (simp add: grows_refl)
next
  case (Cons c cs)
  show ?case
  proof (cases "c \<in> seen")
    case True
    then show ?thesis using Cons.IH by simp
  next
    case False
    obtain res' db' where pa: "processAccount reads now sigInfo c (res, db) = (res', db')"
      by (cases "processAccount reads now sigInfo c (res, db)")
    have "grows db db'" using processAccount_grows [of db reads now sigInfo c res] pa by simp
    moreover have "grows db' (fst (snd (processCreated reads now sigInfo cs (res', db', insert c seen))))"
      by (rule Cons.IH)
    ultimately show ?thesis using False pa by (auto intro: grows_trans)
  qed
qed

lemma processSignature_grows:
  "grows db (fst (snd (processSignature sponsor txs reads now sigInfo (res, db, seen))))"
  using processCreated_grows [of db reads now sigInfo _ res seen]
  by (auto simp: processSignature_def Let_def grows_refl split: sum.splits option.splits)

lemma processSignatures_grows:
  "grows db (fst (snd (foldl (\<lambda>st sigInfo. processSignature sponsor txs reads now sigInfo st)
                            (res, db, seen) sigs)))"
proof (induction sigs arbitrary: res db seen)
  case Nil
  then show ?case by (simp add: grows_refl)
next
  case (Cons s sigs)
  obtain res' db' seen' where st: "processSignature sponsor txs reads now s (res, db, seen) = (res', db', seen')"
    by (cases "processSignature sponsor txs reads now s (res, db, seen)") auto
  have "grows db db'" using processSignature_grows [of db sponsor txs reads now s res seen] st by simp
  moreover have "grows db' (fst (snd (foldl (\<lambda>st sigInfo. processSignature sponsor txs reads now sigInfo st)
                            (res', db', seen') sigs)))"
    by (rule Cons.IH)
  ultimately show ?case using st by (auto intro: grows_trans)
qed

lemma discover_grows:
  "grows db (snd (discoverSponsoredAccounts config signer now history txs reads db))"
proof -
  have "\<And>sponsor sigs. grows db (snd (case foldl (\<lambda>st sigInfo. processSignature sponsor txs reads now sigInfo st)
                          (emptyDiscoveryResult, db, {}) sigs of
                  (res, db', discoveredPubkeys) \<Rightarrow>
                    (res\<lparr>totalFound := newAccounts res + existingAccounts res\<rparr>, db')))"
    using processSignatures_grows [of db _ txs reads now emptyDiscoveryResult "{}"]
    by (simp add: case_prod_beta)
  then show ?thesis
    by (auto simp: discoverSponsoredAccounts_def grows_refl split: option.splits sum.splits)
qed

lemma addAccountManually_grows:
  "grows db (snd (addAccountManually now conn db pk stx))"
proof (cases "getAccount db pk")
  case None
  then show ?thesis
    using upsert_new_grows [OF None]
    by (simp add: addAccountManually_def grows_refl split: sum.splits)
next
  case (Some a)
  then show ?thesis by (simp add: addAccountManually_def grows_refl)
qed

subsection \<open>Rows added by Discovery\<close>

lemma find_append_key:
  "find P (xs @ ys) = (case find P xs of None \<Rightarrow> find P ys | Some x \<Rightarrow> Some x)"
  by (induction xs) auto

lemma grows_getAccount:
  assumes "grows db db'" and "getAccount db pk = Some a"
  shows "getAccount db' pk = Some a"
proof -
  from assms(1) obtain new where "tracked_accounts db' = tracked_accounts db @ new"
    unfolding grows_def by blast
  with assms(2) show ?thesis by (simp add: getAccount_def find_append_key)
qed

lemma grows_new_status:
  assumes "grows db db'" and "getAccount db pk = None" and "getAccount db' pk = Some a"
  shows "status a = ACTIVE \<or> status a = CLOSED"
proof -
  from assms(1) obtain new where n: "tracked_accounts db' = tracked_accounts db @ new"
    and s: "\<forall>a \<in> set new. pubkey a \<notin> set (map pubkey (tracked_accounts db))
                               \<and> (status a = ACTIVE \<or> status a = CLOSED)"
    unfolding grows_def by blast
  from assms(2,3) n have "find (\<lambda>a. pubkey a = pk) new = Some a"
    by (simp add: getAccount_def find_append_key)
  then have "a \<in> set new" by (auto simp: find_Some_iff)
  with s show ?thesis by blast
qed

lemma grows_statusOf_reclaimed:
  assumes "grows db db'" and "statusOf db' pk = Some RECLAIMED"
  shows "statusOf db pk = Some RECLAIMED"
proof (cases "getAccount db pk")
  case None
  from assms(2) obtain a where a: "getAccount db' pk = Some a" and "status a = RECLAIMED"
    by (auto simp: statusOf_def)
  with grows_new_status [OF assms(1) None a] show ?thesis by simp
next
  case (Some a)
  with grows_getAccount [OF assms(1) Some] assms(2) show ?thesis by (simp add: statusOf_def)
qed

lemma grows_statusOf_kept:
  assumes "grows db db'" and "statusOf db pk = Some st"
  shows "statusOf db' pk = Some st"
proof -
  from assms(2) obtain a where a: "getAccount db pk = Some a" and "status a = st"
    by (auto simp: statusOf_def)
  with grows_getAccount [OF assms(1) a] show ?thesis by (simp add: statusOf_def)
qed

lemma grows_uniqueAddresses:
  assumes "grows db db'" and "uniqueAddresses db"
  shows "uniqueAddresses db'"
proof -
  from assms(1) obtain new where n: "tracked_accounts db' = tracked_accounts db @ new"
    and d: "distinct (map pubkey new)"
    and s: "\<forall>a \<in> set new. pubkey a \<notin> set (map pubkey (tracked_accounts db))
                               \<and> (status a = ACTIVE \<or> status a = CLOSED)"
    unfolding grows_def by blast
  have "set (map pubkey (tracked_accounts db)) \<inter> set (map pubkey new) = {}"
  proof (rule ccontr)
    assume "set (map pubkey (tracked_accounts db)) \<inter> set (map pubkey new) \<noteq> {}"
    then obtain k where k: "k \<in> set (map pubkey (tracked_accounts db))" and "k \<in> set (map pubkey new)"
      by blast
    then obtain a where "a \<in> set new" and "pubkey a = k" by auto
    with s k show False by blast
  qed
  with n d assms(2) show ?thesis by (simp add: uniqueAddresses_def)
qed

lemma grows_reclaimedOk:
  assumes "grows db db'" and "reclaimedOk db"
  shows "reclaimedOk db'"
proof -
  from assms(1) obtain new where n: "tracked_accounts db' = tracked_accounts db @ new"
    and s: "\<forall>a \<in> set new. pubkey a \<notin> set (map pubkey (tracked_accounts db))
                               \<and> (status a = ACTIVE \<or> status a = CLOSED)"
    and r: "reclaim_transactions db' = reclaim_transactions db"
    unfolding grows_def by blast
  from s have "list_all (\<lambda>a. status a \<noteq> RECLAIMED) new"
    by (auto simp: list_all_iff)
  then have "list_all (\<lambda>a. status a = RECLAIMED \<longrightarrow>
                     rentLamports a = 0
                     \<and> list_ex (\<lambda>t. accountPubkey t = pubkey a \<and> success t) (reclaim_transactions db)) new"
    by (simp add: list_all_iff)
  with assms(2) n r show ?thesis by (simp add: reclaimedOk_def)
qed

subsection \<open>Updates and the invariants\<close>

lemma keys_updateAccountStatus:
  "map pubkey (tracked_accounts (updateAccountStatus db pk st c now)) = map pubkey (tracked_accounts db)"
  by (simp add: updateAccountStatus_def comp_def)

lemma keys_updateAccountRent:
  "map pubkey (tracked_accounts (updateAccountRent db pk rent now)) = map pubkey (tracked_accounts db)"
  by (simp add: updateAccountRent_def comp_def)

lemma updateAccountRent_frame:
  "reclaim_transactions (updateAccountRent db pk rent now) = reclaim_transactions db"
  "whitelist (updateAccountRent db pk rent now) = whitelist db"
  "blacklist (updateAccountRent db pk rent now) = blacklist db"
  by (simp_all add: updateAccountRent_def)

lemma list_all_weaken:
  "list_all P xs \<Longrightarrow> (\<And>x. P x \<Longrightarrow> Q x) \<Longrightarrow> list_all Q xs"
  by (induction xs) auto

lemma reclaimedOk_updateAccountStatus:
  assumes "reclaimedOk db" and "st \<noteq> RECLAIMED"
  shows "reclaimedOk (updateAccountStatus db pk st c now)"
  using assms unfolding reclaimedOk_def updateAccountStatus_def
  apply (simp add: list.pred_map comp_def)
  apply (erule list_all_weaken)
  apply simp
  done

lemma notReclaimed_updateAccountStatus:
  assumes "st \<noteq> RECLAIMED"
  shows "notReclaimed (updateAccountStatus db pk st c now) pk"
    and "notReclaimed db pk' \<Longrightarrow> notReclaimed (updateAccountStatus db pk st c now) pk'"
proof -
  show "notReclaimed (updateAccountStatus db pk st c now) pk"
    using assms unfolding notReclaimed_def updateAccountStatus_def
    apply (simp add: list.pred_map comp_def)
    apply (simp add: list_all_iff)
    done
next
  assume "notReclaimed db pk'"
  then show "notReclaimed (updateAccountStatus db pk st c now) pk'"
    using assms unfolding notReclaimed_def updateAccountStatus_def
    apply (simp add: list.pred_map comp_def)
  apply (erule list_all_weaken)
  apply simp
  done
qed

lemma notReclaimed_updateAccountRent:
  "notReclaimed (updateAccountRent db pk rent now) pk' = notReclaimed db pk'"
  unfolding notReclaimed_def updateAccountRent_def
  apply (simp add: list.pred_map comp_def)
  apply (simp add: list_all_iff)
  apply blast
  done

lemma reclaimedOk_updateAccountRent:
  assumes "reclaimedOk db" and "notReclaimed db pk"
  shows "reclaimedOk (updateAccountRent db pk rent now)"
proof -
  from assms have "list_all (\<lambda>a. (status a = RECLAIMED \<longrightarrow>
                     rentLamports a = 0
                     \<and> list_ex (\<lambda>t. accountPubkey t = pubkey a \<and> success t) (reclaim_transactions db))
                     \<and> (pubkey a = pk \<longrightarrow> status a \<noteq> RECLAIMED))
              (tracked_accounts db)"
    by (simp add: reclaimedOk_def notReclaimed_def list_all_iff)
  then show ?thesis
    unfolding reclaimedOk_def updateAccountRent_def
    apply (simp add: list.pred_map comp_def)
  apply (erule list_all_weaken)
  apply simp
  done
qed

lemma reclaimedOk_recordReclaimTransaction:
  assumes "reclaimedOk db"
  shows "reclaimedOk (recordReclaimTransaction db t)"
  using assms unfolding reclaimedOk_def recordReclaimTransaction_def
  apply simp
  apply (erule list_all_weaken)
  apply simp
  done

lemma notReclaimed_recordReclaimTransaction:
  "notReclaimed (recordReclaimTransaction db t) pk = notReclaimed db pk"
  by (simp add: notReclaimed_def recordReclaimTransaction_def)

lemma reclaimedOk_mark_reclaimed:
  assumes "reclaimedOk db"
    and "list_ex (\<lambda>t. accountPubkey t = pk \<and> success t) (reclaim_transactions db)"
  shows "reclaimedOk (updateAccountRent (updateAccountStatus db pk RECLAIMED None now) pk 0 now)"
  using assms unfolding reclaimedOk_def updateAccountRent_def updateAccountStatus_def
  apply (simp add: list.pred_map comp_def)
  apply (erule list_all_weaken)
  apply simp
  done

lemma unique_notReclaimed:
  assumes "uniqueAddresses db" and "a \<in> set (tracked_accounts db)" and "status a \<noteq> RECLAIMED"
  shows "notReclaimed db (pubkey a)"
proof -
  from assms(1) have "inj_on pubkey (set (tracked_accounts db))"
    by (simp add: uniqueAddresses_def distinct_map)
  with assms(2,3) show ?thesis
    by (auto simp: notReclaimed_def list_all_iff dest: inj_onD)
qed

section \<open>The Reconciliation Engine\<close>

lemma detectStatusChange_Some:
  assumes "detectStatusChange lt acc info = Some sc"
  shows "sc_pubkey sc = pubkey acc \<and> previousStatus sc = status acc
         \<and> previousRent sc = rentLamports acc
         \<and> status acc \<noteq> RECLAIMED \<and> status acc \<noteq> WHITELISTED \<and> newStatus sc \<noteq> RECLAIMED"
  using assms by (auto simp: detectStatusChange_def split: if_splits)

lemma detectStatusChange_gone:
  assumes "\<not> exists info" and "status acc = ACTIVE"
  shows "detectStatusChange lt acc info =
           Some \<lparr>sc_pubkey = pubkey acc, previousStatus = ACTIVE, newStatus = CLOSED,
                 previousRent = rentLamports acc, newRent = 0,
                 sc_reason = ''Account no longer exists on-chain''\<rparr>"
  using assms by (simp add: detectStatusChange_def)

lemma getAccount_applyStatusChange_other:
  "pk' \<noteq> pk \<Longrightarrow> getAccount (applyStatusChange db pk sc now) pk' = getAccount db pk'"
  by (simp add: applyStatusChange_def Let_def getAccount_updateAccountStatus getAccount_updateAccountRent)

lemma keys_applyStatusChange:
  "map pubkey (tracked_accounts (applyStatusChange db pk sc now)) = map pubkey (tracked_accounts db)"
  by (simp add: applyStatusChange_def Let_def keys_updateAccountStatus keys_updateAccountRent)

lemma statusOf_applyStatusChange:
  "statusOf (applyStatusChange db pk sc now) pk' =
     (if pk' = pk then (if statusOf db pk = None then None else Some (newStatus sc)) else statusOf db pk')"
  by (simp add: applyStatusChange_def Let_def statusOf_updateAccountStatus statusOf_updateAccountRent)

lemma frame_applyStatusChange:
  "reclaim_transactions (applyStatusChange db pk sc now) = reclaim_transactions db"
  "whitelist (applyStatusChange db pk sc now) = whitelist db"
  "blacklist (applyStatusChange db pk sc now) = blacklist db"
  by (simp_all add: applyStatusChange_def Let_def updateAccountStatus_frame updateAccountRent_frame)

lemma notReclaimed_applyStatusChange:
  assumes "newStatus sc \<noteq> RECLAIMED"
  shows "notReclaimed (applyStatusChange db pk sc now) pk"
    and "notReclaimed db pk' \<Longrightarrow> notReclaimed (applyStatusChange db pk sc now) pk'"
  using assms
  by (simp_all add: applyStatusChange_def Let_def notReclaimed_updateAccountRent
                    notReclaimed_updateAccountStatus)

lemma reclaimedOk_applyStatusChange:
  assumes "reclaimedOk db" and "newStatus sc \<noteq> RECLAIMED"
  shows "reclaimedOk (applyStatusChange db pk sc now)"
  using assms
  by (simp add: applyStatusChange_def Let_def reclaimedOk_updateAccountStatus
                reclaimedOk_updateAccountRent notReclaimed_updateAccountStatus)

lemma applyStatusChange_closed:
  assumes "getAccount db pk = Some acc" and "newStatus sc = CLOSED" and "newRent sc = 0"
    and "previousRent sc = rentLamports acc"
  shows "\<exists>a'. getAccount (applyStatusChange db pk sc now) pk = Some a'
              \<and> status a' = CLOSED \<and> closedAt a' = Some now \<and> rentLamports a' = 0"
  using assms
  by (simp add: applyStatusChange_def Let_def getAccount_updateAccountStatus
                getAccount_updateAccountRent coalesce_def)

subsection \<open>One iteration\<close>

lemma checkOne_other:
  assumes "pubkey acc \<noteq> pk" and "checkOne lt now infos acc (res, db) = (res', db')"
  shows "getAccount db' pk = getAccount db pk"
    and "filter (\<lambda>sc. sc_pubkey sc = pk) (statusChanges res')
           = filter (\<lambda>sc. sc_pubkey sc = pk) (statusChanges res)"
proof -
  have "getAccount db' pk = getAccount db pk
        \<and> filter (\<lambda>sc. sc_pubkey sc = pk) (statusChanges res')
           = filter (\<lambda>sc. sc_pubkey sc = pk) (statusChanges res)"
  proof (cases "infos (pubkey acc)")
    case None
    with assms show ?thesis by (auto simp: checkOne_def Let_def)
  next
    case (Some info)
    show ?thesis
    proof (cases "detectStatusChange lt acc info")
      case None
      with Some assms show ?thesis
        by (auto simp: checkOne_def Let_def getAccount_updateAccountRent)
    next
      case (Some sc)
      from detectStatusChange_Some [OF Some] have "sc_pubkey sc = pubkey acc" by simp
      with Some \<open>infos (pubkey acc) = Some info\<close> assms show ?thesis
        by (auto simp: checkOne_def Let_def getAccount_applyStatusChange_other)
    qed
  qed
  then show "getAccount db' pk = getAccount db pk"
    and "filter (\<lambda>sc. sc_pubkey sc = pk) (statusChanges res')
           = filter (\<lambda>sc. sc_pubkey sc = pk) (statusChanges res)"
    by simp_all
qed

lemma checkOne_keys:
  "map pubkey (tracked_accounts (snd (checkOne lt now infos acc (res, db)))) = map pubkey (tracked_accounts db)"
  by (simp add: checkOne_def Let_def keys_applyStatusChange keys_updateAccountRent
           split: option.splits)

lemma checkOne_frame:
  "reclaim_transactions (snd (checkOne lt now infos acc (res, db))) = reclaim_transactions db"
  "whitelist (snd (checkOne lt now infos acc (res, db))) = whitelist db"
  "blacklist (snd (checkOne lt now infos acc (res, db))) = blacklist db"
  by (simp_all add: checkOne_def Let_def frame_applyStatusChange updateAccountRent_frame
           split: option.splits)

lemma checkOne_notReclaimed:
  assumes "notReclaimed db pk"
  shows "notReclaimed (snd (checkOne lt now infos acc (res, db))) pk"
proof (cases "infos (pubkey acc)")
  case None
  with assms show ?thesis by (simp add: checkOne_def Let_def)
next
  case (Some info)
  show ?thesis
  proof (cases "detectStatusChange lt acc info")
    case None
    with Some assms show ?thesis
      by (simp add: checkOne_def Let_def notReclaimed_updateAccountRent)
  next
    case (Some sc)
    from detectStatusChange_Some [OF Some] have "newStatus sc \<noteq> RECLAIMED" by simp
    from notReclaimed_applyStatusChange(2) [OF this assms] Some \<open>infos (pubkey acc) = Some info\<close>
    show ?thesis by (simp add: checkOne_def Let_def)
  qed
qed

lemma checkOne_reclaimedOk:
  assumes "reclaimedOk db" and "notReclaimed db (pubkey acc)"
  shows "reclaimedOk (snd (checkOne lt now infos acc (res, db)))"
proof (cases "infos (pubkey acc)")
  case None
  with assms show ?thesis by (simp add: checkOne_def Let_def)
next
  case (Some info)
  show ?thesis
  proof (cases "detectStatusChange lt acc info")
    case None
    with Some assms show ?thesis
      by (simp add: checkOne_def Let_def reclaimedOk_updateAccountRent)
  next
    case (Some sc)
    from detectStatusChange_Some [OF Some] have "newStatus sc \<noteq> RECLAIMED" by simp
    from reclaimedOk_applyStatusChange [OF assms(1) this] Some \<open>infos (pubkey acc) = Some info\<close>
    show ?thesis by (simp add: checkOne_def Let_def)
  qed
qed

lemma checkOne_statusOf_reclaimed:
  assumes "statusOf (snd (checkOne lt now infos acc (res, db))) pk = Some RECLAIMED"
  shows "statusOf db pk = Some RECLAIMED"
proof (cases "infos (pubkey acc)")
  case None
  with assms show ?thesis by (simp add: checkOne_def Let_def)
next
  case (Some info)
  show ?thesis
  proof (cases "detectStatusChange lt acc info")
    case None
    with Some assms show ?thesis
      by (simp add: checkOne_def Let_def statusOf_updateAccountRent split: if_splits)
  next
    case (Some sc)
    from detectStatusChange_Some [OF Some] have "newStatus sc \<noteq> RECLAIMED" by simp
    with assms Some \<open>infos (pubkey acc) = Some info\<close>
    show ?thesis by (simp add: checkOne_def Let_def statusOf_applyStatusChange split: if_splits)
  qed
qed

subsection \<open>The batched read\<close>

lemma foldl_upd_lookup:
  "(foldl (\<lambda>m k. m(k \<mapsto> g k)) m b) k' = (if k' \<in> set b then Some (g k') else m k')"
  by (induction b arbitrary: m) auto

lemma readBatches_answered:
  assumes "\<forall>b \<in> set bs. \<exists>chain. conn b = Inr chain \<and> (pk \<in> set b \<longrightarrow> chain pk = None)"
  shows "\<exists>infos. readBatches conn bs m = Inr infos
               \<and> infos pk = (if pk \<in> set (concat bs) then Some (toAccountInfo pk None) else m pk)"
  using assms
proof (induction bs arbitrary: m)
  case Nil
  then show ?case by simp
next
  case (Cons b bs)
  from Cons.prems obtain chain where c: "conn b = Inr chain" and n: "pk \<in> set b \<longrightarrow> chain pk = None"
    by auto
  from Cons.prems
  have rest: "\<forall>b \<in> set bs. \<exists>chain. conn b = Inr chain \<and> (pk \<in> set b \<longrightarrow> chain pk = None)"
    by simp
  let ?m = "foldl (\<lambda>m k. m(k \<mapsto> toAccountInfo k (chain k))) m b"
  from Cons.IH [OF rest, of ?m] obtain infos where i: "readBatches conn bs ?m = Inr infos"
    and l: "infos pk = (if pk \<in> set (concat bs) then Some (toAccountInfo pk None) else ?m pk)"
    by blast
  have "?m pk = (if pk \<in> set b then Some (toAccountInfo pk None) else m pk)"
    using n by (simp add: foldl_upd_lookup)
  with c i l show ?case by auto
qed

lemma concat_batches: "0 < n \<Longrightarrow> concat (batches n xs) = xs"
proof (induction n xs rule: batches.induct)
  case (1 n xs)
  show ?case
  proof (cases "xs = []")
    case True
    then show ?thesis by (subst batches.simps) simp
  next
    case False
    with 1 have "concat (batches n (drop n xs)) = drop n xs" by simp
    with False 1(2) show ?thesis by (subst batches.simps) simp
  qed
qed

lemma getMultipleAccountsInfo_answered:
  assumes "\<forall>b \<in> set (batches 100 pks). \<exists>chain. conn b = Inr chain \<and> (pk \<in> set b \<longrightarrow> chain pk = None)"
    and "pk \<in> set pks"
  shows "\<exists>infos. getMultipleAccountsInfo conn pks = Inr infos \<and> infos pk = Some (toAccountInfo pk None)"
proof -
  have c: "concat (batches 100 pks) = pks" by (rule concat_batches) simp
  from readBatches_answered [OF assms(1), of Map.empty]
  obtain infos where "readBatches conn (batches 100 pks) Map.empty = Inr infos"
    and "infos pk = (if pk \<in> set (concat (batches 100 pks)) then Some (toAccountInfo pk None)
                     else Map.empty pk)"
    by blast
  with c assms(2) show ?thesis
    unfolding getMultipleAccountsInfo_def by (intro exI [of _ infos]) simp
qed

lemma readBatches_fails:
  "b \<in> set bs \<Longrightarrow> isl (conn b) \<Longrightarrow> isl (readBatches conn bs m)"
proof (induction bs arbitrary: m)
  case Nil
  then show ?case by simp
next
  case (Cons a bs)
  show ?case
  proof (cases "conn a")
    case (Inl e)
    then show ?thesis by simp
  next
    case (Inr chain)
    with Cons.prems have "b \<in> set bs" by auto
    from Cons.IH [OF this Cons.prems(2)] Inr show ?thesis by simp
  qed
qed

lemma checkAllAccounts_read_fails:
  assumes "b \<in> set (monitorRequests db)" and "isl (conn b)"
  shows "statusChanges (fst (checkAllAccounts lt now conn db)) = []
         \<and> snd (checkAllAccounts lt now conn db) = db"
proof -
  from assms have "b \<in> set (batches 100 (monitoredKeys db))" by (simp add: monitorRequests_def)
  from readBatches_fails [where conn = conn and b = b and m = Map.empty, OF this assms(2)]
  obtain e where "getMultipleAccountsInfo conn (monitoredKeys db) = Inl e"
    by (cases "getMultipleAccountsInfo conn (monitoredKeys db)")
       (auto simp: getMultipleAccountsInfo_def)
  then show ?thesis
    by (simp add: checkAllAccounts_def monitoredKeys_def Let_def emptyMonitorResult_def)
qed

lemma batches_two:
  assumes "0 < n" and "n < length xs" and "length xs \<le> 2 * n"
  shows "batches n xs = [take n xs, drop n xs]"
proof -
  from assms have a: "xs \<noteq> []" by auto
  from assms have b: "drop n xs \<noteq> []" by simp
  from assms have c: "drop n (drop n xs) = []" by simp
  from assms have d: "take n (drop n xs) = drop n xs" by simp
  have "batches n (drop n (drop n xs)) = []" unfolding c by (subst batches.simps) simp
  then have "batches n (drop n xs) = [drop n xs]"
    using assms(1) b d by (subst batches.simps) simp
  then show ?thesis using assms(1) a by (subst batches.simps) simp
qed

subsection \<open>The accounts a run checks\<close>

lemma getAccounts_set:
  "set (getAccounts db f) = {a \<in> set (tracked_accounts db). matchesFilter f a}"
  by (simp add: getAccounts_def)

lemma getAccounts_distinct:
  assumes "uniqueAddresses db"
  shows "distinct (map pubkey (getAccounts db f))"
proof -
  from assms have d: "distinct (tracked_accounts db)" and i: "inj_on pubkey (set (tracked_accounts db))"
    by (simp_all add: uniqueAddresses_def distinct_map)
  have "inj_on pubkey (set (getAccounts db f))"
    by (rule inj_on_subset [OF i]) (auto simp: getAccounts_set)
  moreover have "distinct (getAccounts db f)" using d by (simp add: getAccounts_def)
  ultimately show ?thesis by (simp add: distinct_map)
qed

lemma unique_getAccount:
  assumes "uniqueAddresses db" and "a \<in> set (tracked_accounts db)"
  shows "getAccount db (pubkey a) = Some a"
proof -
  from assms(1) have i: "inj_on pubkey (set (tracked_accounts db))"
    by (simp add: uniqueAddresses_def distinct_map)
  from assms(2) obtain b where b: "getAccount db (pubkey a) = Some b"
    by (cases "getAccount db (pubkey a)") (auto simp: getAccount_None)
  from getAccount_pubkey [OF b] have "pubkey b = pubkey a" and "b \<in> set (tracked_accounts db)" by simp_all
  with i assms(2) have "b = a" by (auto dest: inj_onD)
  with b show ?thesis by simp
qed

subsection \<open>The loop of a run\<close>

lemma fold_checkOne_other:
  assumes "pk \<notin> set (map pubkey accs)"
    and "foldl (\<lambda>st a. checkOne lt now infos a st) (res, db) accs = (res', db')"
  shows "getAccount db' pk = getAccount db pk
         \<and> filter (\<lambda>sc. sc_pubkey sc = pk) (statusChanges res')
             = filter (\<lambda>sc. sc_pubkey sc = pk) (statusChanges res)"
  using assms
proof (induction accs arbitrary: res db)
  case Nil
  then show ?case by simp
next
  case (Cons a accs)
  obtain r1 d1 where s: "checkOne lt now infos a (res, db) = (r1, d1)"
    by (cases "checkOne lt now infos a (res, db)")
  from Cons.prems(1) have ne: "pubkey a \<noteq> pk" and rest: "pk \<notin> set (map pubkey accs)" by auto
  from Cons.prems(2) s have "foldl (\<lambda>st a. checkOne lt now infos a st) (r1, d1) accs = (res', db')"
    by simp
  from Cons.IH [OF rest this] checkOne_other [OF ne s] show ?case by simp
qed

lemma fold_checkOne_gone:
  assumes "distinct (map pubkey accs)" and "acc \<in> set accs"
    and "infos (pubkey acc) = Some info" and "\<not> exists info" and "status acc = ACTIVE"
    and "getAccount db (pubkey acc) = Some acc"
    and "foldl (\<lambda>st a. checkOne lt now infos a st) (res, db) accs = (res', db')"
  shows "filter (\<lambda>sc. sc_pubkey sc = pubkey acc) (statusChanges res')
           = filter (\<lambda>sc. sc_pubkey sc = pubkey acc) (statusChanges res)
             @ [\<lparr>sc_pubkey = pubkey acc, previousStatus = ACTIVE, newStatus = CLOSED,
                 previousRent = rentLamports acc, newRent = 0,
                 sc_reason = ''Account no longer exists on-chain''\<rparr>]
         \<and> (\<exists>a'. getAccount db' (pubkey acc) = Some a'
                 \<and> status a' = CLOSED \<and> closedAt a' = Some now \<and> rentLamports a' = 0)"
  using assms
proof (induction accs arbitrary: res db)
  case Nil
  then show ?case by simp
next
  case (Cons a accs)
  obtain r1 d1 where s: "checkOne lt now infos a (res, db) = (r1, d1)"
    by (cases "checkOne lt now infos a (res, db)")
  from Cons.prems(7) s have f: "foldl (\<lambda>st a. checkOne lt now infos a st) (r1, d1) accs = (res', db')"
    by simp
  show ?case
  proof (cases "a = acc")
    case True
    let ?sc = "\<lparr>sc_pubkey = pubkey acc, previousStatus = ACTIVE, newStatus = CLOSED,
                 previousRent = rentLamports acc, newRent = 0,
                 sc_reason = ''Account no longer exists on-chain''\<rparr>"
    from Cons.prems(1) True have rest: "pubkey acc \<notin> set (map pubkey accs)" by simp
    have d: "detectStatusChange lt acc info = Some ?sc"
      by (rule detectStatusChange_gone [OF Cons.prems(4,5)])
    from s True Cons.prems(3) d have r1: "statusChanges r1 = statusChanges res @ [?sc]"
      and d1: "d1 = applyStatusChange db (pubkey acc) ?sc now"
      by (auto simp: checkOne_def Let_def)
    from applyStatusChange_closed [OF Cons.prems(6), of ?sc now] d1
    have "\<exists>a'. getAccount d1 (pubkey acc) = Some a'
                 \<and> status a' = CLOSED \<and> closedAt a' = Some now \<and> rentLamports a' = 0"
      by simp
    with fold_checkOne_other [OF rest f] r1 show ?thesis by simp
  next
    case False
    with Cons.prems(2) have in_rest: "acc \<in> set accs" by simp
    with Cons.prems(1) have ne: "pubkey a \<noteq> pubkey acc" by force
    from Cons.prems(1) have dr: "distinct (map pubkey accs)" by simp
    from checkOne_other [OF ne s] Cons.prems(6)
    have g: "getAccount d1 (pubkey acc) = Some acc"
      and fl: "filter (\<lambda>sc. sc_pubkey sc = pubkey acc) (statusChanges r1)
                = filter (\<lambda>sc. sc_pubkey sc = pubkey acc) (statusChanges res)"
      by simp_all
    from Cons.IH [OF dr in_rest Cons.prems(3,4,5) g f] fl show ?thesis by simp
  qed
qed


lemma crowd_keys:
  "monitoredKeys crowdedStore = ''Acct1'' # map (\<lambda>i. replicate (Suc i) CHR ''x'') [0..<100]"
proof -
  let ?f = "noFilter\<lparr>f_status := [ACTIVE, INACTIVE]\<rparr>"
  have m: "\<And>k. matchesFilter ?f (activeAccount\<lparr>pubkey := k\<rparr>)"
    by (simp add: matchesFilter_def noFilter_def activeAccount_def)
  from m [of "''Acct1''"] have m0: "matchesFilter ?f activeAccount" by (simp add: activeAccount_def)
  have fl: "filter (matchesFilter ?f) (tracked_accounts crowdedStore) = activeAccount # crowd"
    using m m0 by (simp add: crowdedStore_def emptyDatabase_def crowd_def filter_map comp_def)
  have "map (\<lambda>a. - createdAt a) (activeAccount # crowd) = replicate 101 0"
    by (simp add: crowd_def activeAccount_def comp_def map_replicate_const replicate_Suc [symmetric]
             del: replicate_Suc)
  then have "sorted (map (\<lambda>a. - createdAt a) (activeAccount # crowd))" by simp
  then have "sort_key (\<lambda>a. - createdAt a) (activeAccount # crowd) = activeAccount # crowd"
    by (rule sort_key_id_if_sorted)
  with fl show ?thesis
    by (simp add: monitoredKeys_def getAccounts_def crowd_def comp_def activeAccount_def)
qed

lemma crowd_requests:
  "monitorRequests crowdedStore
     = [take 100 (monitoredKeys crowdedStore), drop 100 (monitoredKeys crowdedStore)]"
  unfolding monitorRequests_def
  by (rule batches_two) (simp_all add: crowd_keys)

lemma crowd_unique: "uniqueAddresses crowdedStore"
proof -
  have inj: "inj_on (\<lambda>i. replicate (Suc i) CHR ''x'') A" for A :: "nat set"
  proof (rule inj_onI)
    fix i j :: nat
    assume "replicate (Suc i) CHR ''x'' = replicate (Suc j) CHR ''x''"
    then have "length (replicate (Suc i) CHR ''x'') = length (replicate (Suc j) CHR ''x'')"
      by (rule arg_cong)
    then show "i = j" by simp
  qed
  have notin: "''Acct1'' \<notin> set (map (\<lambda>i. replicate (Suc i) CHR ''x'') [0..<100])"
    by auto
  have dist: "distinct (map (\<lambda>i. replicate (Suc i) CHR ''x'') [0..<100])"
    by (simp add: distinct_map inj del: replicate_Suc)
  have keys: "map pubkey (tracked_accounts crowdedStore)
                = ''Acct1'' # map (\<lambda>i. replicate (Suc i) CHR ''x'') [0..<100]"
    by (simp add: crowdedStore_def emptyDatabase_def crowd_def comp_def activeAccount_def
             del: replicate_Suc)
  show ?thesis
    unfolding uniqueAddresses_def keys using notin dist by (simp del: replicate_Suc)
qed

lemma crowd_refused:
  "drop 100 (monitoredKeys crowdedStore) \<in> set (monitorRequests crowdedStore)"
  "isl (rateLimited (drop 100 (monitoredKeys crowdedStore)))"
  by (simp_all add: crowd_requests crowd_keys rateLimited_def)

text \<open>
  Claim C9 fails as stated. The store holds 101 active accounts, so the run makes two
  requests. The node answers the first, which holds the address, with "no such account",
  and refuses the second. The run then records no status change and writes nothing: the
  address stays active.
\<close>

theorem C9_failed_batch_read_records_nothing:
  "statusOf crowdedStore ''Acct1'' = Some ACTIVE
   \<and> uniqueAddresses crowdedStore
   \<and> length (monitorRequests crowdedStore) = 2
   \<and> ''Acct1'' \<in> set (hd (monitorRequests crowdedStore))
   \<and> rateLimited (hd (monitorRequests crowdedStore))
       = nothingOnChain (hd (monitorRequests crowdedStore))
   \<and> statusChanges (fst (checkAllAccounts exactTenth tenDays rateLimited crowdedStore)) = []
   \<and> snd (checkAllAccounts exactTenth tenDays rateLimited crowdedStore) = crowdedStore"
proof -
  have s: "statusOf crowdedStore ''Acct1'' = Some ACTIVE"
    by (simp add: statusOf_def getAccount_def crowdedStore_def emptyDatabase_def activeAccount_def)
  have l: "length (monitorRequests crowdedStore) = 2" by (simp add: crowd_requests)
  have h: "''Acct1'' \<in> set (hd (monitorRequests crowdedStore))"
    by (simp add: crowd_requests crowd_keys)
  have a: "rateLimited (hd (monitorRequests crowdedStore))
             = nothingOnChain (hd (monitorRequests crowdedStore))"
    by (simp add: crowd_requests crowd_keys rateLimited_def nothingOnChain_def)
  from checkAllAccounts_read_fails [where conn = rateLimited and lt = exactTenth and now = tenDays,
         OF crowd_refused]
       s crowd_unique l h a
  show ?thesis by simp
qed

text \<open>
  Claim C9 as amended. In a reconciliation run whose batched reads are all answered, a
  tracked account that is active and that the answer to its request reports gone gets
  exactly one status change in the result, active to closed with new balance 0, and its
  stored row ends closed, with \<open>closedAt\<close> the time of the run and balance 0. When one of
  the batched reads of the run fails, the run records no status change and leaves the
  store as it was.
\<close>

theorem C9_gone_active_account_is_closed:
  assumes "uniqueAddresses db"
    and "getAccount db pk = Some acc"
    and "status acc = ACTIVE"
    and "checkAllAccounts lt now conn db = (res, db')"
  shows "((\<forall>b \<in> set (monitorRequests db).
             \<exists>chain. conn b = Inr chain \<and> (pk \<in> set b \<longrightarrow> chain pk = None)) \<longrightarrow>
            filter (\<lambda>sc. sc_pubkey sc = pk) (statusChanges res)
              = [\<lparr>sc_pubkey = pk, previousStatus = ACTIVE, newStatus = CLOSED,
                  previousRent = rentLamports acc, newRent = 0,
                  sc_reason = ''Account no longer exists on-chain''\<rparr>]
            \<and> (\<exists>a'. getAccount db' pk = Some a'
                    \<and> status a' = CLOSED \<and> closedAt a' = Some now \<and> rentLamports a' = 0))
         \<and> ((\<exists>b \<in> set (monitorRequests db). isl (conn b)) \<longrightarrow> statusChanges res = [] \<and> db' = db)"
proof (intro conjI impI)
  assume answered: "\<forall>b \<in> set (monitorRequests db).
             \<exists>chain. conn b = Inr chain \<and> (pk \<in> set b \<longrightarrow> chain pk = None)"
  let ?accs = "getAccounts db (noFilter\<lparr>f_status := [ACTIVE, INACTIVE]\<rparr>)"
  from getAccount_pubkey [OF assms(2)] have pk: "pubkey acc = pk"
    and row: "acc \<in> set (tracked_accounts db)" by simp_all
  from row assms(3) have mem: "acc \<in> set ?accs"
    by (simp add: getAccounts_set matchesFilter_def noFilter_def)
  then have ne: "?accs \<noteq> []" by auto
  from mem pk have "pk \<in> set (map pubkey ?accs)" by force
  from getMultipleAccountsInfo_answered [OF answered [unfolded monitorRequests_def monitoredKeys_def] this]
  obtain infos where rd: "getMultipleAccountsInfo conn (map pubkey ?accs) = Inr infos"
    and inf: "infos pk = Some (toAccountInfo pk None)" by blast
  from assms(4) ne rd
  have f: "foldl (\<lambda>st a. checkOne lt now infos a st) (emptyMonitorResult, db) ?accs = (res, db')"
    by (simp add: checkAllAccounts_def Let_def)
  have gone: "\<not> exists (toAccountInfo pk None)" by (simp add: toAccountInfo_def)
  from inf pk have inf': "infos (pubkey acc) = Some (toAccountInfo pk None)" by simp
  from assms(2) pk have g: "getAccount db (pubkey acc) = Some acc" by simp
  from fold_checkOne_gone [OF getAccounts_distinct [OF assms(1)] mem inf' gone assms(3) g f] pk
  have both: "filter (\<lambda>sc. sc_pubkey sc = pk) (statusChanges res)
              = [\<lparr>sc_pubkey = pk, previousStatus = ACTIVE, newStatus = CLOSED,
                  previousRent = rentLamports acc, newRent = 0,
                  sc_reason = ''Account no longer exists on-chain''\<rparr>]
            \<and> (\<exists>a'. getAccount db' pk = Some a'
                    \<and> status a' = CLOSED \<and> closedAt a' = Some now \<and> rentLamports a' = 0)"
    by (simp add: emptyMonitorResult_def)
  from both show "filter (\<lambda>sc. sc_pubkey sc = pk) (statusChanges res)
              = [\<lparr>sc_pubkey = pk, previousStatus = ACTIVE, newStatus = CLOSED,
                  previousRent = rentLamports acc, newRent = 0,
                  sc_reason = ''Account no longer exists on-chain''\<rparr>]" by simp
  from both show "\<exists>a'. getAccount db' pk = Some a'
                    \<and> status a' = CLOSED \<and> closedAt a' = Some now \<and> rentLamports a' = 0" by simp
next
  assume "\<exists>b \<in> set (monitorRequests db). isl (conn b)"
  then obtain b where "b \<in> set (monitorRequests db)" and "isl (conn b)" by blast
  from checkAllAccounts_read_fails [where conn = conn and lt = lt and now = now, OF this] assms(4)
  show "statusChanges res = []" by simp
next
  assume "\<exists>b \<in> set (monitorRequests db). isl (conn b)"
  then obtain b where "b \<in> set (monitorRequests db)" and "isl (conn b)" by blast
  from checkAllAccounts_read_fails [where conn = conn and lt = lt and now = now, OF this] assms(4)
  show "db' = db" by simp
qed

text \<open>
  Two instances. The store holds one active account and the ledger has no account at all:
  the account is closed. The store holds 101 active accounts and the second request of
  the run is refused: nothing is recorded.
\<close>

theorem C9_witness:
  "uniqueAddresses (storeOf activeAccount)
   \<and> getAccount (storeOf activeAccount) ''Acct1'' = Some activeAccount
   \<and> status activeAccount = ACTIVE
   \<and> monitorRequests (storeOf activeAccount) = [[''Acct1'']]
   \<and> nothingOnChain [''Acct1''] = Inr (\<lambda>pk. None)
   \<and> statusChanges (fst (checkAllAccounts exactTenth tenDays nothingOnChain (storeOf activeAccount)))
        = [\<lparr>sc_pubkey = ''Acct1'', previousStatus = ACTIVE, newStatus = CLOSED,
            previousRent = 2039280, newRent = 0,
            sc_reason = ''Account no longer exists on-chain''\<rparr>]
   \<and> map status (tracked_accounts (snd (checkAllAccounts exactTenth tenDays nothingOnChain
                                          (storeOf activeAccount)))) = [CLOSED]
   \<and> map closedAt (tracked_accounts (snd (checkAllAccounts exactTenth tenDays nothingOnChain
                                          (storeOf activeAccount)))) = [Some tenDays]
   \<and> map rentLamports (tracked_accounts (snd (checkAllAccounts exactTenth tenDays nothingOnChain
                                          (storeOf activeAccount)))) = [0]
   \<and> uniqueAddresses crowdedStore
   \<and> getAccount crowdedStore ''Acct1'' = Some activeAccount
   \<and> isl (rateLimited (drop 100 (monitoredKeys crowdedStore)))
   \<and> checkAllAccounts exactTenth tenDays rateLimited crowdedStore
        = (fst (checkAllAccounts exactTenth tenDays rateLimited crowdedStore)\<lparr>statusChanges := []\<rparr>,
           crowdedStore)"
proof -
  have u: "uniqueAddresses (storeOf activeAccount)"
    by (simp add: uniqueAddresses_def storeOf_def emptyDatabase_def)
  have g: "getAccount (storeOf activeAccount) ''Acct1'' = Some activeAccount"
    by (simp add: getAccount_def storeOf_def emptyDatabase_def activeAccount_def)
  have a: "status activeAccount = ACTIVE" by (simp add: activeAccount_def)
  have q: "monitorRequests (storeOf activeAccount) = [[''Acct1'']]"
    by (simp add: monitorRequests_def monitoredKeys_def getAccounts_def matchesFilter_def
          noFilter_def batches.simps storeOf_def emptyDatabase_def activeAccount_def)
  have c: "\<forall>b \<in> set (monitorRequests (storeOf activeAccount)).
             \<exists>chain. nothingOnChain b = Inr chain \<and> (''Acct1'' \<in> set b \<longrightarrow> chain ''Acct1'' = None)"
    by (simp add: nothingOnChain_def)
  obtain res db' where r: "checkAllAccounts exactTenth tenDays nothingOnChain (storeOf activeAccount) = (res, db')"
    by (cases "checkAllAccounts exactTenth tenDays nothingOnChain (storeOf activeAccount)")
  have ev: "checkAllAccounts exactTenth tenDays nothingOnChain (storeOf activeAccount)
         = (\<lparr>totalChecked = 1,
             statusChanges = [\<lparr>sc_pubkey = ''Acct1'', previousStatus = ACTIVE, newStatus = CLOSED,
                                previousRent = 2039280, newRent = 0,
                                sc_reason = ''Account no longer exists on-chain''\<rparr>],
             monitorErrors = []\<rparr>,
            storeOf (activeAccount\<lparr>status := CLOSED, closedAt := Some tenDays, lastCheckedAt := tenDays,
                                   rentLamports := 0\<rparr>))"
    by (simp add: checkAllAccounts_def getAccounts_def matchesFilter_def noFilter_def
          getMultipleAccountsInfo_def batches.simps nothingOnChain_def toAccountInfo_def
          checkOne_def detectStatusChange_def applyStatusChange_def updateAccountStatus_def
          updateAccountRent_def emptyMonitorResult_def coalesce_def
          storeOf_def emptyDatabase_def activeAccount_def SYSTEM_PROGRAM_ID_def Let_def)
  have g2: "getAccount crowdedStore ''Acct1'' = Some activeAccount"
    by (simp add: getAccount_def crowdedStore_def emptyDatabase_def activeAccount_def)
  have fails: "\<exists>b \<in> set (monitorRequests crowdedStore). isl (rateLimited b)"
    using crowd_refused by blast
  obtain res2 db2 where r2: "checkAllAccounts exactTenth tenDays rateLimited crowdedStore = (res2, db2)"
    by (cases "checkAllAccounts exactTenth tenDays rateLimited crowdedStore")
  from C9_gone_active_account_is_closed [where conn = rateLimited and pk = "''Acct1''",
         OF crowd_unique g2 a r2] fails r2
  have second: "checkAllAccounts exactTenth tenDays rateLimited crowdedStore
        = (fst (checkAllAccounts exactTenth tenDays rateLimited crowdedStore)\<lparr>statusChanges := []\<rparr>,
           crowdedStore)"
    by simp
  from C9_gone_active_account_is_closed [where conn = nothingOnChain and pk = "''Acct1''", OF u g a r]
       c u g a q ev crowd_unique g2 crowd_refused(2) second
  show ?thesis by (simp add: nothingOnChain_def storeOf_def activeAccount_def)
qed

subsection \<open>A whole run and the invariants\<close>

lemma fold_checkOne_keys:
  "map pubkey (tracked_accounts (snd (foldl (\<lambda>st a. checkOne lt now infos a st) (res, db) accs)))
     = map pubkey (tracked_accounts db)"
proof (induction accs arbitrary: res db)
  case Nil
  then show ?case by simp
next
  case (Cons a accs)
  obtain r1 d1 where s: "checkOne lt now infos a (res, db) = (r1, d1)"
    by (cases "checkOne lt now infos a (res, db)")
  with checkOne_keys [of lt now infos a res db] have "map pubkey (tracked_accounts d1) = map pubkey (tracked_accounts db)"
    by simp
  with Cons.IH [of r1 d1] s show ?case by simp
qed

lemma fold_checkOne_frame:
  "reclaim_transactions (snd (foldl (\<lambda>st a. checkOne lt now infos a st) (res, db) accs)) = reclaim_transactions db
   \<and> whitelist (snd (foldl (\<lambda>st a. checkOne lt now infos a st) (res, db) accs)) = whitelist db
   \<and> blacklist (snd (foldl (\<lambda>st a. checkOne lt now infos a st) (res, db) accs)) = blacklist db"
proof (induction accs arbitrary: res db)
  case Nil
  then show ?case by simp
next
  case (Cons a accs)
  obtain r1 d1 where s: "checkOne lt now infos a (res, db) = (r1, d1)"
    by (cases "checkOne lt now infos a (res, db)")
  with checkOne_frame [of lt now infos a res db]
  have "reclaim_transactions d1 = reclaim_transactions db" "whitelist d1 = whitelist db"
    "blacklist d1 = blacklist db"
    by simp_all
  with Cons.IH [of r1 d1] s show ?case by simp
qed

lemma fold_checkOne_reclaimedOk:
  assumes "reclaimedOk db" and "\<forall>a \<in> set accs. notReclaimed db (pubkey a)"
  shows "reclaimedOk (snd (foldl (\<lambda>st a. checkOne lt now infos a st) (res, db) accs))"
  using assms
proof (induction accs arbitrary: res db)
  case Nil
  then show ?case by simp
next
  case (Cons a accs)
  obtain r1 d1 where s: "checkOne lt now infos a (res, db) = (r1, d1)"
    by (cases "checkOne lt now infos a (res, db)")
  from Cons.prems have "notReclaimed db (pubkey a)" by simp
  from checkOne_reclaimedOk [OF Cons.prems(1) this, of lt now infos res] s
  have ok: "reclaimedOk d1" by simp
  have "\<forall>b \<in> set accs. notReclaimed d1 (pubkey b)"
  proof
    fix b assume "b \<in> set accs"
    with Cons.prems(2) have "notReclaimed db (pubkey b)" by simp
    from checkOne_notReclaimed [OF this, of lt now infos a res] s
    show "notReclaimed d1 (pubkey b)" by simp
  qed
  from Cons.IH [OF ok this, of r1] s show ?case by simp
qed

lemma fold_checkOne_statusOf_reclaimed:
  assumes "statusOf (snd (foldl (\<lambda>st a. checkOne lt now infos a st) (res, db) accs)) pk = Some RECLAIMED"
  shows "statusOf db pk = Some RECLAIMED"
  using assms
proof (induction accs arbitrary: res db)
  case Nil
  then show ?case by simp
next
  case (Cons a accs)
  obtain r1 d1 where s: "checkOne lt now infos a (res, db) = (r1, d1)"
    by (cases "checkOne lt now infos a (res, db)")
  with Cons.prems have "statusOf (snd (foldl (\<lambda>st a. checkOne lt now infos a st) (r1, d1) accs)) pk = Some RECLAIMED"
    by simp
  from Cons.IH [OF this] have "statusOf d1 pk = Some RECLAIMED" .
  with checkOne_statusOf_reclaimed [of lt now infos a res db pk] s show ?case by simp
qed

lemma checkAllAccounts_cases:
  "snd (checkAllAccounts lt now conn db) = db
   \<or> (\<exists>infos. snd (checkAllAccounts lt now conn db)
          = snd (foldl (\<lambda>st a. checkOne lt now infos a st) (emptyMonitorResult, db)
                       (getAccounts db (noFilter\<lparr>f_status := [ACTIVE, INACTIVE]\<rparr>))))"
  by (auto simp: checkAllAccounts_def Let_def split: sum.splits)

lemma checkAllAccounts_keys:
  "map pubkey (tracked_accounts (snd (checkAllAccounts lt now conn db))) = map pubkey (tracked_accounts db)"
  using checkAllAccounts_cases [of lt now conn db] by (auto simp: fold_checkOne_keys)

lemma checkAllAccounts_reclaimedOk:
  assumes "uniqueAddresses db" and "reclaimedOk db"
  shows "reclaimedOk (snd (checkAllAccounts lt now conn db))"
proof -
  have "\<forall>a \<in> set (getAccounts db (noFilter\<lparr>f_status := [ACTIVE, INACTIVE]\<rparr>)). notReclaimed db (pubkey a)"
  proof
    fix a assume "a \<in> set (getAccounts db (noFilter\<lparr>f_status := [ACTIVE, INACTIVE]\<rparr>))"
    then have "a \<in> set (tracked_accounts db)" and "status a \<noteq> RECLAIMED"
      by (auto simp: getAccounts_set matchesFilter_def noFilter_def)
    with assms(1) show "notReclaimed db (pubkey a)" by (rule unique_notReclaimed)
  qed
  from fold_checkOne_reclaimedOk [OF assms(2) this] assms(2) checkAllAccounts_cases [of lt now conn db]
  show ?thesis by auto
qed

lemma checkAllAccounts_statusOf_reclaimed:
  assumes "statusOf (snd (checkAllAccounts lt now conn db)) pk = Some RECLAIMED"
  shows "statusOf db pk = Some RECLAIMED"
  using assms checkAllAccounts_cases [of lt now conn db]
  by (auto dest: fold_checkOne_statusOf_reclaimed)

lemma checkAllAccounts_keeps_reclaimed:
  assumes "uniqueAddresses db" and "statusOf db pk = Some RECLAIMED"
  shows "statusOf (snd (checkAllAccounts lt now conn db)) pk = Some RECLAIMED"
proof -
  let ?accs = "getAccounts db (noFilter\<lparr>f_status := [ACTIVE, INACTIVE]\<rparr>)"
  from assms(2) obtain a where a: "getAccount db pk = Some a" and st: "status a = RECLAIMED"
    by (auto simp: statusOf_def)
  have "pk \<notin> set (map pubkey ?accs)"
  proof
    assume "pk \<in> set (map pubkey ?accs)"
    then obtain b where b: "b \<in> set ?accs" and "pubkey b = pk" by auto
    then have "b \<in> set (tracked_accounts db)" and nb: "status b \<noteq> RECLAIMED"
      by (auto simp: getAccounts_set matchesFilter_def noFilter_def)
    from unique_getAccount [OF assms(1) this(1)] \<open>pubkey b = pk\<close> a have "b = a" by simp
    with st nb show False by simp
  qed
  have "\<And>infos. getAccount (snd (foldl (\<lambda>st a. checkOne lt now infos a st) (emptyMonitorResult, db) ?accs)) pk
                 = getAccount db pk"
  proof -
    fix infos
    obtain r d where f: "foldl (\<lambda>st a. checkOne lt now infos a st) (emptyMonitorResult, db) ?accs = (r, d)"
      by (cases "foldl (\<lambda>st a. checkOne lt now infos a st) (emptyMonitorResult, db) ?accs")
    from fold_checkOne_other [OF \<open>pk \<notin> set (map pubkey ?accs)\<close> f] f
    show "getAccount (snd (foldl (\<lambda>st a. checkOne lt now infos a st) (emptyMonitorResult, db) ?accs)) pk
                 = getAccount db pk" by simp
  qed
  with checkAllAccounts_cases [of lt now conn db] assms(2) show ?thesis
    by (auto simp: statusOf_def)
qed

subsection \<open>A single check\<close>

lemma checkSingleAccount_cases:
  "snd (checkSingleAccount lt now conn db pk) = db
   \<or> (\<exists>acc info sc. getAccount db pk = Some acc \<and> detectStatusChange lt acc info = Some sc
        \<and> snd (checkSingleAccount lt now conn db pk) = applyStatusChange db pk sc now)"
  by (auto simp: checkSingleAccount_def split: option.splits sum.splits)


section \<open>What a reclaim writes\<close>

lemma checkEligibility_writes:
  assumes "checkEligibility config now conn db pk = (r, db1)"
  shows "db1 = db
         \<or> (conn = Inr None \<and> statusOf db pk \<noteq> Some RECLAIMED
            \<and> db1 = updateAccountStatus db pk CLOSED (Some now) now)"
  using assms
  by (auto simp: checkEligibility_def getAccountInfo_def toAccountInfo_def Let_def statusOf_def
           split: option.splits if_splits sum.splits)

lemma checkEligibility_reclaimed:
  assumes "statusOf db pk = Some RECLAIMED"
  shows "\<exists>e. checkEligibility config now conn db pk = (Inr e, db) \<and> \<not> eligible e"
  using assms
  by (auto simp: checkEligibility_def statusOf_def ineligible_def split: option.splits)

lemma checkEligibility_eligible:
  assumes "checkEligibility config now conn db pk = (Inr e, db1)" and "eligible e"
  shows "statusOf db pk \<noteq> None \<and> statusOf db pk \<noteq> Some RECLAIMED"
  using assms
  by (auto simp: checkEligibility_def statusOf_def ineligible_def Let_def
           split: option.splits if_splits sum.splits)

lemma reclaim_writes:
  assumes "reclaimSingleAccount config keypair now conn1 conn2 conn3 send db pk forceDryRun = (r, db', sent)"
    and "checkEligibility config now conn1 db pk = (er, db1)"
  shows "db' = db1
         \<or> (\<exists>t. db' = recordReclaimTransaction db1 t)
         \<or> (\<exists>t e res. db' = updateAccountRent
                               (updateAccountStatus (recordReclaimTransaction db1 t) pk RECLAIMED None now)
                               pk 0 now
               \<and> accountPubkey t = pk \<and> success t \<and> er = Inr e \<and> eligible e
               \<and> r = Inr res \<and> rr_success res \<and> \<not> rr_dryRun res)"
proof (cases er)
  case (Inl e)
  with assms show ?thesis by (auto simp: reclaimSingleAccount_def)
next
  case (Inr e)
  show ?thesis
  proof (cases "eligible e")
    case False
    with assms Inr show ?thesis by (auto simp: reclaimSingleAccount_def Let_def)
  next
    case True
    with assms Inr show ?thesis
      by (auto simp: reclaimSingleAccount_def Let_def failed_def split: sum.splits if_splits prod.splits)
  qed
qed

lemma reclaim_success_live:
  assumes "reclaimSingleAccount config keypair now conn1 conn2 conn3 send db pk forceDryRun = (Inr res, db', sent)"
    and "rr_success res" and "\<not> rr_dryRun res"
    and "checkEligibility config now conn1 db pk = (er, db1)"
  shows "\<exists>t e. db' = updateAccountRent
                       (updateAccountStatus (recordReclaimTransaction db1 t) pk RECLAIMED None now)
                       pk 0 now
             \<and> accountPubkey t = pk \<and> success t \<and> er = Inr e \<and> eligible e"
proof (cases er)
  case (Inl e)
  with assms show ?thesis by (auto simp: reclaimSingleAccount_def)
next
  case (Inr e)
  show ?thesis
  proof (cases "eligible e")
    case False
    with assms Inr show ?thesis by (auto simp: reclaimSingleAccount_def Let_def failed_def)
  next
    case True
    with assms Inr show ?thesis
      by (auto simp: reclaimSingleAccount_def Let_def failed_def split: sum.splits if_splits prod.splits)
  qed
qed


section \<open>Every operation and the invariants\<close>

lemma uniqueAddresses_keys:
  "map pubkey (tracked_accounts db') = map pubkey (tracked_accounts db) \<Longrightarrow>
     uniqueAddresses db' = uniqueAddresses db"
  by (simp add: uniqueAddresses_def)

lemma keys_checkSingleAccount:
  "map pubkey (tracked_accounts (snd (checkSingleAccount lt now conn db pk))) = map pubkey (tracked_accounts db)"
  using checkSingleAccount_cases [of lt now conn db pk] by (auto simp: keys_applyStatusChange)

lemma keys_checkEligibility:
  "map pubkey (tracked_accounts (snd (checkEligibility config now conn db pk))) = map pubkey (tracked_accounts db)"
proof -
  obtain r db1 where c: "checkEligibility config now conn db pk = (r, db1)"
    by (cases "checkEligibility config now conn db pk")
  from checkEligibility_writes [OF c] c show ?thesis by (auto simp: keys_updateAccountStatus)
qed

lemma keys_recordReclaimTransaction:
  "map pubkey (tracked_accounts (recordReclaimTransaction db t)) = map pubkey (tracked_accounts db)"
  by (simp add: recordReclaimTransaction_def)

lemma keys_reclaimSingleAccount:
  "map pubkey (tracked_accounts (fst (snd (reclaimSingleAccount config keypair now conn1 conn2 conn3 send db pk fd))))
     = map pubkey (tracked_accounts db)"
proof -
  obtain r db' sent where rc: "reclaimSingleAccount config keypair now conn1 conn2 conn3 send db pk fd = (r, db', sent)"
    by (cases "reclaimSingleAccount config keypair now conn1 conn2 conn3 send db pk fd") auto
  obtain er db1 where c: "checkEligibility config now conn1 db pk = (er, db1)"
    by (cases "checkEligibility config now conn1 db pk")
  from keys_checkEligibility [of config now conn1 db pk] c
  have k1: "map pubkey (tracked_accounts db1) = map pubkey (tracked_accounts db)" by simp
  from reclaim_writes [OF rc c] k1 have "map pubkey (tracked_accounts db') = map pubkey (tracked_accounts db)"
    by (auto simp: keys_updateAccountRent keys_updateAccountStatus keys_recordReclaimTransaction)
  with rc show ?thesis by simp
qed

lemma exec_uniqueAddresses:
  assumes "uniqueAddresses db"
  shows "uniqueAddresses (exec config lt op db)"
proof (cases op)
  case (Discover signer now history txs reads)
  with grows_uniqueAddresses [OF discover_grows assms] show ?thesis by simp
next
  case (AddManually pk stx now conn)
  with grows_uniqueAddresses [OF addAccountManually_grows assms] show ?thesis by simp
next
  case (CheckAll now conn)
  with assms uniqueAddresses_keys [OF checkAllAccounts_keys] show ?thesis by simp
next
  case (CheckSingle pk now conn)
  with assms uniqueAddresses_keys [OF keys_checkSingleAccount] show ?thesis by simp
next
  case (Eligibility pk now conn)
  with assms uniqueAddresses_keys [OF keys_checkEligibility] show ?thesis by simp
next
  case (Reclaim pk fd keypair now conn1 conn2 conn3 send)
  with assms uniqueAddresses_keys [OF keys_reclaimSingleAccount] show ?thesis by simp
next
  case (WhitelistAdd pk why now)
  with assms show ?thesis
    by (simp add: addToWhitelist_def uniqueAddresses_def keys_updateAccountStatus)
next
  case (WhitelistRemove pk)
  with assms show ?thesis by (simp add: removeFromWhitelist_def uniqueAddresses_def)
next
  case (BlacklistAdd pk why now)
  with assms show ?thesis by (simp add: addToBlacklist_def uniqueAddresses_def)
qed

lemma reclaimedOk_checkEligibility:
  assumes "reclaimedOk db"
  shows "reclaimedOk (snd (checkEligibility config now conn db pk))"
proof -
  obtain r db1 where c: "checkEligibility config now conn db pk = (r, db1)"
    by (cases "checkEligibility config now conn db pk")
  from checkEligibility_writes [OF c] c assms show ?thesis
    by (auto simp: reclaimedOk_updateAccountStatus)
qed

lemma reclaimedOk_reclaimSingleAccount:
  assumes "reclaimedOk db"
  shows "reclaimedOk (fst (snd (reclaimSingleAccount config keypair now conn1 conn2 conn3 send db pk fd)))"
proof -
  obtain r db' sent where rc: "reclaimSingleAccount config keypair now conn1 conn2 conn3 send db pk fd = (r, db', sent)"
    by (cases "reclaimSingleAccount config keypair now conn1 conn2 conn3 send db pk fd") auto
  obtain er db1 where c: "checkEligibility config now conn1 db pk = (er, db1)"
    by (cases "checkEligibility config now conn1 db pk")
  from reclaimedOk_checkEligibility [OF assms, of config now conn1 pk] c
  have ok1: "reclaimedOk db1" by simp
  from reclaim_writes [OF rc c]
  consider "db' = db1" | t where "db' = recordReclaimTransaction db1 t"
    | t where "db' = updateAccountRent
                       (updateAccountStatus (recordReclaimTransaction db1 t) pk RECLAIMED None now) pk 0 now"
        and "accountPubkey t = pk" and "success t"
    by blast
  then have "reclaimedOk db'"
  proof cases
    case 1
    with ok1 show ?thesis by simp
  next
    case 2
    with ok1 show ?thesis by (simp add: reclaimedOk_recordReclaimTransaction)
  next
    case 3
    have "list_ex (\<lambda>t'. accountPubkey t' = pk \<and> success t')
            (reclaim_transactions (recordReclaimTransaction db1 t))"
      using 3(2,3) by (simp add: recordReclaimTransaction_def)
    from reclaimedOk_mark_reclaimed [OF reclaimedOk_recordReclaimTransaction [OF ok1] this] 3(1)
    show ?thesis by simp
  qed
  with rc show ?thesis by simp
qed

lemma reclaimedOk_checkSingleAccount:
  assumes "reclaimedOk db"
  shows "reclaimedOk (snd (checkSingleAccount lt now conn db pk))"
  using checkSingleAccount_cases [of lt now conn db pk] assms
  by (auto simp: reclaimedOk_applyStatusChange dest: detectStatusChange_Some)

lemma reclaimedOk_lists:
  "reclaimedOk (db\<lparr>whitelist := w\<rparr>) = reclaimedOk db"
  "reclaimedOk (db\<lparr>blacklist := b\<rparr>) = reclaimedOk db"
  by (simp_all add: reclaimedOk_def)

lemma exec_reclaimedOk:
  assumes "uniqueAddresses db" and "reclaimedOk db"
  shows "reclaimedOk (exec config lt op db)"
proof (cases op)
  case (Discover signer now history txs reads)
  with grows_reclaimedOk [OF discover_grows assms(2)] show ?thesis by simp
next
  case (AddManually pk stx now conn)
  with grows_reclaimedOk [OF addAccountManually_grows assms(2)] show ?thesis by simp
next
  case (CheckAll now conn)
  with checkAllAccounts_reclaimedOk [OF assms] show ?thesis by simp
next
  case (CheckSingle pk now conn)
  with reclaimedOk_checkSingleAccount [OF assms(2)] show ?thesis by simp
next
  case (Eligibility pk now conn)
  with reclaimedOk_checkEligibility [OF assms(2)] show ?thesis by simp
next
  case (Reclaim pk fd keypair now conn1 conn2 conn3 send)
  with reclaimedOk_reclaimSingleAccount [OF assms(2)] show ?thesis by simp
next
  case (WhitelistAdd pk why now)
  with assms(2) show ?thesis
    by (simp add: addToWhitelist_def reclaimedOk_updateAccountStatus reclaimedOk_lists)
next
  case (WhitelistRemove pk)
  with assms(2) show ?thesis by (simp add: removeFromWhitelist_def reclaimedOk_lists)
next
  case (BlacklistAdd pk why now)
  with assms(2) show ?thesis by (simp add: addToBlacklist_def reclaimedOk_lists)
qed

lemma run_invariants:
  assumes "uniqueAddresses db" and "reclaimedOk db"
  shows "uniqueAddresses (run config lt ops db) \<and> reclaimedOk (run config lt ops db)"
  using assms
proof (induction ops arbitrary: db)
  case Nil
  then show ?case by (simp add: run_def)
next
  case (Cons op ops)
  from Cons.IH [OF exec_uniqueAddresses [OF Cons.prems(1)] exec_reclaimedOk [OF Cons.prems]]
  show ?case by (simp add: run_def)
qed

lemma getAccount_recordReclaimTransaction:
  "getAccount (recordReclaimTransaction db t) pk = getAccount db pk"
  by (simp add: getAccount_def recordReclaimTransaction_def)

lemma reclaim_success_marks:
  assumes "reclaimSingleAccount config keypair now conn1 conn2 conn3 send db pk fd = (Inr res, db', sent)"
    and "rr_success res" and "\<not> rr_dryRun res"
  shows "(\<exists>a. getAccount db' pk = Some a \<and> status a = RECLAIMED \<and> rentLamports a = 0)
         \<and> list_ex (\<lambda>t. accountPubkey t = pk \<and> success t) (reclaim_transactions db')"
proof -
  obtain er db1 where c: "checkEligibility config now conn1 db pk = (er, db1)"
    by (cases "checkEligibility config now conn1 db pk")
  from reclaim_success_live [OF assms c] obtain t e
    where d: "db' = updateAccountRent
                       (updateAccountStatus (recordReclaimTransaction db1 t) pk RECLAIMED None now) pk 0 now"
      and t: "accountPubkey t = pk" "success t" and e: "er = Inr e" "eligible e" by blast
  from checkEligibility_eligible [OF c [unfolded e(1)] e(2)] obtain a0 where a0: "getAccount db pk = Some a0"
    by (auto simp: statusOf_def)
  from checkEligibility_writes [OF c] a0 obtain a1 where a1: "getAccount db1 pk = Some a1"
    by (auto simp: getAccount_updateAccountStatus)
  from d a1 have "\<exists>a. getAccount db' pk = Some a \<and> status a = RECLAIMED \<and> rentLamports a = 0"
    by (simp add: getAccount_updateAccountRent getAccount_updateAccountStatus
                  getAccount_recordReclaimTransaction)
  moreover from d t have "list_ex (\<lambda>t. accountPubkey t = pk \<and> success t) (reclaim_transactions db')"
    by (simp add: updateAccountRent_frame updateAccountStatus_frame recordReclaimTransaction_def)
  ultimately show ?thesis by simp
qed

text \<open>
  Claim C4. Every operation keeps the invariant: in a store with unique addresses where
  every reclaimed account has balance 0 and a successful row in the reclaim log, the same
  holds after any operation; so it holds in every store reached from the empty one. The
  success path of a live reclaim establishes it: the account it marks reclaimed has
  balance 0 and a successful row.
\<close>

theorem C4_reclaimed_accounts_are_empty_and_logged:
  assumes "uniqueAddresses db" and "reclaimedOk db"
  shows "uniqueAddresses (exec config lt op db) \<and> reclaimedOk (exec config lt op db)
         \<and> reclaimedOk (run config lt ops emptyDatabase)
         \<and> (\<forall>res db' sent.
               reclaimSingleAccount config keypair now conn1 conn2 conn3 send db pk forceDryRun
                 = (Inr res, db', sent) \<and> rr_success res \<and> \<not> rr_dryRun res \<longrightarrow>
               (\<exists>a. getAccount db' pk = Some a \<and> status a = RECLAIMED \<and> rentLamports a = 0)
               \<and> list_ex (\<lambda>t. accountPubkey t = pk \<and> success t) (reclaim_transactions db'))"
proof -
  have "uniqueAddresses emptyDatabase" and "reclaimedOk emptyDatabase"
    by (simp_all add: uniqueAddresses_def reclaimedOk_def emptyDatabase_def)
  from run_invariants [OF this] have "reclaimedOk (run config lt ops emptyDatabase)" by simp
  with exec_uniqueAddresses [OF assms(1)] exec_reclaimedOk [OF assms] reclaim_success_marks
  show ?thesis by blast
qed

text \<open>
  An instance: the operator's own wallet is tracked, still exists with 50000 lamports, and a
  treasury is configured. A live reclaim of it succeeds: the transfer is signed by the
  account it debits. Afterwards the account is reclaimed, its balance is 0 and the log
  holds the successful row.
\<close>

theorem C4_witness:
  "uniqueAddresses (storeOf operatorWallet) \<and> reclaimedOk (storeOf operatorWallet)
   \<and> reclaimSingleAccount treasuryConfig (Some ''Operator'') tenDays
        (Inr (Some systemOwned)) (Inr (Some systemOwned)) (Inr (Some systemOwned))
        accepts (storeOf operatorWallet) ''Operator'' (Some False)
      = (Inr \<lparr>rr_success = True, rr_accountPubkey = ''Operator'', rr_txSignature = Some ''tx1'',
              rr_lamportsReclaimed = Some 50000, rr_error = None, rr_dryRun = False\<rparr>,
         reclaimedWalletStore,
         [SystemTransfer ''Operator'' ''Treasury'' 50000])
   \<and> reclaimedOk (reclaimedWalletStore)
   \<and> reclaimedOk (run treasuryConfig exactTenth
        [Reclaim ''Operator'' (Some False) (Some ''Operator'') tenDays
           (Inr (Some systemOwned)) (Inr (Some systemOwned)) (Inr (Some systemOwned)) accepts]
        emptyDatabase)"
proof -
  have u: "uniqueAddresses (storeOf operatorWallet)"
    by (simp add: uniqueAddresses_def storeOf_def emptyDatabase_def)
  have r: "reclaimedOk (storeOf operatorWallet)"
    by (simp add: reclaimedOk_def storeOf_def emptyDatabase_def operatorWallet_def)
  have ev: "reclaimSingleAccount treasuryConfig (Some ''Operator'') tenDays
        (Inr (Some systemOwned)) (Inr (Some systemOwned)) (Inr (Some systemOwned))
        accepts (storeOf operatorWallet) ''Operator'' (Some False)
      = (Inr \<lparr>rr_success = True, rr_accountPubkey = ''Operator'', rr_txSignature = Some ''tx1'',
              rr_lamportsReclaimed = Some 50000, rr_error = None, rr_dryRun = False\<rparr>,
         reclaimedWalletStore,
         [SystemTransfer ''Operator'' ''Treasury'' 50000])"
    by (simp add: reclaim_defs store_defs scenario_defs Let_def)
  from C4_reclaimed_accounts_are_empty_and_logged [OF u r, of treasuryConfig exactTenth
         "Reclaim ''Operator'' (Some False) (Some ''Operator'') tenDays
           (Inr (Some systemOwned)) (Inr (Some systemOwned)) (Inr (Some systemOwned)) accepts"
         "[Reclaim ''Operator'' (Some False) (Some ''Operator'') tenDays
           (Inr (Some systemOwned)) (Inr (Some systemOwned)) (Inr (Some systemOwned)) accepts]"]
       u r ev
  show ?thesis by simp
qed


section \<open>How an account becomes reclaimed, and what follows\<close>

lemma statusOf_checkEligibility:
  assumes "statusOf (snd (checkEligibility config now conn db pk')) pk = Some RECLAIMED"
  shows "statusOf db pk = Some RECLAIMED"
proof -
  obtain r db1 where c: "checkEligibility config now conn db pk' = (r, db1)"
    by (cases "checkEligibility config now conn db pk'")
  from checkEligibility_writes [OF c] c assms show ?thesis
    by (auto simp: statusOf_updateAccountStatus split: if_splits)
qed

lemma statusOf_checkSingleAccount:
  assumes "statusOf (snd (checkSingleAccount lt now conn db pk')) pk = Some RECLAIMED"
  shows "statusOf db pk = Some RECLAIMED"
  using checkSingleAccount_cases [of lt now conn db pk'] assms
  by (auto simp: statusOf_applyStatusChange dest: detectStatusChange_Some split: if_splits)

lemma statusOf_lists:
  "statusOf (db\<lparr>whitelist := w\<rparr>) pk = statusOf db pk"
  "statusOf (db\<lparr>blacklist := b\<rparr>) pk = statusOf db pk"
  by (simp_all add: statusOf_def getAccount_def)

text \<open>
  Claim C5 fails as stated. The operator's own wallet, tracked as active and still on the
  ledger with a balance below the threshold, is eligible; a live reclaim of it, whose
  transfer the operator signs for the account it debits, succeeds and takes the address
  from active to reclaimed directly.
\<close>

theorem C5_active_account_becomes_reclaimed:
  "statusOf (storeOf operatorWallet) ''Operator'' = Some ACTIVE
   \<and> statusOf (exec treasuryConfig exactTenth
                  (Reclaim ''Operator'' (Some False) (Some ''Operator'') tenDays
                     (Inr (Some systemOwned)) (Inr (Some systemOwned)) (Inr (Some systemOwned)) accepts)
                  (storeOf operatorWallet)) ''Operator'' = Some RECLAIMED"
  by (simp add: reclaim_defs store_defs scenario_defs statusOf_def Let_def)

text \<open>
  Claim C5 as amended. An address that is reclaimed after an operation and was not before
  it was tracked, and the operation was a reclaim of that address that returned success in
  live mode. Its status before is not constrained further.
\<close>

theorem C5_reclaimed_only_by_successful_live_reclaim:
  assumes "statusOf (exec config lt op db) pk = Some RECLAIMED"
    and "statusOf db pk \<noteq> Some RECLAIMED"
  shows "\<exists>forceDryRun keypair now conn1 conn2 conn3 send res.
           op = Reclaim pk forceDryRun keypair now conn1 conn2 conn3 send
           \<and> fst (reclaimSingleAccount config keypair now conn1 conn2 conn3 send db pk forceDryRun) = Inr res
           \<and> rr_success res \<and> \<not> rr_dryRun res \<and> statusOf db pk \<noteq> None"
proof (cases op)
  case (Discover signer now history txs reads)
  with grows_statusOf_reclaimed [OF discover_grows] assms show ?thesis by auto
next
  case (AddManually pk' stx now conn)
  with grows_statusOf_reclaimed [OF addAccountManually_grows] assms show ?thesis by auto
next
  case (CheckAll now conn)
  with checkAllAccounts_statusOf_reclaimed assms show ?thesis by auto
next
  case (CheckSingle pk' now conn)
  with statusOf_checkSingleAccount assms show ?thesis by auto
next
  case (Eligibility pk' now conn)
  with statusOf_checkEligibility assms show ?thesis by auto
next
  case (Reclaim pk' fd keypair now conn1 conn2 conn3 send)
  obtain r db' sent where rc: "reclaimSingleAccount config keypair now conn1 conn2 conn3 send db pk' fd = (r, db', sent)"
    by (cases "reclaimSingleAccount config keypair now conn1 conn2 conn3 send db pk' fd") auto
  obtain er db1 where c: "checkEligibility config now conn1 db pk' = (er, db1)"
    by (cases "checkEligibility config now conn1 db pk'")
  from assms(1) Reclaim rc have after: "statusOf db' pk = Some RECLAIMED" by simp
  from statusOf_checkEligibility [of config now conn1 db pk' pk] c assms(2)
  have s1: "statusOf db1 pk \<noteq> Some RECLAIMED" by auto
  from reclaim_writes [OF rc c]
  consider "db' = db1" | t where "db' = recordReclaimTransaction db1 t"
    | t e res where "db' = updateAccountRent
                       (updateAccountStatus (recordReclaimTransaction db1 t) pk' RECLAIMED None now) pk' 0 now"
        and "er = Inr e" and "eligible e" and "r = Inr res" and "rr_success res" and "\<not> rr_dryRun res"
    by blast
  then show ?thesis
  proof cases
    case 1
    with after s1 show ?thesis by simp
  next
    case 2
    with after s1 show ?thesis by (simp add: statusOf_recordReclaimTransaction)
  next
    case 3
    from 3(1) after s1 have "pk' = pk"
      by (auto simp: statusOf_updateAccountRent statusOf_updateAccountStatus
                     statusOf_recordReclaimTransaction split: if_splits)
    moreover from checkEligibility_eligible [OF c [unfolded 3(2)] 3(3)]
    have "statusOf db pk' \<noteq> None" by simp
    ultimately show ?thesis using Reclaim rc 3 by simp
  qed
next
  case (WhitelistAdd pk' why now)
  with assms show ?thesis
    by (auto simp: addToWhitelist_def statusOf_updateAccountStatus statusOf_lists split: if_splits)
next
  case (WhitelistRemove pk')
  with assms show ?thesis by (simp add: removeFromWhitelist_def statusOf_lists)
next
  case (BlacklistAdd pk' why now)
  with assms show ?thesis by (simp add: addToBlacklist_def statusOf_lists)
qed

text \<open>An instance: the live reclaim of the counterexample.\<close>

theorem C5_witness:
  "statusOf (exec treasuryConfig exactTenth
                  (Reclaim ''Operator'' (Some False) (Some ''Operator'') tenDays
                     (Inr (Some systemOwned)) (Inr (Some systemOwned)) (Inr (Some systemOwned)) accepts)
                  (storeOf operatorWallet)) ''Operator'' = Some RECLAIMED
   \<and> statusOf (storeOf operatorWallet) ''Operator'' = Some ACTIVE
   \<and> fst (reclaimSingleAccount treasuryConfig (Some ''Operator'') tenDays
        (Inr (Some systemOwned)) (Inr (Some systemOwned)) (Inr (Some systemOwned))
        accepts (storeOf operatorWallet) ''Operator'' (Some False))
      = Inr \<lparr>rr_success = True, rr_accountPubkey = ''Operator'', rr_txSignature = Some ''tx1'',
             rr_lamportsReclaimed = Some 50000, rr_error = None, rr_dryRun = False\<rparr>"
proof -
  have a: "statusOf (exec treasuryConfig exactTenth
                  (Reclaim ''Operator'' (Some False) (Some ''Operator'') tenDays
                     (Inr (Some systemOwned)) (Inr (Some systemOwned)) (Inr (Some systemOwned)) accepts)
                  (storeOf operatorWallet)) ''Operator'' = Some RECLAIMED"
    by (simp add: reclaim_defs store_defs scenario_defs statusOf_def Let_def)
  have b: "statusOf (storeOf operatorWallet) ''Operator'' \<noteq> Some RECLAIMED"
    by (simp add: store_defs scenario_defs statusOf_def)
  have c: "statusOf (storeOf operatorWallet) ''Operator'' = Some ACTIVE"
    by (simp add: store_defs scenario_defs statusOf_def)
  have ev: "fst (reclaimSingleAccount treasuryConfig (Some ''Operator'') tenDays
        (Inr (Some systemOwned)) (Inr (Some systemOwned)) (Inr (Some systemOwned))
        accepts (storeOf operatorWallet) ''Operator'' (Some False))
      = Inr \<lparr>rr_success = True, rr_accountPubkey = ''Operator'', rr_txSignature = Some ''tx1'',
             rr_lamportsReclaimed = Some 50000, rr_error = None, rr_dryRun = False\<rparr>"
    by (simp add: reclaim_defs store_defs scenario_defs Let_def)
  from C5_reclaimed_only_by_successful_live_reclaim [OF a b] a c ev show ?thesis by simp
qed

text \<open>
  Claim C10 fails as stated. Adding a reclaimed address to the allow-list sets its stored
  status to whitelisted.
\<close>

theorem C10_allow_list_add_changes_reclaimed:
  "statusOf reclaimedStore ''Acct1'' = Some RECLAIMED
   \<and> statusOf (exec defaultConfig exactTenth (WhitelistAdd ''Acct1'' None tenDays) reclaimedStore)
        ''Acct1'' = Some WHITELISTED"
  by (simp add: addToWhitelist_def insert_or_replace_def store_defs scenario_defs statusOf_def)

text \<open>
  Claim C10 as amended. In a store with unique addresses, a reclaimed address stays
  reclaimed under every operation but one: Discovery, a manual add, Reconciliation (a run
  or a single check), the eligibility check, the Reclaim Executor, allow-list removal and
  deny-list add leave its status; an allow-list add of the address sets it to whitelisted.
\<close>

theorem C10_reclaimed_changes_only_by_allow_list_add:
  assumes "uniqueAddresses db" and "statusOf db pk = Some RECLAIMED"
  shows "statusOf (exec config lt op db) pk = Some RECLAIMED
         \<or> (\<exists>why now. op = WhitelistAdd pk why now
               \<and> statusOf (exec config lt op db) pk = Some WHITELISTED)"
proof (cases op)
  case (Discover signer now history txs reads)
  with grows_statusOf_kept [OF discover_grows assms(2)] show ?thesis by simp
next
  case (AddManually pk' stx now conn)
  with grows_statusOf_kept [OF addAccountManually_grows assms(2)] show ?thesis by simp
next
  case (CheckAll now conn)
  with checkAllAccounts_keeps_reclaimed [OF assms] show ?thesis by simp
next
  case (CheckSingle pk' now conn)
  from checkSingleAccount_cases [of lt now conn db pk']
  consider "snd (checkSingleAccount lt now conn db pk') = db"
    | acc info sc where "getAccount db pk' = Some acc" and "detectStatusChange lt acc info = Some sc"
        and "snd (checkSingleAccount lt now conn db pk') = applyStatusChange db pk' sc now"
    by blast
  then have "statusOf (snd (checkSingleAccount lt now conn db pk')) pk = Some RECLAIMED"
  proof cases
    case 1
    with assms(2) show ?thesis by simp
  next
    case 2
    from detectStatusChange_Some [OF 2(2)] have "status acc \<noteq> RECLAIMED" by simp
    with 2(1) assms(2) have "pk' \<noteq> pk" by (auto simp: statusOf_def)
    with 2(3) assms(2) show ?thesis by (simp add: statusOf_applyStatusChange)
  qed
  with CheckSingle show ?thesis by simp
next
  case (Eligibility pk' now conn)
  obtain r db1 where c: "checkEligibility config now conn db pk' = (r, db1)"
    by (cases "checkEligibility config now conn db pk'")
  from checkEligibility_writes [OF c] assms(2) have "statusOf db1 pk = Some RECLAIMED"
    by (auto simp: statusOf_updateAccountStatus)
  with Eligibility c show ?thesis by simp
next
  case (Reclaim pk' fd keypair now conn1 conn2 conn3 send)
  obtain r db' sent where rc: "reclaimSingleAccount config keypair now conn1 conn2 conn3 send db pk' fd = (r, db', sent)"
    by (cases "reclaimSingleAccount config keypair now conn1 conn2 conn3 send db pk' fd") auto
  obtain er db1 where c: "checkEligibility config now conn1 db pk' = (er, db1)"
    by (cases "checkEligibility config now conn1 db pk'")
  from checkEligibility_writes [OF c] assms(2) have s1: "statusOf db1 pk = Some RECLAIMED"
    by (auto simp: statusOf_updateAccountStatus)
  from reclaim_writes [OF rc c] s1 have "statusOf db' pk = Some RECLAIMED"
    by (auto simp: statusOf_updateAccountRent statusOf_updateAccountStatus
                   statusOf_recordReclaimTransaction)
  with Reclaim rc show ?thesis by simp
next
  case (WhitelistAdd pk' why now)
  with assms(2) show ?thesis
    by (auto simp: addToWhitelist_def statusOf_updateAccountStatus statusOf_lists)
next
  case (WhitelistRemove pk')
  with assms(2) show ?thesis by (simp add: removeFromWhitelist_def statusOf_lists)
next
  case (BlacklistAdd pk' why now)
  with assms(2) show ?thesis by (simp add: addToBlacklist_def statusOf_lists)
qed

text \<open>
  Two instances on a store with one reclaimed account: a reconciliation run leaves it
  reclaimed, and an allow-list add makes it whitelisted.
\<close>

theorem C10_witness:
  "uniqueAddresses reclaimedStore \<and> statusOf reclaimedStore ''Acct1'' = Some RECLAIMED
   \<and> statusOf (exec defaultConfig exactTenth (CheckAll tenDays nothingOnChain) reclaimedStore)
        ''Acct1'' = Some RECLAIMED
   \<and> statusOf (exec defaultConfig exactTenth (WhitelistAdd ''Acct1'' None tenDays) reclaimedStore)
        ''Acct1'' = Some WHITELISTED"
proof -
  have u: "uniqueAddresses reclaimedStore"
    by (simp add: uniqueAddresses_def store_defs scenario_defs)
  have s: "statusOf reclaimedStore ''Acct1'' = Some RECLAIMED"
    by (simp add: statusOf_def store_defs scenario_defs)
  have w: "statusOf (exec defaultConfig exactTenth (WhitelistAdd ''Acct1'' None tenDays) reclaimedStore)
        ''Acct1'' = Some WHITELISTED"
    by (simp add: addToWhitelist_def insert_or_replace_def store_defs scenario_defs statusOf_def)
  from C10_reclaimed_changes_only_by_allow_list_add [OF u s, of defaultConfig exactTenth
         "CheckAll tenDays nothingOnChain"]
  have "statusOf (exec defaultConfig exactTenth (CheckAll tenDays nothingOnChain) reclaimedStore)
        ''Acct1'' = Some RECLAIMED"
    by simp
  with u s w show ?thesis by simp
qed

section \<open>Discovery twice\<close>

lemma processAccount_tracked:
  assumes "getAccount db pk = Some a"
  shows "processAccount reads now sigInfo pk (res, db)
           = (res\<lparr>existingAccounts := existingAccounts res + 1, accounts := accounts res @ [a]\<rparr>, db)"
  using assms by (simp add: processAccount_def)

lemma processAccount_read_fails:
  assumes "getAccount db pk = None" and "reads pk = Inl e"
  shows "processAccount reads now sigInfo pk (res, db)
           = (res\<lparr>errors := errors res @ [''Error processing account '' @ pk @ '': '' @ thrownText e]\<rparr>, db)"
  using assms by (simp add: processAccount_def getAccountInfo_def)

lemma processAccount_settled_noop:
  assumes "settled reads db pk" and "processAccount reads now sigInfo pk (res, db) = (res', db')"
  shows "db' = db \<and> newAccounts res' = newAccounts res"
proof (cases "getAccount db pk")
  case (Some a)
  with processAccount_tracked [OF Some, of reads now sigInfo res] assms(2) show ?thesis by auto
next
  case None
  with assms(1) obtain e where e: "reads pk = Inl e" by (cases "reads pk") (auto simp: settled_def)
  from processAccount_read_fails [where reads = reads, OF None e, of now sigInfo res] assms(2)
  show ?thesis by auto
qed

lemma upsert_new_tracked:
  assumes "getAccount db pk = None"
  shows "getAccount (snd (upsertAccount db (newTrackedAccount pk created stx info now nt))) pk \<noteq> None"
proof -
  let ?acc = "newTrackedAccount pk created stx info now nt"
  have pk: "pubkey ?acc = pk" by (simp add: newTrackedAccount_def)
  with assms have "getAccount db (pubkey ?acc) = None" by simp
  from upsertAccount_insert(1) [OF this] pk show ?thesis by (simp add: getAccount_None)
qed

lemma processAccount_settles:
  assumes "processAccount reads now sigInfo pk (res, db) = (res', db')"
  shows "settled reads db' pk"
proof (cases "getAccount db pk")
  case (Some a)
  with processAccount_tracked [OF Some, of reads now sigInfo res] assms show ?thesis
    by (auto simp: settled_def)
next
  case None
  show ?thesis
  proof (cases "reads pk")
    case (Inl e)
    then show ?thesis by (simp add: settled_def)
  next
    case (Inr raw)
    with None assms upsert_new_tracked [OF None] show ?thesis
      by (auto simp: processAccount_def getAccountInfo_def Let_def settled_def case_prod_beta)
  qed
qed

lemma settled_grows:
  assumes "grows db db'" and "settled reads db pk"
  shows "settled reads db' pk"
proof (cases "getAccount db pk")
  case None
  with assms(2) show ?thesis by (simp add: settled_def)
next
  case (Some a)
  with grows_getAccount [OF assms(1) Some] show ?thesis by (simp add: settled_def)
qed

subsection \<open>The first run settles every candidate\<close>

lemma processCreated_settles:
  assumes "\<forall>c \<in> seen. settled reads db c"
    and "processCreated reads now sigInfo cs (res, db, seen) = (res', db', seen')"
  shows "(\<forall>c \<in> seen'. settled reads db' c) \<and> set cs \<subseteq> seen' \<and> seen \<subseteq> seen'"
  using assms
proof (induction cs arbitrary: res db seen)
  case Nil
  then show ?case by simp
next
  case (Cons c cs)
  show ?case
  proof (cases "c \<in> seen")
    case True
    with Cons.prems(2) have "processCreated reads now sigInfo cs (res, db, seen) = (res', db', seen')"
      by simp
    from Cons.IH [OF Cons.prems(1) this] True show ?thesis by auto
  next
    case False
    obtain r1 d1 where pa: "processAccount reads now sigInfo c (res, db) = (r1, d1)"
      by (cases "processAccount reads now sigInfo c (res, db)")
    from processAccount_grows [of db reads now sigInfo c res] pa have g: "grows db d1" by simp
    have inv: "\<forall>k \<in> insert c seen. settled reads d1 k"
    proof
      fix k assume "k \<in> insert c seen"
      then consider "k = c" | "k \<in> seen" by auto
      then show "settled reads d1 k"
      proof cases
        case 1
        with processAccount_settles [OF pa] show ?thesis by simp
      next
        case 2
        with Cons.prems(1) have "settled reads db k" by simp
        with g show ?thesis by (rule settled_grows)
      qed
    qed
    from Cons.prems(2) False pa
    have "processCreated reads now sigInfo cs (r1, d1, insert c seen) = (res', db', seen')" by simp
    from Cons.IH [OF inv this] show ?thesis by auto
  qed
qed

lemma processSignature_candidates:
  "processSignature sponsor txs reads now sigInfo (res, db, seen)
     = processCreated reads now sigInfo (candidatesOf sponsor txs sigInfo) (res, db, seen)
   \<or> (candidatesOf sponsor txs sigInfo = []
      \<and> processSignature sponsor txs reads now sigInfo (res, db, seen)
          = (res\<lparr>errors := errors res
                    @ [''Transaction fetch failed: '' @ take 20 (sig_signature sigInfo) @ ''...'']\<rparr>,
             db, seen))"
  by (auto simp: processSignature_def candidatesOf_def Let_def split: sum.splits option.splits)

lemma processSignature_settles:
  assumes "\<forall>c \<in> seen. settled reads db c"
    and "processSignature sponsor txs reads now sigInfo (res, db, seen) = (res', db', seen')"
  shows "(\<forall>c \<in> seen'. settled reads db' c) \<and> set (candidatesOf sponsor txs sigInfo) \<subseteq> seen'
         \<and> seen \<subseteq> seen'"
proof -
  from processSignature_candidates [of sponsor txs reads now sigInfo res db seen]
  consider "processSignature sponsor txs reads now sigInfo (res, db, seen)
     = processCreated reads now sigInfo (candidatesOf sponsor txs sigInfo) (res, db, seen)"
    | "candidatesOf sponsor txs sigInfo = []" and "db' = db" and "seen' = seen"
    using assms(2) by auto
  then show ?thesis
  proof cases
    case 1
    with assms(2) have "processCreated reads now sigInfo (candidatesOf sponsor txs sigInfo) (res, db, seen)
                          = (res', db', seen')" by simp
    from processCreated_settles [OF assms(1) this] show ?thesis .
  next
    case 2
    with assms(1) show ?thesis by simp
  qed
qed

lemma fold_processSignature_settles:
  assumes "\<forall>c \<in> seen. settled reads db c"
    and "foldl (\<lambda>st sigInfo. processSignature sponsor txs reads now sigInfo st) (res, db, seen) sigs
           = (res', db', seen')"
  shows "(\<forall>c \<in> seen'. settled reads db' c)
         \<and> (\<forall>s \<in> set sigs. set (candidatesOf sponsor txs s) \<subseteq> seen') \<and> seen \<subseteq> seen'"
  using assms
proof (induction sigs arbitrary: res db seen)
  case Nil
  then show ?case by simp
next
  case (Cons s sigs)
  obtain r1 d1 s1 where st: "processSignature sponsor txs reads now s (res, db, seen) = (r1, d1, s1)"
    by (cases "processSignature sponsor txs reads now s (res, db, seen)") auto
  from processSignature_settles [OF Cons.prems(1) st]
  have inv: "\<forall>c \<in> s1. settled reads d1 c" and cs: "set (candidatesOf sponsor txs s) \<subseteq> s1"
    and sub: "seen \<subseteq> s1" by simp_all
  from Cons.prems(2) st
  have "foldl (\<lambda>st sigInfo. processSignature sponsor txs reads now sigInfo st) (r1, d1, s1) sigs
           = (res', db', seen')" by simp
  from Cons.IH [OF inv this] cs sub show ?case by auto
qed

subsection \<open>A run over settled candidates changes nothing\<close>

lemma processCreated_noop:
  assumes "\<forall>c \<in> set cs. settled reads db c"
    and "processCreated reads now sigInfo cs (res, db, seen) = (res', db', seen')"
  shows "db' = db \<and> newAccounts res' = newAccounts res"
  using assms
proof (induction cs arbitrary: res seen)
  case Nil
  then show ?case by simp
next
  case (Cons c cs)
  show ?case
  proof (cases "c \<in> seen")
    case True
    with Cons.prems(2) have "processCreated reads now sigInfo cs (res, db, seen) = (res', db', seen')"
      by simp
    with Cons.IH [of res seen] Cons.prems(1) show ?thesis by simp
  next
    case False
    obtain r1 d1 where pa: "processAccount reads now sigInfo c (res, db) = (r1, d1)"
      by (cases "processAccount reads now sigInfo c (res, db)")
    from Cons.prems(1) have "settled reads db c" by simp
    from processAccount_settled_noop [OF this pa] have d1: "d1 = db" and n1: "newAccounts r1 = newAccounts res"
      by simp_all
    from Cons.prems(2) False pa d1
    have "processCreated reads now sigInfo cs (r1, db, insert c seen) = (res', db', seen')" by simp
    with Cons.IH [of r1 "insert c seen"] Cons.prems(1) n1 show ?thesis by simp
  qed
qed

lemma processSignature_noop:
  assumes "\<forall>c \<in> set (candidatesOf sponsor txs sigInfo). settled reads db c"
    and "processSignature sponsor txs reads now sigInfo (res, db, seen) = (res', db', seen')"
  shows "db' = db \<and> newAccounts res' = newAccounts res"
proof -
  from processSignature_candidates [of sponsor txs reads now sigInfo res db seen]
  consider "processSignature sponsor txs reads now sigInfo (res, db, seen)
     = processCreated reads now sigInfo (candidatesOf sponsor txs sigInfo) (res, db, seen)"
    | "db' = db" and "newAccounts res' = newAccounts res"
    using assms(2) by auto
  then show ?thesis
  proof cases
    case 1
    with assms(2) have "processCreated reads now sigInfo (candidatesOf sponsor txs sigInfo) (res, db, seen)
                          = (res', db', seen')" by simp
    from processCreated_noop [OF assms(1) this] show ?thesis .
  next
    case 2
    then show ?thesis by simp
  qed
qed

lemma fold_processSignature_noop:
  assumes "\<forall>s \<in> set sigs. \<forall>c \<in> set (candidatesOf sponsor txs s). settled reads db c"
    and "foldl (\<lambda>st sigInfo. processSignature sponsor txs reads now sigInfo st) (res, db, seen) sigs
           = (res', db', seen')"
  shows "db' = db \<and> newAccounts res' = newAccounts res"
  using assms
proof (induction sigs arbitrary: res seen)
  case Nil
  then show ?case by simp
next
  case (Cons s sigs)
  obtain r1 d1 s1 where st: "processSignature sponsor txs reads now s (res, db, seen) = (r1, d1, s1)"
    by (cases "processSignature sponsor txs reads now s (res, db, seen)") auto
  from Cons.prems(1) have "\<forall>c \<in> set (candidatesOf sponsor txs s). settled reads db c" by simp
  from processSignature_noop [OF this st] have d1: "d1 = db" and n1: "newAccounts r1 = newAccounts res"
    by simp_all
  from Cons.prems(2) st d1
  have "foldl (\<lambda>st sigInfo. processSignature sponsor txs reads now sigInfo st) (r1, db, s1) sigs
           = (res', db', seen')" by simp
  with Cons.IH [of r1 s1] Cons.prems(1) n1 show ?case by simp
qed


subsection \<open>What a run over settled candidates counts\<close>

lemma processAccount_settled_counts:
  assumes "settled reads db pk" and "processAccount reads now sigInfo pk (res, db) = (res', db')"
  shows "existingAccounts res' = existingAccounts res + (if getAccount db pk \<noteq> None then 1 else 0)"
proof (cases "getAccount db pk")
  case (Some a)
  with processAccount_tracked [OF Some, of reads now sigInfo res] assms(2) show ?thesis by auto
next
  case None
  with assms(1) obtain e where e: "reads pk = Inl e" by (cases "reads pk") (auto simp: settled_def)
  from processAccount_read_fails [where reads = reads, OF None e, of now sigInfo res] assms(2) None
  show ?thesis by auto
qed

lemma processCreated_counts:
  assumes "\<forall>c \<in> set cs. settled reads db c"
    and "processCreated reads now sigInfo cs (res, db, seen) = (res', db', seen')"
  shows "existingAccounts res'
           = existingAccounts res + card {c \<in> set cs - seen. getAccount db c \<noteq> None}
         \<and> seen' = seen \<union> set cs"
  using assms
proof (induction cs arbitrary: res seen)
  case Nil
  then show ?case by simp
next
  case (Cons c cs)
  from Cons.prems(1) have rest: "\<forall>c \<in> set cs. settled reads db c" by simp
  show ?case
  proof (cases "c \<in> seen")
    case True
    with Cons.prems(2) have "processCreated reads now sigInfo cs (res, db, seen) = (res', db', seen')"
      by simp
    from Cons.IH [OF rest this]
    have e: "existingAccounts res'
               = existingAccounts res + card {x \<in> set cs - seen. getAccount db x \<noteq> None}"
      and s: "seen' = seen \<union> set cs" by simp_all
    from True have "{x \<in> set (c # cs) - seen. getAccount db x \<noteq> None}
                      = {x \<in> set cs - seen. getAccount db x \<noteq> None}" by auto
    with e s True show ?thesis by auto
  next
    case False
    obtain r1 d1 where pa: "processAccount reads now sigInfo c (res, db) = (r1, d1)"
      by (cases "processAccount reads now sigInfo c (res, db)")
    from Cons.prems(1) have sc: "settled reads db c" by simp
    from processAccount_settled_noop [OF sc pa] have d1: "d1 = db" by simp
    from processAccount_settled_counts [OF sc pa]
    have e1: "existingAccounts r1
                = existingAccounts res + (if getAccount db c \<noteq> None then 1 else 0)" .
    from Cons.prems(2) False pa d1
    have "processCreated reads now sigInfo cs (r1, db, insert c seen) = (res', db', seen')" by simp
    from Cons.IH [OF rest this]
    have e: "existingAccounts res'
               = existingAccounts r1 + card {x \<in> set cs - insert c seen. getAccount db x \<noteq> None}"
      and s: "seen' = insert c seen \<union> set cs" by simp_all
    let ?B = "{x \<in> set cs - insert c seen. getAccount db x \<noteq> None}"
    have fin: "finite ?B" by simp
    have notin: "c \<notin> ?B" by simp
    have split: "{x \<in> set (c # cs) - seen. getAccount db x \<noteq> None}
                   = (if getAccount db c \<noteq> None then insert c ?B else ?B)"
      using False by auto
    have "card {x \<in> set (c # cs) - seen. getAccount db x \<noteq> None}
            = (if getAccount db c \<noteq> None then 1 else 0) + card ?B"
      unfolding split using fin notin by simp
    with e e1 s show ?thesis by simp
  qed
qed

lemma processSignature_counts:
  assumes "\<forall>c \<in> set (candidatesOf sponsor txs sigInfo). settled reads db c"
    and "processSignature sponsor txs reads now sigInfo (res, db, seen) = (res', db', seen')"
  shows "existingAccounts res'
           = existingAccounts res
             + card {c \<in> set (candidatesOf sponsor txs sigInfo) - seen. getAccount db c \<noteq> None}
         \<and> seen' = seen \<union> set (candidatesOf sponsor txs sigInfo)"
proof -
  from processSignature_candidates [of sponsor txs reads now sigInfo res db seen]
  consider "processSignature sponsor txs reads now sigInfo (res, db, seen)
     = processCreated reads now sigInfo (candidatesOf sponsor txs sigInfo) (res, db, seen)"
    | "candidatesOf sponsor txs sigInfo = []" and "existingAccounts res' = existingAccounts res"
      and "seen' = seen"
    using assms(2) by auto
  then show ?thesis
  proof cases
    case 1
    with assms(2) have "processCreated reads now sigInfo (candidatesOf sponsor txs sigInfo) (res, db, seen)
                          = (res', db', seen')" by simp
    from processCreated_counts [OF assms(1) this] show ?thesis .
  next
    case 2
    then show ?thesis by simp
  qed
qed

lemma fold_processSignature_counts:
  assumes "\<forall>s \<in> set sigs. \<forall>c \<in> set (candidatesOf sponsor txs s). settled reads db c"
    and "foldl (\<lambda>st sigInfo. processSignature sponsor txs reads now sigInfo st) (res, db, seen) sigs
           = (res', db', seen')"
  shows "existingAccounts res'
           = existingAccounts res
             + card {c \<in> set (concat (map (candidatesOf sponsor txs) sigs)) - seen.
                       getAccount db c \<noteq> None}
         \<and> seen' = seen \<union> set (concat (map (candidatesOf sponsor txs) sigs))"
  using assms
proof (induction sigs arbitrary: res seen)
  case Nil
  then show ?case by simp
next
  case (Cons s sigs)
  obtain r1 d1 s1 where st: "processSignature sponsor txs reads now s (res, db, seen) = (r1, d1, s1)"
    by (cases "processSignature sponsor txs reads now s (res, db, seen)") auto
  from Cons.prems(1) have here: "\<forall>c \<in> set (candidatesOf sponsor txs s). settled reads db c"
    and rest: "\<forall>s \<in> set sigs. \<forall>c \<in> set (candidatesOf sponsor txs s). settled reads db c"
    by simp_all
  from processSignature_noop [OF here st] have d1: "d1 = db" by simp
  let ?A = "{c \<in> set (candidatesOf sponsor txs s) - seen. getAccount db c \<noteq> None}"
  let ?B = "{c \<in> set (concat (map (candidatesOf sponsor txs) sigs)) - s1. getAccount db c \<noteq> None}"
  from processSignature_counts [OF here st]
  have e1: "existingAccounts r1 = existingAccounts res + card ?A"
    and s1: "s1 = seen \<union> set (candidatesOf sponsor txs s)" by simp_all
  from Cons.prems(2) st d1
  have "foldl (\<lambda>st sigInfo. processSignature sponsor txs reads now sigInfo st) (r1, db, s1) sigs
           = (res', db', seen')" by simp
  from Cons.IH [OF rest this]
  have e: "existingAccounts res' = existingAccounts r1 + card ?B"
    and s': "seen' = s1 \<union> set (concat (map (candidatesOf sponsor txs) sigs))" by simp_all
  have un: "{c \<in> set (concat (map (candidatesOf sponsor txs) (s # sigs))) - seen.
               getAccount db c \<noteq> None} = ?A \<union> ?B"
    using s1 by auto
  have dj: "?A \<inter> ?B = {}" using s1 by auto
  have "finite ?A" and "finite ?B" by simp_all
  with dj have "card (?A \<union> ?B) = card ?A + card ?B" by (simp add: card_Un_disjoint)
  with un e e1 s' s1 show ?case by (simp add: Un_assoc)
qed

subsection \<open>Two runs\<close>

lemma discovery_rerun:
  assumes "\<And>c. c \<in> set (historyCandidates config signer history txs1) \<Longrightarrow> getAccount db c = None
                \<Longrightarrow> isl (reads1 c) \<Longrightarrow> isl (reads2 c)"
    and "set (historyCandidates config signer history txs2)
           \<subseteq> set (historyCandidates config signer history txs1)"
  shows "snd (discoverSponsoredAccounts config signer now2 history txs2 reads2
                (snd (discoverSponsoredAccounts config signer now1 history txs1 reads1 db)))
           = snd (discoverSponsoredAccounts config signer now1 history txs1 reads1 db)
         \<and> newAccounts (fst (discoverSponsoredAccounts config signer now2 history txs2 reads2
                (snd (discoverSponsoredAccounts config signer now1 history txs1 reads1 db)))) = 0
         \<and> existingAccounts (fst (discoverSponsoredAccounts config signer now2 history txs2 reads2
                (snd (discoverSponsoredAccounts config signer now1 history txs1 reads1 db))))
             = length (remdups (filter
                 (\<lambda>c. getAccount (snd (discoverSponsoredAccounts config signer now1 history txs1 reads1 db)) c
                        \<noteq> None)
                 (historyCandidates config signer history txs2)))
         \<and> ((\<forall>c \<in> set (historyCandidates config signer history txs1).
                getAccount db c = None \<longrightarrow> \<not> isl (reads1 c)) \<longrightarrow>
              existingAccounts (fst (discoverSponsoredAccounts config signer now2 history txs2 reads2
                (snd (discoverSponsoredAccounts config signer now1 history txs1 reads1 db))))
                = length (remdups (historyCandidates config signer history txs2)))"
proof (cases "sponsorOf config signer")
  case None
  then show ?thesis
    by (simp add: discoverSponsoredAccounts_def sponsorOf_def historyCandidates_def
          emptyDiscoveryResult_def)
next
  case (Some sponsor)
  show ?thesis
  proof (cases history)
    case (Inl e)
    with Some show ?thesis
      by (simp add: discoverSponsoredAccounts_def sponsorOf_def historyCandidates_def
            emptyDiscoveryResult_def)
  next
    case (Inr sigs)
    let ?c1 = "concat (map (candidatesOf sponsor txs1) sigs)"
    let ?c2 = "concat (map (candidatesOf sponsor txs2) sigs)"
    from Some Inr have h1: "historyCandidates config signer history txs1 = ?c1"
      and h2: "historyCandidates config signer history txs2 = ?c2"
      by (simp_all add: historyCandidates_def)
    obtain res1 db1 seen1
      where f1: "foldl (\<lambda>st sigInfo. processSignature sponsor txs1 reads1 now1 sigInfo st)
                       (emptyDiscoveryResult, db, {}) sigs = (res1, db1, seen1)"
      by (cases "foldl (\<lambda>st sigInfo. processSignature sponsor txs1 reads1 now1 sigInfo st)
                       (emptyDiscoveryResult, db, {}) sigs") auto
    obtain res2 db2 seen2
      where f2: "foldl (\<lambda>st sigInfo. processSignature sponsor txs2 reads2 now2 sigInfo st)
                       (emptyDiscoveryResult, db1, {}) sigs = (res2, db2, seen2)"
      by (cases "foldl (\<lambda>st sigInfo. processSignature sponsor txs2 reads2 now2 sigInfo st)
                       (emptyDiscoveryResult, db1, {}) sigs") auto
    from Some Inr f1
    have run1: "snd (discoverSponsoredAccounts config signer now1 history txs1 reads1 db) = db1"
      by (simp add: discoverSponsoredAccounts_def sponsorOf_def)
    from Some Inr f2
    have run2: "discoverSponsoredAccounts config signer now2 history txs2 reads2 db1
                  = (res2\<lparr>totalFound := newAccounts res2 + existingAccounts res2\<rparr>, db2)"
      by (simp add: discoverSponsoredAccounts_def sponsorOf_def)
    have "\<forall>c \<in> {}. settled reads1 db c" by simp
    from fold_processSignature_settles [OF this f1]
    have inv: "\<forall>c \<in> seen1. settled reads1 db1 c"
      and cs: "\<forall>s \<in> set sigs. set (candidatesOf sponsor txs1 s) \<subseteq> seen1" by simp_all
    from discover_grows [of db config signer now1 history txs1 reads1] run1
    have g: "grows db db1" by simp
    have untracked: "getAccount db c = None" if "getAccount db1 c = None" for c
      using grows_getAccount [OF g, of c] that by (cases "getAccount db c") auto
    have first: "c \<in> set ?c1 \<and> settled reads1 db1 c" if "c \<in> set ?c2" for c
    proof -
      from that assms(2) h1 h2 have "c \<in> set ?c1" by auto
      with cs inv show ?thesis by auto
    qed
    have second: "\<forall>s \<in> set sigs. \<forall>c \<in> set (candidatesOf sponsor txs2 s). settled reads2 db1 c"
    proof (intro ballI)
      fix s c assume "s \<in> set sigs" and "c \<in> set (candidatesOf sponsor txs2 s)"
      then have "c \<in> set ?c2" by auto
      from first [OF this] have c1: "c \<in> set ?c1" and st: "settled reads1 db1 c" by simp_all
      show "settled reads2 db1 c"
      proof (cases "getAccount db1 c")
        case (Some a)
        then show ?thesis by (simp add: settled_def)
      next
        case None
        with st have "isl (reads1 c)" by (simp add: settled_def)
        with assms(1) [of c] c1 h1 untracked [OF None] have "isl (reads2 c)" by simp
        then show ?thesis by (simp add: settled_def)
      qed
    qed
    from fold_processSignature_noop [OF second f2]
    have same: "db2 = db1" and new: "newAccounts res2 = 0" by (simp_all add: emptyDiscoveryResult_def)
    from fold_processSignature_counts [OF second f2]
    have "existingAccounts res2 = card {c \<in> set ?c2. getAccount db1 c \<noteq> None}"
      by (simp add: emptyDiscoveryResult_def)
    also have "{c \<in> set ?c2. getAccount db1 c \<noteq> None}
                 = set (filter (\<lambda>c. getAccount db1 c \<noteq> None) ?c2)" by auto
    finally have count: "existingAccounts res2
                           = length (remdups (filter (\<lambda>c. getAccount db1 c \<noteq> None) ?c2))"
      by (simp only: length_remdups_card_conv)
    have all: "existingAccounts res2 = length (remdups ?c2)"
      if ok: "\<forall>c \<in> set ?c1. getAccount db c = None \<longrightarrow> \<not> isl (reads1 c)"
    proof -
      have "getAccount db1 c \<noteq> None" if c: "c \<in> set ?c2" for c
      proof
        assume None: "getAccount db1 c = None"
        from first [OF c] have c1: "c \<in> set ?c1" and st: "settled reads1 db1 c" by simp_all
        from st None have "isl (reads1 c)" by (simp add: settled_def)
        with ok c1 untracked [OF None] show False by blast
      qed
      then have "filter (\<lambda>c. getAccount db1 c \<noteq> None) ?c2 = ?c2" by (simp add: filter_id_conv)
      with count show ?thesis by simp
    qed
    from run1 run2 same new count all h1 h2 show ?thesis by simp
  qed
qed

text \<open>
  Claim C8 fails as stated. One sponsored transaction creates one account. In the first
  run the read of that account fails: the run records an error and tracks nothing. The
  second run, over the same history, gets an answer to the read and reports one new
  account. Had the read failed again, the second run would have counted no existing
  account: the candidate is reported as an error, not as existing.
\<close>

theorem C8_read_answered_later_is_a_new_account:
  "snd (discoverSponsoredAccounts defaultConfig (Some ''Sponsor'') 0 (Inr oneSignature)
          fetched unreachable emptyDatabase) = emptyDatabase
   \<and> newAccounts (fst (discoverSponsoredAccounts defaultConfig (Some ''Sponsor'') tenDays
          (Inr oneSignature) fetched tokenOnChain
          (snd (discoverSponsoredAccounts defaultConfig (Some ''Sponsor'') 0 (Inr oneSignature)
                  fetched unreachable emptyDatabase)))) = 1
   \<and> map pubkey (tracked_accounts (snd (discoverSponsoredAccounts defaultConfig (Some ''Sponsor'')
          tenDays (Inr oneSignature) fetched tokenOnChain
          (snd (discoverSponsoredAccounts defaultConfig (Some ''Sponsor'') 0 (Inr oneSignature)
                  fetched unreachable emptyDatabase))))) = [''Acct1'']
   \<and> existingAccounts (fst (discoverSponsoredAccounts defaultConfig (Some ''Sponsor'') tenDays
          (Inr oneSignature) fetched unreachable
          (snd (discoverSponsoredAccounts defaultConfig (Some ''Sponsor'') 0 (Inr oneSignature)
                  fetched unreachable emptyDatabase)))) = 0"
proof -
  have first: "snd (discoverSponsoredAccounts defaultConfig (Some ''Sponsor'') 0 (Inr oneSignature)
          fetched unreachable emptyDatabase) = emptyDatabase"
    by (simp add: discoverSponsoredAccounts_def processSignature_def findCreatedAccounts_def
          candidate_def processAccount_def getAccountInfo_def emptyDiscoveryResult_def
          oneSignature_def fetched_def sponsoredTx_def unreachable_def
          store_defs scenario_defs Let_def)
  have second: "discoverSponsoredAccounts defaultConfig (Some ''Sponsor'') tenDays (Inr oneSignature)
                 fetched tokenOnChain emptyDatabase
      = (\<lparr>totalFound = 1, newAccounts = 1, existingAccounts = 0,
          accounts = [activeAccount\<lparr>createdAt := 1700000000000, rentLamports := 50000,
                                     lastCheckedAt := tenDays\<rparr>], errors = []\<rparr>,
         storeOf (activeAccount\<lparr>createdAt := 1700000000000, rentLamports := 50000,
                                 lastCheckedAt := tenDays\<rparr>))"
    by (simp add: discoverSponsoredAccounts_def processSignature_def findCreatedAccounts_def
          candidate_def processAccount_def getAccountInfo_def toAccountInfo_def newTrackedAccount_def
          detectAccountType_def upsertAccount_def or_null_int_def emptyDiscoveryResult_def
          oneSignature_def fetched_def sponsoredTx_def tokenOnChain_def
          store_defs scenario_defs Let_def)
  have third: "existingAccounts (fst (discoverSponsoredAccounts defaultConfig (Some ''Sponsor'') tenDays
          (Inr oneSignature) fetched unreachable emptyDatabase)) = 0"
    by (simp add: discoverSponsoredAccounts_def processSignature_def findCreatedAccounts_def
          candidate_def processAccount_def getAccountInfo_def emptyDiscoveryResult_def
          oneSignature_def fetched_def sponsoredTx_def unreachable_def
          store_defs scenario_defs Let_def)
  from first second third show ?thesis
    by (simp add: storeOf_def emptyDatabase_def activeAccount_def)
qed

text \<open>
  Claim C8 as amended. Two consecutive Discovery runs over the same signatures, at any two
  times, such that the read of every candidate that failed in the first run (a candidate
  not tracked before it) fails again in the second, and the transactions fetched by the
  second run yield no candidate address that those fetched by the first did not (in
  particular, two runs with the same answers to every fetch and every read): the second
  run leaves the store as the first run left it and reports zero new accounts. It counts
  as existing exactly the distinct candidates it extracts that are tracked after the first
  run, which is all of them when no account read of the first run failed.
\<close>

theorem C8_second_discovery_run_is_a_no_op:
  assumes "\<And>c. c \<in> set (historyCandidates config signer history txs1) \<Longrightarrow> getAccount db c = None
                \<Longrightarrow> isl (reads1 c) \<Longrightarrow> isl (reads2 c)"
    and "set (historyCandidates config signer history txs2)
           \<subseteq> set (historyCandidates config signer history txs1)"
  shows "snd (discoverSponsoredAccounts config signer now2 history txs2 reads2
                (snd (discoverSponsoredAccounts config signer now1 history txs1 reads1 db)))
           = snd (discoverSponsoredAccounts config signer now1 history txs1 reads1 db)
         \<and> newAccounts (fst (discoverSponsoredAccounts config signer now2 history txs2 reads2
                (snd (discoverSponsoredAccounts config signer now1 history txs1 reads1 db)))) = 0
         \<and> existingAccounts (fst (discoverSponsoredAccounts config signer now2 history txs2 reads2
                (snd (discoverSponsoredAccounts config signer now1 history txs1 reads1 db))))
             = length (remdups (filter
                 (\<lambda>c. getAccount (snd (discoverSponsoredAccounts config signer now1 history txs1 reads1 db)) c
                        \<noteq> None)
                 (historyCandidates config signer history txs2)))
         \<and> ((\<forall>c \<in> set (historyCandidates config signer history txs1).
                getAccount db c = None \<longrightarrow> \<not> isl (reads1 c)) \<longrightarrow>
              existingAccounts (fst (discoverSponsoredAccounts config signer now2 history txs2 reads2
                (snd (discoverSponsoredAccounts config signer now1 history txs1 reads1 db))))
                = length (remdups (historyCandidates config signer history txs2)))"
  using assms by (rule discovery_rerun)

text \<open>
  An instance: one sponsored transaction that creates one account, and a ledger that
  answers every read. The first run inserts the account, the second run ten days later
  counts it as existing.
\<close>

theorem C8_witness:
  "historyCandidates defaultConfig (Some ''Sponsor'') (Inr oneSignature) fetched = [''Acct1'']
   \<and> \<not> isl (tokenOnChain ''Acct1'')
   \<and> newAccounts (fst (discoverSponsoredAccounts defaultConfig (Some ''Sponsor'') 0 (Inr oneSignature)
                       fetched tokenOnChain emptyDatabase)) = 1
   \<and> map pubkey (tracked_accounts (snd (discoverSponsoredAccounts defaultConfig (Some ''Sponsor'') 0
                       (Inr oneSignature) fetched tokenOnChain emptyDatabase))) = [''Acct1'']
   \<and> snd (discoverSponsoredAccounts defaultConfig (Some ''Sponsor'') tenDays (Inr oneSignature)
             fetched tokenOnChain
             (snd (discoverSponsoredAccounts defaultConfig (Some ''Sponsor'') 0 (Inr oneSignature)
                     fetched tokenOnChain emptyDatabase)))
       = snd (discoverSponsoredAccounts defaultConfig (Some ''Sponsor'') 0 (Inr oneSignature)
                fetched tokenOnChain emptyDatabase)
   \<and> newAccounts (fst (discoverSponsoredAccounts defaultConfig (Some ''Sponsor'') tenDays
             (Inr oneSignature) fetched tokenOnChain
             (snd (discoverSponsoredAccounts defaultConfig (Some ''Sponsor'') 0 (Inr oneSignature)
                     fetched tokenOnChain emptyDatabase)))) = 0
   \<and> existingAccounts (fst (discoverSponsoredAccounts defaultConfig (Some ''Sponsor'') tenDays
             (Inr oneSignature) fetched tokenOnChain
             (snd (discoverSponsoredAccounts defaultConfig (Some ''Sponsor'') 0 (Inr oneSignature)
                     fetched tokenOnChain emptyDatabase)))) = 1"
proof -
  have cands: "historyCandidates defaultConfig (Some ''Sponsor'') (Inr oneSignature) fetched = [''Acct1'']"
    by (simp add: historyCandidates_def sponsorOf_def candidatesOf_def findCreatedAccounts_def
          candidate_def oneSignature_def fetched_def sponsoredTx_def or_null_string_def)
  have answered: "\<not> isl (tokenOnChain ''Acct1'')" by (simp add: tokenOnChain_def)
  have first: "discoverSponsoredAccounts defaultConfig (Some ''Sponsor'') 0 (Inr oneSignature)
                 fetched tokenOnChain emptyDatabase
      = (\<lparr>totalFound = 1, newAccounts = 1, existingAccounts = 0,
          accounts = [activeAccount\<lparr>createdAt := 1700000000000, rentLamports := 50000\<rparr>], errors = []\<rparr>,
         storeOf (activeAccount\<lparr>createdAt := 1700000000000, rentLamports := 50000\<rparr>))"
    by (simp add: discoverSponsoredAccounts_def processSignature_def findCreatedAccounts_def
          candidate_def processAccount_def getAccountInfo_def toAccountInfo_def newTrackedAccount_def
          detectAccountType_def upsertAccount_def or_null_int_def emptyDiscoveryResult_def
          oneSignature_def fetched_def sponsoredTx_def tokenOnChain_def
          store_defs scenario_defs Let_def)
  have same: "\<And>c. c \<in> set (historyCandidates defaultConfig (Some ''Sponsor'') (Inr oneSignature) fetched)
                \<Longrightarrow> getAccount emptyDatabase c = None
                \<Longrightarrow> isl (tokenOnChain c) \<Longrightarrow> isl (tokenOnChain c)" by simp
  from C8_second_discovery_run_is_a_no_op [where ?reads1.0 = tokenOnChain and ?reads2.0 = tokenOnChain
         and ?txs1.0 = fetched and ?txs2.0 = fetched and config = defaultConfig
         and signer = "Some ''Sponsor''" and history = "Inr oneSignature" and ?now1.0 = 0
         and ?now2.0 = tenDays and db = emptyDatabase, OF same subset_refl]
       cands answered first
  show ?thesis by (simp add: storeOf_def emptyDatabase_def activeAccount_def getAccount_def)
qed

end
